(* ===== verification/Prelude.thy ===== *)
theory Prelude
  imports Main "HOL-Library.AList" "HOL-Library.Word"
begin

text \<open>
  The vocabulary the components share.

  \<^item> JavaScript strings are \<^typ>\<open>string\<close>, one \<^typ>\<open>char\<close> per UTF-16 code unit up to 255 (Latin-1);
    code units above 255 are outside the model.
  \<^item> A Node \<open>Buffer\<close> is a list of bytes.
  \<^item> A JavaScript object used as a dictionary is an association list in insertion order, read
    with \<^const>\<open>map_of\<close>, written with \<open>obj_put\<close> and enumerated with \<open>own_entries\<close>, which is
    the language's own-property order (integer indices first, ascending, then the other keys as they
    were inserted). \<open>_.forOwn\<close>, \<open>_.each\<close> and \<open>_.map\<close> over an object are loops over this enumeration.
  \<^item> An exception is a value of \<open>js_exn\<close>; a function that may throw returns \<open>js_exn + 'a\<close>.
\<close>

section \<open>Collections of facts\<close>

named_theorems obj_simps \<open>reading, writing and enumerating dictionary objects\<close>

named_theorems step_defs \<open>the handlers of the components' state machines\<close>

section \<open>Exceptions and results\<close>

datatype js_exn = JsError string | JsTypeError string | JsURIError string | JsRangeError string

fun exn_message :: "js_exn \<Rightarrow> string" where
  "exn_message (JsError m) = m"
| "exn_message (JsTypeError m) = m"
| "exn_message (JsURIError m) = m"
| "exn_message (JsRangeError m) = m"

fun and_then :: "'e + 'a \<Rightarrow> ('a \<Rightarrow> 'e + 'b) \<Rightarrow> 'e + 'b" where
  "and_then (Inl e) f = Inl e"
| "and_then (Inr a) f = f a"

lemma and_then_Inr [simp]: "and_then r Inr = r"
  by (cases r) auto

lemma and_then_assoc: "and_then (and_then r f) g = and_then r (\<lambda>a. and_then (f a) g)"
  by (cases r) auto

lemma and_then_eq_Inr: "and_then r f = Inr b \<longleftrightarrow> (\<exists>a. r = Inr a \<and> f a = Inr b)"
  by (cases r) auto

lemma and_then_eq_Inl: "and_then r f = Inl e \<longleftrightarrow> r = Inl e \<or> (\<exists>a. r = Inr a \<and> f a = Inl e)"
  by (cases r) auto

lemma and_then_cong: "r = r' \<Longrightarrow> (\<And>a. r' = Inr a \<Longrightarrow> f a = g a) \<Longrightarrow> and_then r f = and_then r' g"
  by (cases r') auto

text \<open>A loop whose body may throw: it stops at the first exception.\<close>

fun fold_res :: "('a \<Rightarrow> 's \<Rightarrow> 'e + 's) \<Rightarrow> 'a list \<Rightarrow> 's \<Rightarrow> 'e + 's" where
  "fold_res f [] s = Inr s"
| "fold_res f (x # xs) s = and_then (f x s) (fold_res f xs)"

lemma fold_res_Nil [simp]: "fold_res f [] = Inr"
  by (rule ext) simp

lemma fold_res_single [simp]: "fold_res f [x] = f x"
  by (rule ext) simp

lemma fold_res_append: "fold_res f (xs @ ys) s = and_then (fold_res f xs s) (fold_res f ys)"
  by (induction xs arbitrary: s) (simp_all add: and_then_assoc cong: and_then_cong)

lemma fold_res_pure:
  "(\<And>x s. x \<in> set xs \<Longrightarrow> f x s = Inr (g x s)) \<Longrightarrow> fold_res f xs s = Inr (fold g xs s)"
  by (induction xs arbitrary: s) auto

lemma fold_res_invariant:
  assumes "fold_res f xs s = Inr s'" and "I s"
    and "\<And>x s s'. x \<in> set xs \<Longrightarrow> I s \<Longrightarrow> f x s = Inr s' \<Longrightarrow> I s'"
  shows "I s'"
  using assms by (induction xs arbitrary: s) (auto simp: and_then_eq_Inr)

section \<open>Strings and bytes\<close>

type_synonym byte = "8 word"
type_synonym bytes = "byte list"

text \<open>\<open>String.prototype.toLowerCase\<close> on Latin-1: the ASCII capitals, and the accented capitals
  192 to 222 apart from the multiplication sign 215.\<close>

definition lower_char :: "char \<Rightarrow> char" where
  "lower_char c =
     (let n = (of_char c :: nat)
      in if 65 \<le> n \<and> n \<le> 90 \<or> (192 \<le> n \<and> n \<le> 222 \<and> n \<noteq> 215) then char_of (n + 32) else c)"

definition to_lower :: "string \<Rightarrow> string" where
  "to_lower = map lower_char"

lemma lower_char_code:
  "(of_char (lower_char c) :: nat) =
     (let n = of_char c in if 65 \<le> n \<and> n \<le> 90 \<or> (192 \<le> n \<and> n \<le> 222 \<and> n \<noteq> 215) then n + 32 else n)"
  by (auto simp: lower_char_def Let_def of_char_of)

lemma lower_char_idem [simp]: "lower_char (lower_char c) = lower_char c"
proof -
  have "(of_char (lower_char (lower_char c)) :: nat) = of_char (lower_char c)"
    by (simp add: lower_char_code Let_def)
  then show ?thesis by simp
qed

lemma to_lower_idem [simp]: "to_lower (to_lower s) = to_lower s"
  by (simp add: to_lower_def)

lemma to_lower_append: "to_lower (s @ t) = to_lower s @ to_lower t"
  by (simp add: to_lower_def)

definition ends_with :: "string \<Rightarrow> string \<Rightarrow> bool" where
  "ends_with s t \<longleftrightarrow> length t \<le> length s \<and> drop (length s - length t) s = t"

text \<open>The decimal notation of an integer, as \<open>String(n)\<close> prints it.\<close>

fun nat_digits :: "nat \<Rightarrow> string" where
  "nat_digits n =
     (if n < 10 then [char_of (48 + n)] else nat_digits (n div 10) @ [char_of (48 + n mod 10)])"

declare nat_digits.simps [simp del]

definition int_digits :: "int \<Rightarrow> string" where
  "int_digits i = (if i < 0 then CHR ''-'' # nat_digits (nat (- i)) else nat_digits (nat i))"

definition digit_val :: "char \<Rightarrow> nat option" where
  "digit_val c = (let n = of_char c in if 48 \<le> n \<and> n \<le> 57 then Some (n - 48) else None)"

fun digits_val :: "nat \<Rightarrow> string \<Rightarrow> nat option" where
  "digits_val acc [] = Some acc"
| "digits_val acc (c # cs) =
     (case digit_val c of None \<Rightarrow> None | Some d \<Rightarrow> digits_val (10 * acc + d) cs)"

lemma digits_val_append:
  "digits_val acc (s @ t) = (case digits_val acc s of None \<Rightarrow> None | Some v \<Rightarrow> digits_val v t)"
  by (induction s arbitrary: acc) (auto split: option.splits)

lemma digit_val_char: "d < 10 \<Longrightarrow> digit_val (char_of (48 + d)) = Some d"
  by (simp add: digit_val_def Let_def of_char_of)

lemma digits_val_nat_digits: "digits_val 0 (nat_digits n) = Some n"
proof (induction n rule: nat_digits.induct)
  case (1 n)
  show ?case
  proof (cases "n < 10")
    case True
    then show ?thesis by (simp add: nat_digits.simps [of n] digit_val_char)
  next
    case False
    with 1 have "digits_val 0 (nat_digits (n div 10)) = Some (n div 10)" by simp
    with False show ?thesis
      by (simp add: nat_digits.simps [of n] digits_val_append digit_val_char)
  qed
qed

lemma nat_digits_nonempty [simp]: "nat_digits n \<noteq> []"
  by (subst nat_digits.simps) simp

lemma length_nat_digits: "n < 10 ^ k \<Longrightarrow> 0 < k \<Longrightarrow> length (nat_digits n) \<le> k"
proof (induction k arbitrary: n)
  case 0
  then show ?case by simp
next
  case (Suc k)
  show ?case
  proof (cases "n < 10")
    case True
    then show ?thesis by (simp add: nat_digits.simps [of n])
  next
    case False
    with Suc.prems(1) have "0 < k" by (cases k) auto
    moreover have "n div 10 < 10 ^ k"
      using Suc.prems(1) by (simp add: div_less_iff_less_mult mult.commute)
    ultimately have "length (nat_digits (n div 10)) \<le> k" by (intro Suc.IH)
    with False show ?thesis by (simp add: nat_digits.simps [of n])
  qed
qed

section \<open>Dictionary objects\<close>

type_synonym 'v obj = "(string \<times> 'v) list"

definition has_own :: "'v obj \<Rightarrow> string \<Rightarrow> bool" where
  "has_own o' k \<longleftrightarrow> map_of o' k \<noteq> None"

text \<open>
  The names a plain object inherits from \<open>Object.prototype\<close> that a lowercased key can equal. Reading
  one gives a value that is neither undefined nor an array. Assigning \<open>__proto__\<close> does not create a
  property: it replaces the prototype (the replaced prototype itself is not tracked).
\<close>

definition inherited :: "string \<Rightarrow> bool" where
  "inherited k \<longleftrightarrow> k = ''constructor'' \<or> k = ''__proto__''"

definition obj_put :: "string \<Rightarrow> 'v \<Rightarrow> 'v obj \<Rightarrow> 'v obj" where
  "obj_put k v o' = (if k = ''__proto__'' then o' else AList.update k v o')"

definition obj_del :: "string \<Rightarrow> 'v obj \<Rightarrow> 'v obj" where
  "obj_del k o' = AList.delete k o'"

definition obj_wf :: "'v obj \<Rightarrow> bool" where
  "obj_wf o' \<longleftrightarrow> distinct (map fst o') \<and> ''__proto__'' \<notin> set (map fst o')"

text \<open>An integer index: the canonical decimal notation of a number below \<open>2^32 - 1\<close>.\<close>

definition is_index :: "string \<Rightarrow> bool" where
  "is_index k = (case digits_val 0 k of None \<Rightarrow> False | Some n \<Rightarrow> k = nat_digits n \<and> n < 4294967295)"

definition index_of :: "string \<Rightarrow> nat" where
  "index_of k = (case digits_val 0 k of None \<Rightarrow> 0 | Some n \<Rightarrow> n)"

definition own_entries :: "'v obj \<Rightarrow> (string \<times> 'v) list" where
  "own_entries o' =
     sort_key (\<lambda>e. index_of (fst e)) (filter (\<lambda>e. is_index (fst e)) o') @
     filter (\<lambda>e. \<not> is_index (fst e)) o'"

lemma obj_wf_Nil [simp, intro]: "obj_wf []"
  by (simp add: obj_wf_def)

lemma obj_put_wf [simp, intro]: "obj_wf o' \<Longrightarrow> obj_wf (obj_put k v o')"
  by (auto simp: obj_wf_def obj_put_def distinct_update dom_update)

lemma obj_del_wf [simp, intro]: "obj_wf o' \<Longrightarrow> obj_wf (obj_del k o')"
  by (auto simp: obj_wf_def obj_del_def delete_keys distinct_removeAll)

lemma map_of_obj_put [obj_simps]:
  "k \<noteq> ''__proto__'' \<Longrightarrow> map_of (obj_put k v o') = (map_of o')(k \<mapsto> v)"
  by (simp add: obj_put_def update_conv')

lemma map_of_obj_put_other [obj_simps]: "j \<noteq> k \<Longrightarrow> map_of (obj_put k v o') j = map_of o' j"
  by (simp add: obj_put_def update_conv')

lemma map_of_obj_del [obj_simps]: "map_of (obj_del k o') = (map_of o')(k := None)"
  by (simp add: obj_del_def delete_conv')

lemma has_own_put [obj_simps]: "k \<noteq> ''__proto__'' \<Longrightarrow> has_own (obj_put k v o') j \<longleftrightarrow> j = k \<or> has_own o' j"
  by (simp add: has_own_def obj_simps)

lemma obj_wf_proto: "obj_wf o' \<Longrightarrow> \<not> has_own o' ''__proto__''"
  by (auto simp: obj_wf_def has_own_def map_of_eq_None_iff)

lemma set_own_entries [simp]: "set (own_entries o') = set o'"
  by (auto simp: own_entries_def)

lemma distinct_own_entries: "distinct (map fst o') \<Longrightarrow> distinct (map fst (own_entries o'))"
proof -
  assume d: "distinct (map fst o')"
  have "distinct o'" using d by (simp add: distinct_map)
  then have "distinct (own_entries o')" by (auto simp: own_entries_def)
  moreover have "inj_on fst (set (own_entries o'))" using d by (simp add: distinct_map)
  ultimately show ?thesis by (simp add: distinct_map)
qed

lemma map_of_own_entries [obj_simps]: "obj_wf o' \<Longrightarrow> map_of (own_entries o') = map_of o'"
  by (rule map_of_inject_set [THEN iffD2]) (auto simp: obj_wf_def distinct_own_entries)

lemma obj_wf_own_entries: "obj_wf o' \<Longrightarrow> obj_wf (own_entries o')"
  by (auto simp: obj_wf_def distinct_own_entries)

lemma own_entries_Nil [simp]: "own_entries [] = []"
  by (simp add: own_entries_def)

text \<open>Rebuilding an object entry by entry, each value passed through \<open>f\<close>.\<close>

lemma fold_put_map_of:
  assumes "distinct (map fst es)" and "''__proto__'' \<notin> set (map fst es)"
  shows "map_of (fold (\<lambda>e acc. obj_put (fst e) (f (snd e)) acc) es acc) k =
         (case map_of es k of None \<Rightarrow> map_of acc k | Some v \<Rightarrow> Some (f v))"
  using assms
proof (induction es arbitrary: acc)
  case Nil
  then show ?case by simp
next
  case (Cons e es)
  show ?case
  proof (cases "k = fst e")
    case True
    with Cons.prems have "map_of es k = None" by (simp add: map_of_eq_None_iff)
    with Cons True show ?thesis by (cases e) (auto simp: obj_simps)
  next
    case False
    with Cons show ?thesis by (cases e) (auto simp: obj_simps split: option.splits)
  qed
qed

lemma fold_put_wf: "obj_wf acc \<Longrightarrow> obj_wf (fold (\<lambda>e acc. obj_put (fst e) (f (snd e)) acc) es acc)"
  by (induction es arbitrary: acc) auto

section \<open>Counting\<close>

lemma count_list_remove1: "count_list (remove1 x xs) y = (if x = y then count_list xs y - 1 else count_list xs y)"
  by (induction xs) auto

lemma count_list_mem: "x \<in> set xs \<Longrightarrow> 0 < count_list xs x"
  by (induction xs) auto

end
