(* ===== verification/MetadataContract.thy ===== *)
theory MetadataContract
  imports Prelude
begin

text \<open>
  What the two implementations of metadata promise (\<open>grpc-native-core/src/metadata.js\<close> and
  \<open>grpc-js-core/src/metadata.ts\<close>): a multimap from normalized keys to the list of values in the
  order they were added. The contract is the locale \<open>metadata_store\<close>; its client is a program of
  calls, whose result is the one of the abstract multimap machine \<open>spec_exec\<close>.
\<close>

section \<open>Values and representations\<close>

datatype md_value = MString string | MBuffer bytes

type_synonym metadata = "md_value list obj"

definition md_values :: "metadata \<Rightarrow> string \<Rightarrow> md_value list" where
  "md_values m k = (case map_of m k of None \<Rightarrow> [] | Some vs \<Rightarrow> vs)"

lemma md_values_put [obj_simps]:
  "k \<noteq> ''__proto__'' \<Longrightarrow> md_values (obj_put k vs m) = (md_values m)(k := vs)"
  by (auto simp: md_values_def obj_simps)

lemma md_values_del [obj_simps]: "md_values (obj_del k m) = (md_values m)(k := [])"
  by (auto simp: md_values_def obj_simps)

lemma md_values_Nil [simp]: "md_values [] k = []"
  by (simp add: md_values_def)

lemma not_inherited_proto: "\<not> inherited k \<Longrightarrow> k \<noteq> ''__proto__''"
  by (simp add: inherited_def)

section \<open>Programs of calls\<close>

datatype md_cmd = CSet string md_value | CAdd string md_value | CRemove string

fun cmd_key :: "md_cmd \<Rightarrow> string" where
  "cmd_key (CSet k v) = k"
| "cmd_key (CAdd k v) = k"
| "cmd_key (CRemove k) = k"

fun exec_cmd ::
  "(string \<Rightarrow> md_value \<Rightarrow> 'm \<Rightarrow> js_exn + 'm) \<Rightarrow> (string \<Rightarrow> md_value \<Rightarrow> 'm \<Rightarrow> js_exn + 'm) \<Rightarrow>
   (string \<Rightarrow> 'm \<Rightarrow> js_exn + 'm) \<Rightarrow> md_cmd \<Rightarrow> 'm \<Rightarrow> js_exn + 'm" where
  "exec_cmd setv addv removek (CSet k v) m = setv k v m"
| "exec_cmd setv addv removek (CAdd k v) m = addv k v m"
| "exec_cmd setv addv removek (CRemove k) m = removek k m"

text \<open>The abstract machine: its state gives each key its values.\<close>

fun spec_cmd ::
  "(string \<Rightarrow> md_value \<Rightarrow> js_exn + string) \<Rightarrow> (string \<Rightarrow> js_exn + string) \<Rightarrow> md_cmd \<Rightarrow>
   (string \<Rightarrow> md_value list) \<Rightarrow> js_exn + (string \<Rightarrow> md_value list)" where
  "spec_cmd check norm (CSet key v) f = and_then (check key v) (\<lambda>k. Inr (f(k := [v])))"
| "spec_cmd check norm (CAdd key v) f = and_then (check key v) (\<lambda>k. Inr (f(k := f k @ [v])))"
| "spec_cmd check norm (CRemove key) f = and_then (norm key) (\<lambda>k. Inr (f(k := [])))"

abbreviation spec_exec where
  "spec_exec check norm \<equiv> fold_res (spec_cmd check norm)"

section \<open>The contract\<close>

locale metadata_store =
  fixes norm :: "string \<Rightarrow> js_exn + string"
    and check :: "string \<Rightarrow> md_value \<Rightarrow> js_exn + string"
    and setv :: "string \<Rightarrow> md_value \<Rightarrow> 'm \<Rightarrow> js_exn + 'm"
    and addv :: "string \<Rightarrow> md_value \<Rightarrow> 'm \<Rightarrow> js_exn + 'm"
    and removek :: "string \<Rightarrow> 'm \<Rightarrow> js_exn + 'm"
    and getk :: "string \<Rightarrow> 'm \<Rightarrow> js_exn + md_value list"
    and view :: "'m \<Rightarrow> string \<Rightarrow> md_value list"
    and wf :: "'m \<Rightarrow> bool"
    and plain :: "string \<Rightarrow> bool"
  assumes set_ok: "\<lbrakk>wf m; plain key; check key v = Inr k\<rbrakk> \<Longrightarrow>
        \<exists>m'. setv key v m = Inr m' \<and> wf m' \<and> view m' = (view m)(k := [v])"
    and set_err: "check key v = Inl e \<Longrightarrow> setv key v m = Inl e"
    and add_ok: "\<lbrakk>wf m; plain key; check key v = Inr k\<rbrakk> \<Longrightarrow>
        \<exists>m'. addv key v m = Inr m' \<and> wf m' \<and> view m' = (view m)(k := view m k @ [v])"
    and add_err: "check key v = Inl e \<Longrightarrow> addv key v m = Inl e"
    and remove_ok: "\<lbrakk>wf m; norm key = Inr k\<rbrakk> \<Longrightarrow>
        \<exists>m'. removek key m = Inr m' \<and> wf m' \<and> view m' = (view m)(k := [])"
    and remove_err: "norm key = Inl e \<Longrightarrow> removek key m = Inl e"
    and get_ok: "\<lbrakk>wf m; norm key = Inr k\<rbrakk> \<Longrightarrow> getk key m = Inr (view m k)"
    and get_err: "norm key = Inl e \<Longrightarrow> getk key m = Inl e"
    and check_norm: "check key v = Inr k \<Longrightarrow> norm key = Inr k"
begin

lemma get_after_set:
  assumes "wf m" "plain key" "setv key v m = Inr m'"
  shows "getk key m' = Inr [v]"
proof (cases "check key v")
  case (Inl e)
  with assms(3) show ?thesis by (simp add: set_err)
next
  case (Inr k)
  with assms set_ok [of m key v k] have "wf m'" "view m' = (view m)(k := [v])" by auto
  with Inr show ?thesis by (simp add: check_norm get_ok)
qed

lemma get_after_add:
  assumes "wf m" "plain key" "addv key v m = Inr m'" "getk key m = Inr vs"
  shows "getk key m' = Inr (vs @ [v])"
proof (cases "check key v")
  case (Inl e)
  with assms(3) show ?thesis by (simp add: add_err)
next
  case (Inr k)
  with assms add_ok [of m key v k] have m': "wf m'" "view m' = (view m)(k := view m k @ [v])" by auto
  from Inr have "norm key = Inr k" by (rule check_norm)
  with m' assms show ?thesis by (simp add: get_ok)
qed

lemma get_after_remove:
  assumes "wf m" "removek key m = Inr m'"
  shows "getk key m' = Inr []"
proof (cases "norm key")
  case (Inl e)
  with assms(2) show ?thesis by (simp add: remove_err)
next
  case (Inr k)
  with assms remove_ok [of m key k] show ?thesis by (auto simp: get_ok)
qed

lemma exec_cmd_refines:
  assumes "wf m" "plain (cmd_key c)"
  shows "map_sum id view (exec_cmd setv addv removek c m) = spec_cmd check norm c (view m)"
    and "exec_cmd setv addv removek c m = Inr m' \<Longrightarrow> wf m'"
proof -
  have *: "map_sum id view (exec_cmd setv addv removek c m) = spec_cmd check norm c (view m) \<and>
        (\<forall>m'. exec_cmd setv addv removek c m = Inr m' \<longrightarrow> wf m')"
  proof (cases c)
    case (CSet key v)
    with assms show ?thesis
      by (cases "check key v") (auto simp: set_err dest: set_ok)
  next
    case (CAdd key v)
    with assms show ?thesis
      by (cases "check key v") (auto simp: add_err dest: add_ok)
  next
    case (CRemove key)
    with assms show ?thesis
      by (cases "norm key") (auto simp: remove_err dest: remove_ok)
  qed
  then show "map_sum id view (exec_cmd setv addv removek c m) = spec_cmd check norm c (view m)"
    and "exec_cmd setv addv removek c m = Inr m' \<Longrightarrow> wf m'" by auto
qed

lemma exec_refines:
  "wf m \<Longrightarrow> list_all (\<lambda>c. plain (cmd_key c)) cs \<Longrightarrow>
   map_sum id view (fold_res (exec_cmd setv addv removek) cs m) = spec_exec check norm cs (view m)"
proof (induction cs arbitrary: m)
  case Nil
  then show ?case by simp
next
  case (Cons c cs)
  note step = exec_cmd_refines [of m c]
  show ?case
  proof (cases "exec_cmd setv addv removek c m")
    case (Inl e)
    with step Cons.prems have "spec_cmd check norm c (view m) = Inl e" by (metis id_apply list.pred_inject(2) map_sum.simps(1))
    with Inl show ?thesis by simp
  next
    case (Inr m')
    with step Cons.prems have "spec_cmd check norm c (view m) = Inr (view m')" "wf m'"
      by (metis list.pred_inject(2) map_sum.simps(2), metis list.pred_inject(2))
    with Inr Cons show ?thesis by simp
  qed
qed

lemma exec_wf:
  "wf m \<Longrightarrow> list_all (\<lambda>c. plain (cmd_key c)) cs \<Longrightarrow>
   fold_res (exec_cmd setv addv removek) cs m = Inr m' \<Longrightarrow> wf m'"
  by (erule fold_res_invariant [where I = wf])
    (auto simp: list_all_iff intro: exec_cmd_refines(2))

end

end
