(* ===== verification/Base64.thy ===== *)
theory Base64
  imports Prelude
begin

text \<open>
  The two uses the program makes of Node's base64: \<open>Buffer.prototype.toString('base64')\<close> (the standard
  alphabet, padded) and \<open>Buffer.from(s, 'base64')\<close> (which accepts the URL-safe characters as well
  and skips every character that is not of the alphabet, padding included).
\<close>

definition b64_alphabet :: string where
  "b64_alphabet = ''ABCDEFGHIJKLMNOPQRSTUVWXYZabcdefghijklmnopqrstuvwxyz0123456789+/''"

definition b64_char :: "nat \<Rightarrow> char" where
  "b64_char n = b64_alphabet ! n"

definition b64_val :: "char \<Rightarrow> nat option" where
  "b64_val c =
     (let n = of_char c in
      if 65 \<le> n \<and> n \<le> 90 then Some (n - 65)
      else if 97 \<le> n \<and> n \<le> 122 then Some (n - 71)
      else if 48 \<le> n \<and> n \<le> 57 then Some (n + 4)
      else if c = CHR ''+'' \<or> c = CHR ''-'' then Some 62
      else if c = CHR ''/'' \<or> c = CHR ''_'' then Some 63
      else None)"

fun b64_encode :: "bytes \<Rightarrow> string" where
  "b64_encode [] = []"
| "b64_encode [a] =
     [b64_char (unat a div 4), b64_char (unat a mod 4 * 16), CHR ''='', CHR ''='']"
| "b64_encode [a, b] =
     [b64_char (unat a div 4), b64_char (unat a mod 4 * 16 + unat b div 16),
      b64_char (unat b mod 16 * 4), CHR ''='']"
| "b64_encode (a # b # c # rest) =
     b64_char (unat a div 4) # b64_char (unat a mod 4 * 16 + unat b div 16) #
     b64_char (unat b mod 16 * 4 + unat c div 64) # b64_char (unat c mod 64) # b64_encode rest"

fun b64_groups :: "nat list \<Rightarrow> bytes" where
  "b64_groups (h # i # j # k # rest) =
     of_nat (h * 4 + i div 16) # of_nat (i mod 16 * 16 + j div 4) # of_nat (j mod 4 * 64 + k) #
     b64_groups rest"
| "b64_groups [h, i, j] = [of_nat (h * 4 + i div 16), of_nat (i mod 16 * 16 + j div 4)]"
| "b64_groups [h, i] = [of_nat (h * 4 + i div 16)]"
| "b64_groups _ = []"

definition b64_decode :: "string \<Rightarrow> bytes" where
  "b64_decode s = b64_groups (List.map_filter b64_val s)"

lemma b64_alphabet_vals: "map b64_val b64_alphabet = map Some [0..<64]"
  by (simp add: b64_alphabet_def b64_val_def upt_conv_Cons)

lemma length_b64_alphabet: "length b64_alphabet = 64"
  by (simp add: b64_alphabet_def)

lemma b64_val_char: "n < 64 \<Longrightarrow> b64_val (b64_char n) = Some n"
  using arg_cong [OF b64_alphabet_vals, of "\<lambda>xs. xs ! n"]
  by (simp add: b64_char_def length_b64_alphabet)

lemma b64_val_pad: "b64_val (CHR ''='') = None"
  by (simp add: b64_val_def)

lemma map_filter_b64 [simp]:
  "n < 64 \<Longrightarrow> List.map_filter b64_val (b64_char n # s) = n # List.map_filter b64_val s"
  "List.map_filter b64_val (CHR ''='' # s) = List.map_filter b64_val s"
  "List.map_filter b64_val [] = []"
  by (simp_all add: map_filter_simps b64_val_char b64_val_pad)

lemma unat_byte: "unat (a :: byte) < 256"
  by (rule order_less_le_trans [OF unsigned_less]) simp

lemma byte_sextets:
  fixes a b c :: byte
  shows "unat a div 4 < 64" "unat a mod 4 * 16 + unat b div 16 < 64"
    "unat b mod 16 * 4 + unat c div 64 < 64" "unat c mod 64 < 64"
    "unat a mod 4 * 16 < 64" "unat b mod 16 * 4 < 64"
  using unat_byte [of a] unat_byte [of b] unat_byte [of c] by auto

lemma byte_parts:
  fixes a b c :: byte
  shows "(unat a mod 4 * 16 + unat b div 16) div 16 = unat a mod 4"
    "(unat a mod 4 * 16 + unat b div 16) mod 16 = unat b div 16"
    "(unat b mod 16 * 4 + unat c div 64) div 4 = unat b mod 16"
    "(unat b mod 16 * 4 + unat c div 64) mod 4 = unat c div 64"
    "unat b div 16 mod 16 = unat b div 16" "unat c div 64 mod 4 = unat c div 64"
    "unat a div 4 * 4 + unat a mod 4 = unat a"
    "unat b div 16 * 16 + unat b mod 16 = unat b"
    "unat c div 64 * 64 + unat c mod 64 = unat c"
  using unat_byte [of b] unat_byte [of c] by auto

lemma b64_decode_encode: "b64_decode (b64_encode bs) = bs"
proof (induction bs rule: b64_encode.induct)
  case (4 a b c rest)
  then show ?case
    by (simp add: b64_decode_def byte_sextets byte_parts del: of_nat_add of_nat_mult map_filter_simps)
qed (simp_all add: b64_decode_def byte_sextets byte_parts del: of_nat_add of_nat_mult map_filter_simps)

lemma b64_alphabet_codes: "list_all (\<lambda>c. 43 \<le> (of_char c :: nat) \<and> (of_char c :: nat) \<le> 122) b64_alphabet"
  by (simp add: b64_alphabet_def)

lemma b64_char_code: "n < 64 \<Longrightarrow> 43 \<le> (of_char (b64_char n) :: nat) \<and> (of_char (b64_char n) :: nat) \<le> 122"
  using b64_alphabet_codes by (simp add: list_all_length length_b64_alphabet b64_char_def)

lemma b64_encode_printable:
  "c \<in> set (b64_encode bs) \<Longrightarrow> 43 \<le> (of_char c :: nat) \<and> (of_char c :: nat) \<le> 122"
  by (induction bs rule: b64_encode.induct) (auto simp: b64_char_code byte_sextets)

end
