(* ===== verification/CoreMetadata.thy ===== *)
theory CoreMetadata
  imports MetadataContract Base64
begin

text \<open>
  \<open>grpc-js-core/src/metadata.ts\<close>. A value is a string or a buffer by its static type. The optional
  value of \<open>validate\<close> is an \<open>option\<close>. A header value of the http2 module is a string, an array of
  strings, or a number (Node converts the header \<open>:status\<close> of a response).
\<close>

datatype hdr_value = HStr string | HList "string list" | HNum int

type_synonym headers = "hdr_value obj"

section \<open>Validation\<close>

text \<open>The regular expression \<open>^[0-9a-z_.-]+$\<close>.\<close>

definition legal_key_char :: "char \<Rightarrow> bool" where
  "legal_key_char c =
     (let n = (of_char c :: nat) in
      48 \<le> n \<and> n \<le> 57 \<or> 97 \<le> n \<and> n \<le> 122 \<or> n = 95 \<or> n = 46 \<or> n = 45)"

definition cm_isLegalKey :: "string \<Rightarrow> bool" where
  "cm_isLegalKey key \<longleftrightarrow> key \<noteq> [] \<and> list_all legal_key_char key"

text \<open>The regular expression \<open>^[ -~]+$\<close>.\<close>

definition cm_isLegalNonBinaryValue :: "string \<Rightarrow> bool" where
  "cm_isLegalNonBinaryValue v \<longleftrightarrow>
     v \<noteq> [] \<and> list_all (\<lambda>c. 32 \<le> (of_char c :: nat) \<and> (of_char c :: nat) \<le> 126) v"

definition cm_isBinaryKey :: "string \<Rightarrow> bool" where
  "cm_isBinaryKey key \<longleftrightarrow> ends_with key ''-bin''"

definition cm_normalizeKey :: "string \<Rightarrow> string" where
  "cm_normalizeKey key = to_lower key"

definition cm_validate :: "string \<Rightarrow> md_value option \<Rightarrow> js_exn + unit" where
  "cm_validate key value =
     (if \<not> cm_isLegalKey key then
        Inl (JsError (''Metadata key\"'' @ key @ ''\" contains illegal characters''))
      else (case value of
        None \<Rightarrow> Inr ()
      | Some v \<Rightarrow>
          if cm_isBinaryKey key then
            (case v of MBuffer _ \<Rightarrow> Inr ()
             | MString _ \<Rightarrow> Inl (JsError ''keys that end with '-bin' must have Buffer values''))
          else
            (case v of MBuffer _ \<Rightarrow>
               Inl (JsError ''keys that don't end with '-bin' must have String values'')
             | MString s \<Rightarrow>
               if \<not> cm_isLegalNonBinaryValue s then
                 Inl (JsError (''Metadata string value \"'' @ s @ ''\" contains illegal characters''))
               else Inr ())))"

section \<open>Operations\<close>

definition cm_cloneMetadataObject :: "metadata \<Rightarrow> metadata" where
  "cm_cloneMetadataObject repr =
     fold (\<lambda>e result. obj_put (fst e)
             (map (\<lambda>v. case v of MBuffer b \<Rightarrow> MBuffer b | MString s \<Rightarrow> MString s) (snd e)) result)
       (own_entries repr) []"

definition cm_set :: "string \<Rightarrow> md_value \<Rightarrow> metadata \<Rightarrow> js_exn + metadata" where
  "cm_set key value m =
     (let k = cm_normalizeKey key in
      and_then (cm_validate k (Some value)) (\<lambda>_. Inr (obj_put k [value] m)))"

text \<open>\<open>this.internalRepr[key]\<close> reads through the prototype: an inherited property is truthy and has
  neither \<open>push\<close> nor \<open>concat\<close>.\<close>

definition cm_add :: "string \<Rightarrow> md_value \<Rightarrow> metadata \<Rightarrow> js_exn + metadata" where
  "cm_add key value m =
     (let k = cm_normalizeKey key in
      and_then (cm_validate k (Some value)) (\<lambda>_.
        (case map_of m k of
           Some vs \<Rightarrow> Inr (obj_put k (vs @ [value]) m)
         | None \<Rightarrow>
             if inherited k then Inl (JsTypeError ''this.internalRepr[key].push is not a function'')
             else Inr (obj_put k [value] m))))"

definition cm_remove :: "string \<Rightarrow> metadata \<Rightarrow> js_exn + metadata" where
  "cm_remove key m =
     (let k = cm_normalizeKey key in
      and_then (cm_validate k None) (\<lambda>_. Inr (if has_own m k then obj_del k m else m)))"

definition cm_get :: "string \<Rightarrow> metadata \<Rightarrow> js_exn + md_value list" where
  "cm_get key m =
     (let k = cm_normalizeKey key in
      and_then (cm_validate k None) (\<lambda>_.
        Inr (case map_of m k of Some vs \<Rightarrow> vs | None \<Rightarrow> [])))"

definition cm_getMap :: "metadata \<Rightarrow> md_value obj" where
  "cm_getMap m =
     fold (\<lambda>(key, values) result. case values of v # _ \<Rightarrow> obj_put key v result | [] \<Rightarrow> result)
       (own_entries m) []"

definition cm_clone :: "metadata \<Rightarrow> metadata" where
  "cm_clone m = cm_cloneMetadataObject m"

definition cm_merge_entry :: "string \<times> md_value list \<Rightarrow> metadata \<Rightarrow> js_exn + metadata" where
  "cm_merge_entry e m =
     (case map_of m (fst e) of
        Some vs \<Rightarrow> Inr (obj_put (fst e) (vs @ snd e) m)
      | None \<Rightarrow>
          if inherited (fst e) then Inl (JsTypeError ''(this.internalRepr[key] || []).concat is not a function'')
          else Inr (obj_put (fst e) ([] @ snd e) m))"

definition cm_merge :: "metadata \<Rightarrow> metadata \<Rightarrow> js_exn + metadata" where
  "cm_merge m other = fold_res cm_merge_entry (own_entries other) m"

fun http2_value :: "md_value \<Rightarrow> string" where
  "http2_value (MBuffer b) = b64_encode b"
| "http2_value (MString s) = s"

definition cm_toHttp2Headers :: "metadata \<Rightarrow> headers" where
  "cm_toHttp2Headers m =
     fold (\<lambda>e result. obj_put (fst e) (HList (map http2_value (snd e))) result) (own_entries m) []"

fun from_http2_entry :: "string \<times> hdr_value \<Rightarrow> metadata \<Rightarrow> js_exn + metadata" where
  "from_http2_entry (key, values) result =
     (if cm_isBinaryKey key then
        (case values of
           HList vs \<Rightarrow> fold_res (\<lambda>v r. cm_add key (MBuffer (b64_decode v)) r) vs result
         | HStr v \<Rightarrow> cm_add key (MBuffer (b64_decode v)) result
         | HNum n \<Rightarrow> Inl (JsTypeError ''The \"value\" argument must not be of type number''))
      else
        (case values of
           HList vs \<Rightarrow> fold_res (\<lambda>v r. cm_add key (MString v) r) vs result
         | HStr v \<Rightarrow> cm_add key (MString v) result
         | HNum n \<Rightarrow>
             and_then (cm_validate (cm_normalizeKey key) None) (\<lambda>_. Inl (JsTypeError ''value.match is not a function''))))"

definition cm_fromHttp2Headers :: "headers \<Rightarrow> js_exn + metadata" where
  "cm_fromHttp2Headers h = fold_res from_http2_entry (own_entries h) []"

section \<open>The contract holds\<close>

definition cm_norm :: "string \<Rightarrow> js_exn + string" where
  "cm_norm key = and_then (cm_validate (cm_normalizeKey key) None) (\<lambda>_. Inr (cm_normalizeKey key))"

definition cm_check :: "string \<Rightarrow> md_value \<Rightarrow> js_exn + string" where
  "cm_check key v =
     and_then (cm_validate (cm_normalizeKey key) (Some v)) (\<lambda>_. Inr (cm_normalizeKey key))"

lemma cm_validate_key: "cm_validate k (Some v) = Inr u \<Longrightarrow> cm_validate k None = Inr ()"
  by (auto simp: cm_validate_def split: if_splits)

abbreviation core_plain_key :: "string \<Rightarrow> bool" where
  "core_plain_key key \<equiv> \<not> inherited (cm_normalizeKey key)"

interpretation cm: metadata_store cm_norm cm_check cm_set cm_add cm_remove cm_get
  md_values obj_wf core_plain_key
proof unfold_locales
  fix m :: metadata and key k v
  assume wf: "obj_wf m" and pl: "core_plain_key key" and ch: "cm_check key v = Inr k"
  from ch have k: "k = cm_normalizeKey key" and ok: "cm_validate k (Some v) = Inr ()"
    by (auto simp: cm_check_def and_then_eq_Inr)
  note facts = k [symmetric] ok wf pl [folded k] not_inherited_proto [OF pl [folded k]]
  show "\<exists>m'. cm_set key v m = Inr m' \<and> obj_wf m' \<and> md_values m' = (md_values m)(k := [v])"
    using facts by (auto simp: cm_set_def Let_def obj_simps)
  show "\<exists>m'. cm_add key v m = Inr m' \<and> obj_wf m' \<and> md_values m' = (md_values m)(k := md_values m k @ [v])"
    using facts by (auto simp: cm_add_def Let_def obj_simps md_values_def [of m k] split: option.split)
next
  fix m :: metadata and key v e
  assume "cm_check key v = Inl e"
  then have "cm_validate (cm_normalizeKey key) (Some v) = Inl e" by (auto simp: cm_check_def and_then_eq_Inl)
  then show "cm_set key v m = Inl e" "cm_add key v m = Inl e" by (simp_all add: cm_set_def cm_add_def Let_def)
next
  fix m :: metadata and key k
  assume wf: "obj_wf m" and n: "cm_norm key = Inr k"
  then have k: "k = cm_normalizeKey key" and ok: "cm_validate k None = Inr ()"
    by (auto simp: cm_norm_def and_then_eq_Inr)
  show "\<exists>m'. cm_remove key m = Inr m' \<and> obj_wf m' \<and> md_values m' = (md_values m)(k := [])"
    using wf ok k by (auto simp: cm_remove_def Let_def obj_simps has_own_def md_values_def fun_eq_iff)
  show "cm_get key m = Inr (md_values m k)"
    using ok k by (simp add: cm_get_def Let_def md_values_def)
next
  fix m :: metadata and key e
  assume "cm_norm key = Inl e"
  then have "cm_validate (cm_normalizeKey key) None = Inl e" by (auto simp: cm_norm_def and_then_eq_Inl)
  then show "cm_remove key m = Inl e" "cm_get key m = Inl e" by (simp_all add: cm_remove_def cm_get_def Let_def)
next
  fix key v k
  assume "cm_check key v = Inr k"
  then show "cm_norm key = Inr k"
    by (auto simp: cm_check_def cm_norm_def and_then_eq_Inr dest: cm_validate_key)
qed


section \<open>Validity\<close>

text \<open>A metadata object as the public interface builds it: every key is in the form the validation
  leaves it in, and every value was validated under its key.\<close>

definition md_valid :: "metadata \<Rightarrow> bool" where
  "md_valid m \<longleftrightarrow> obj_wf m \<and>
     (\<forall>(k, vs) \<in> set m. cm_isLegalKey k \<and> (\<forall>v \<in> set vs. cm_validate k (Some v) = Inr ()))"

lemma legal_key_char_lower: "legal_key_char c \<Longrightarrow> lower_char c = c"
  by (auto simp: legal_key_char_def lower_char_def Let_def)

lemma legal_key_lower [simp]: "cm_isLegalKey k \<Longrightarrow> cm_normalizeKey k = k"
  by (auto simp: cm_isLegalKey_def cm_normalizeKey_def to_lower_def legal_key_char_lower list_all_iff
      intro!: map_idI)

lemma md_valid_Nil [simp]: "md_valid []"
  by (simp add: md_valid_def)

lemma md_valid_wf: "md_valid m \<Longrightarrow> obj_wf m"
  by (simp add: md_valid_def)

lemma set_update_subset: "set (AList.update k v al) \<subseteq> insert (k, v) (set al)"
  by (induction al) auto

lemma md_valid_put:
  assumes "md_valid m" and "cm_isLegalKey k" and "\<forall>v \<in> set vs. cm_validate k (Some v) = Inr ()"
  shows "md_valid (obj_put k vs m)"
proof -
  have "e \<in> insert (k, vs) (set m)" if "e \<in> set (obj_put k vs m)" for e
    using that set_update_subset [of k vs m] by (auto simp: obj_put_def split: if_splits)
  with assms show ?thesis unfolding md_valid_def by blast
qed

lemma md_valid_del: "md_valid m \<Longrightarrow> md_valid (obj_del k m)"
  using obj_del_wf [of m k] by (auto simp: md_valid_def obj_del_def AList.delete_eq)

lemma cm_validate_legal: "cm_validate k v = Inr u \<Longrightarrow> cm_isLegalKey k"
  by (auto simp: cm_validate_def split: if_splits)

lemma md_valid_lookup:
  "md_valid m \<Longrightarrow> map_of m k = Some vs \<Longrightarrow> cm_isLegalKey k \<and> (\<forall>v \<in> set vs. cm_validate k (Some v) = Inr ())"
  by (fastforce simp: md_valid_def dest: map_of_SomeD)

lemma cm_set_valid: "md_valid m \<Longrightarrow> cm_set key v m = Inr m' \<Longrightarrow> md_valid m'"
  by (auto simp: cm_set_def Let_def and_then_eq_Inr dest: cm_validate_legal intro!: md_valid_put)

lemma cm_add_valid: "md_valid m \<Longrightarrow> cm_add key v m = Inr m' \<Longrightarrow> md_valid m'"
  by (fastforce simp: cm_add_def Let_def and_then_eq_Inr split: option.splits if_splits
      dest: cm_validate_legal md_valid_lookup intro!: md_valid_put)

lemma cm_remove_valid: "md_valid m \<Longrightarrow> cm_remove key m = Inr m' \<Longrightarrow> md_valid m'"
  by (auto simp: cm_remove_def Let_def and_then_eq_Inr intro: md_valid_del)

lemma cm_exec_valid:
  "md_valid m \<Longrightarrow> fold_res (exec_cmd cm_set cm_add cm_remove) cs m = Inr m' \<Longrightarrow> md_valid m'"
proof (erule fold_res_invariant [where I = md_valid])
  fix c m m'
  assume "md_valid m" and "exec_cmd cm_set cm_add cm_remove c m = Inr m'"
  then show "md_valid m'" by (cases c) (auto intro: cm_set_valid cm_add_valid cm_remove_valid)
qed

section \<open>Merging and copying\<close>

lemma cm_merge_entry_ok:
  assumes "obj_wf m" and "has_own m (fst e) \<or> \<not> inherited (fst e)"
  shows "\<exists>m'. cm_merge_entry e m = Inr m' \<and> obj_wf m' \<and>
    md_values m' = (md_values m)(fst e := md_values m (fst e) @ snd e) \<and>
    (\<forall>j. has_own m' j \<longleftrightarrow> j = fst e \<or> has_own m j)"
proof -
  have "fst e \<noteq> ''__proto__''" using assms obj_wf_proto [of m] by (auto simp: inherited_def)
  then show ?thesis
    using assms
    by (auto simp: cm_merge_entry_def obj_simps has_own_def md_values_def [of m "fst e"] split: option.splits)
qed

lemma cm_merge_fold:
  assumes "distinct (map fst es)" and "obj_wf m"
    and "\<forall>e \<in> set es. has_own m (fst e) \<or> \<not> inherited (fst e)"
  shows "\<exists>m'. fold_res cm_merge_entry es m = Inr m' \<and> obj_wf m' \<and>
    (\<forall>k. md_values m' k = md_values m k @ md_values es k)"
  using assms
proof (induction es arbitrary: m)
  case Nil
  then show ?case by simp
next
  case (Cons e es)
  from Cons.prems obtain m1 where m1: "cm_merge_entry e m = Inr m1" "obj_wf m1"
      "md_values m1 = (md_values m)(fst e := md_values m (fst e) @ snd e)"
      "\<forall>j. has_own m1 j \<longleftrightarrow> j = fst e \<or> has_own m j"
    using cm_merge_entry_ok [of m e] by auto
  have "distinct (map fst es)" and "\<forall>e \<in> set es. has_own m1 (fst e) \<or> \<not> inherited (fst e)"
    using Cons.prems m1(4) by auto
  from Cons.IH [OF this(1) m1(2) this(2)] obtain m' where m': "fold_res cm_merge_entry es m1 = Inr m'"
      "obj_wf m'" "\<forall>k. md_values m' k = md_values m1 k @ md_values es k"
    by blast
  have "map_of es (fst e) = None" using Cons.prems(1) by (simp add: map_of_eq_None_iff)
  with m1 m' show ?case by (cases e) (auto simp: md_values_def)
qed

lemma cm_merge_ok:
  assumes "obj_wf m" and "obj_wf other" and "\<forall>k. has_own other k \<longrightarrow> has_own m k \<or> \<not> inherited k"
  shows "\<exists>m'. cm_merge m other = Inr m' \<and> obj_wf m' \<and>
    (\<forall>k. md_values m' k = md_values m k @ md_values other k)"
proof -
  have "has_own other (fst e)" if "e \<in> set other" for e
    using that by (auto simp: has_own_def map_of_eq_None_iff)
  then show ?thesis
    using cm_merge_fold [of "own_entries other" m] assms distinct_own_entries [of other]
    by (auto simp: cm_merge_def md_values_def obj_simps obj_wf_def)
qed

lemma clone_value_id: "map (\<lambda>v. case v of MBuffer b \<Rightarrow> MBuffer b | MString s \<Rightarrow> MString s) vs = vs"
  by (rule map_idI) (auto split: md_value.split)

lemma cm_clone_map_of: "obj_wf m \<Longrightarrow> map_of (cm_clone m) = map_of m"
  using fold_put_map_of [where f = "\<lambda>v. v" and acc = "[]" and es = "own_entries m"] obj_wf_own_entries [of m]
  by (auto simp: cm_clone_def cm_cloneMetadataObject_def clone_value_id fun_eq_iff obj_simps obj_wf_def
      split: option.split)

section \<open>The http2 representation\<close>

lemma cm_add_values:
  assumes "obj_wf r" and "cm_isLegalKey k" and "\<not> inherited k" and "\<forall>v \<in> set vs. cm_validate k (Some v) = Inr ()"
  shows "\<exists>r'. fold_res (cm_add k) vs r = Inr r' \<and> obj_wf r' \<and> md_values r' = (md_values r)(k := md_values r k @ vs)"
  using assms(1,4)
proof (induction vs arbitrary: r)
  case Nil
  then show ?case by simp
next
  case (Cons v vs)
  with assms(2,3) have "cm_check k v = Inr k" by (simp add: cm_check_def)
  with Cons.prems assms(2,3) obtain r1 where "cm_add k v r = Inr r1" "obj_wf r1"
      "md_values r1 = (md_values r)(k := md_values r k @ [v])"
    using cm.add_ok [of r k v k] by auto
  with Cons.IH [of r1] Cons.prems show ?case by (auto simp: fun_eq_iff)
qed

lemma from_http2_values:
  assumes "\<forall>v \<in> set vs. cm_validate k (Some v) = Inr ()"
  shows "from_http2_entry (k, HList (map http2_value vs)) r = fold_res (cm_add k) vs r"
proof (cases "cm_isBinaryKey k")
  case True
  with assms have "\<forall>v \<in> set vs. \<exists>b. v = MBuffer b"
    by (fastforce simp: cm_validate_def split: if_splits md_value.splits)
  then have "fold_res (\<lambda>s r. cm_add k (MBuffer (b64_decode s)) r) (map http2_value vs) r = fold_res (cm_add k) vs r"
    by (induction vs arbitrary: r) (auto simp: b64_decode_encode intro!: and_then_cong)
  with True show ?thesis by simp
next
  case False
  with assms have "\<forall>v \<in> set vs. \<exists>s. v = MString s"
    by (fastforce simp: cm_validate_def split: if_splits md_value.splits)
  then have "fold_res (\<lambda>s r. cm_add k (MString s) r) (map http2_value vs) r = fold_res (cm_add k) vs r"
    by (induction vs arbitrary: r) (auto intro!: and_then_cong)
  with False show ?thesis by simp
qed

lemma from_http2_fold:
  assumes "distinct (map fst es)" and "obj_wf r"
    and "\<forall>e \<in> set es. snd e = HList (map http2_value (F (fst e))) \<and> cm_isLegalKey (fst e) \<and>
           \<not> inherited (fst e) \<and> (\<forall>v \<in> set (F (fst e)). cm_validate (fst e) (Some v) = Inr ())"
  shows "\<exists>r'. fold_res from_http2_entry es r = Inr r' \<and> obj_wf r' \<and>
    (\<forall>k. md_values r' k = md_values r k @ (if k \<in> fst ` set es then F k else []))"
  using assms
proof (induction es arbitrary: r)
  case Nil
  then show ?case by simp
next
  case (Cons e es)
  obtain k h where e: "e = (k, h)" by force
  with Cons.prems have "from_http2_entry e r = fold_res (cm_add k) (F k) r"
    by (simp add: from_http2_values del: from_http2_entry.simps)
  with Cons.prems e obtain r1 where r1: "from_http2_entry e r = Inr r1" "obj_wf r1"
      "md_values r1 = (md_values r)(k := md_values r k @ F k)"
    using cm_add_values [of r k "F k"] by auto
  have "distinct (map fst es)" and "\<forall>e \<in> set es. snd e = HList (map http2_value (F (fst e))) \<and>
      cm_isLegalKey (fst e) \<and> \<not> inherited (fst e) \<and> (\<forall>v \<in> set (F (fst e)). cm_validate (fst e) (Some v) = Inr ())"
    using Cons.prems(1,3) by auto
  from Cons.IH [OF this(1) r1(2) this(2)] obtain r' where r': "fold_res from_http2_entry es r1 = Inr r'"
      "obj_wf r'" "\<forall>k. md_values r' k = md_values r1 k @ (if k \<in> fst ` set es then F k else [])"
    by blast
  with r1 e Cons.prems(1) show ?case by (auto simp del: from_http2_entry.simps)
qed

lemma toHttp2_map_of:
  "obj_wf m \<Longrightarrow> map_of (cm_toHttp2Headers m) k = map_option (\<lambda>vs. HList (map http2_value vs)) (map_of m k)"
  using fold_put_map_of [where f = "\<lambda>vs. HList (map http2_value vs)" and acc = "[]" and es = "own_entries m"]
    obj_wf_own_entries [of m]
  by (simp add: cm_toHttp2Headers_def obj_simps obj_wf_def split: option.split)

lemma toHttp2_wf: "obj_wf (cm_toHttp2Headers m)"
  using fold_put_wf [where f = "\<lambda>vs. HList (map http2_value vs)" and acc = "[]"]
  by (simp add: cm_toHttp2Headers_def)

lemma http2_roundtrip_values:
  assumes "md_valid m" and "\<forall>k. has_own m k \<longrightarrow> \<not> inherited k"
  shows "\<exists>m'. cm_fromHttp2Headers (cm_toHttp2Headers m) = Inr m' \<and> md_values m' = md_values m"
proof -
  let ?h = "cm_toHttp2Headers m" and ?es = "own_entries (cm_toHttp2Headers m)"
  have entry: "\<exists>vs. map_of m (fst e) = Some vs \<and> snd e = HList (map http2_value vs)" if "e \<in> set ?es" for e
  proof -
    have "map_of ?h (fst e) = Some (snd e)"
      using that toHttp2_wf [of m] by (metis map_of_is_SomeI obj_wf_def prod.collapse set_own_entries)
    then show ?thesis using assms(1) by (auto simp: toHttp2_map_of md_valid_wf)
  qed
  have "\<exists>r'. fold_res from_http2_entry ?es [] = Inr r' \<and> obj_wf r' \<and>
      (\<forall>k. md_values r' k = md_values [] k @ (if k \<in> fst ` set ?es then md_values m k else []))"
  proof (rule from_http2_fold)
    show "distinct (map fst ?es)" using toHttp2_wf [of m] by (simp add: distinct_own_entries obj_wf_def)
    show "\<forall>e \<in> set ?es. snd e = HList (map http2_value (md_values m (fst e))) \<and> cm_isLegalKey (fst e) \<and>
        \<not> inherited (fst e) \<and> (\<forall>v \<in> set (md_values m (fst e)). cm_validate (fst e) (Some v) = Inr ())"
      using entry md_valid_lookup [OF assms(1)] assms(2) by (fastforce simp: md_values_def has_own_def)
  qed simp
  moreover have "k \<notin> fst ` set ?es \<Longrightarrow> md_values m k = []" for k
    using toHttp2_map_of [OF md_valid_wf [OF assms(1)], of k]
    by (auto simp: md_values_def map_of_eq_None_iff [symmetric] split: option.splits)
  ultimately show ?thesis by (force simp: cm_fromHttp2Headers_def fun_eq_iff)
qed

end
