(* ===== verification/Promises.thy ===== *)
theory Promises
  imports Prelude
begin

text \<open>The outcome of a promise: never settled, rejected or fulfilled.\<close>

datatype 'a promise = Pending | Settled "js_exn + 'a"

abbreviation Fulfilled :: "'a \<Rightarrow> 'a promise" where
  "Fulfilled a \<equiv> Settled (Inr a)"

abbreviation Rejected :: "js_exn \<Rightarrow> 'a promise" where
  "Rejected e \<equiv> Settled (Inl e)"

text \<open>\<open>await\<close>: the continuation runs on the fulfilled value; a rejection propagates.\<close>

fun await :: "'a promise \<Rightarrow> ('a \<Rightarrow> 'b promise) \<Rightarrow> 'b promise" where
  "await Pending f = Pending"
| "await (Settled (Inl e)) f = Settled (Inl e)"
| "await (Settled (Inr a)) f = f a"

lemma await_assoc: "await (await p f) g = await p (\<lambda>a. await (f a) g)"
proof (cases p)
  case (Settled r)
  then show ?thesis by (cases r) auto
qed simp

lemma await_Fulfilled [simp]: "await p (\<lambda>a. Settled (Inr a)) = p"
proof (cases p)
  case (Settled r)
  then show ?thesis by (cases r) auto
qed simp

text \<open>\<open>Promise.all\<close>: every value in the order of the list, or a rejection of one of them (the first of
  the list that rejects; which one wins the race is not modelled), or pending.\<close>

fun promise_all :: "'a promise list \<Rightarrow> 'a list promise" where
  "promise_all [] = Fulfilled []"
| "promise_all (p # ps) =
     (case p of
        Settled (Inl e) \<Rightarrow> Rejected e
      | Settled (Inr a) \<Rightarrow> await (promise_all ps) (\<lambda>as. Fulfilled (a # as))
      | Pending \<Rightarrow> (case promise_all ps of Settled (Inl e) \<Rightarrow> Rejected e | _ \<Rightarrow> Pending))"

lemma promise_all_fulfilled: "promise_all (map Fulfilled as) = Fulfilled as"
  by (induction as) auto

end
