(* ===== verification/Status.thy ===== *)
theory Status
  imports Prelude
begin

text \<open>
  The constants of the two packages: the enumeration \<open>Status\<close> of \<open>grpc-js-core/src/constants.ts\<close> as a
  datatype, and the tables of numbers of \<open>grpc-native-core/src/constants.js\<close>.
\<close>

datatype status =
    OK | CANCELLED | UNKNOWN | INVALID_ARGUMENT | DEADLINE_EXCEEDED | NOT_FOUND | ALREADY_EXISTS
  | PERMISSION_DENIED | RESOURCE_EXHAUSTED | FAILED_PRECONDITION | ABORTED | OUT_OF_RANGE
  | UNIMPLEMENTED | INTERNAL | UNAVAILABLE | DATA_LOSS | UNAUTHENTICATED

text \<open>A TypeScript enumeration numbers its members from the first one up.\<close>

definition all_status :: "status list" where
  "all_status =
     [OK, CANCELLED, UNKNOWN, INVALID_ARGUMENT, DEADLINE_EXCEEDED, NOT_FOUND, ALREADY_EXISTS,
      PERMISSION_DENIED, RESOURCE_EXHAUSTED, FAILED_PRECONDITION, ABORTED, OUT_OF_RANGE,
      UNIMPLEMENTED, INTERNAL, UNAVAILABLE, DATA_LOSS, UNAUTHENTICATED]"

fun status_num :: "status \<Rightarrow> nat" where
  "status_num OK = 0"
| "status_num CANCELLED = 1"
| "status_num UNKNOWN = 2"
| "status_num INVALID_ARGUMENT = 3"
| "status_num DEADLINE_EXCEEDED = 4"
| "status_num NOT_FOUND = 5"
| "status_num ALREADY_EXISTS = 6"
| "status_num PERMISSION_DENIED = 7"
| "status_num RESOURCE_EXHAUSTED = 8"
| "status_num FAILED_PRECONDITION = 9"
| "status_num ABORTED = 10"
| "status_num OUT_OF_RANGE = 11"
| "status_num UNIMPLEMENTED = 12"
| "status_num INTERNAL = 13"
| "status_num UNAVAILABLE = 14"
| "status_num DATA_LOSS = 15"
| "status_num UNAUTHENTICATED = 16"

text \<open>\<open>code in Status\<close>, with the member it names.\<close>

definition status_of_num :: "int \<Rightarrow> status option" where
  "status_of_num n = (if 0 \<le> n \<and> n \<le> 16 then Some (all_status ! nat n) else None)"

lemma status_num_bound: "status_num s \<le> 16"
  by (cases s) auto

lemma all_status_num: "all_status ! status_num s = s"
  by (cases s) (auto simp: all_status_def numeral_eq_Suc)

lemma status_of_num_num [simp]: "status_of_num (int (status_num s)) = Some s"
  by (simp add: status_of_num_def all_status_num status_num_bound)

lemma status_num_inject [simp]: "status_num s = status_num t \<longleftrightarrow> s = t"
  by (metis all_status_num)

lemma status_of_num_0: "status_of_num n = Some OK \<longleftrightarrow> n = 0"
proof
  assume a: "status_of_num n = Some OK"
  then have "0 \<le> n" "n \<le> 16" "all_status ! nat n = OK" by (auto simp: status_of_num_def split: if_splits)
  moreover from this have "nat n \<in> {0..16}" by auto
  moreover have "list_all (\<lambda>k. all_status ! k = OK \<longrightarrow> k = 0) [0..<17]" by (simp add: all_status_def upt_conv_Cons)
  ultimately show "n = 0" by (auto simp: list_all_iff)
qed (simp add: status_of_num_def all_status_def)

instantiation status :: linorder
begin

definition less_eq_status :: "status \<Rightarrow> status \<Rightarrow> bool" where
  "less_eq_status s t \<longleftrightarrow> status_num s \<le> status_num t"

definition less_status :: "status \<Rightarrow> status \<Rightarrow> bool" where
  "less_status s t \<longleftrightarrow> status_num s < status_num t"

instance
  by standard (auto simp: less_eq_status_def less_status_def)

end

section \<open>The tables of the native package\<close>

definition native_status :: "(string \<times> int) list" where
  "native_status =
     [(''OK'', 0), (''CANCELLED'', 1), (''UNKNOWN'', 2), (''INVALID_ARGUMENT'', 3),
      (''DEADLINE_EXCEEDED'', 4), (''NOT_FOUND'', 5), (''ALREADY_EXISTS'', 6),
      (''PERMISSION_DENIED'', 7), (''RESOURCE_EXHAUSTED'', 8), (''FAILED_PRECONDITION'', 9),
      (''ABORTED'', 10), (''OUT_OF_RANGE'', 11), (''UNIMPLEMENTED'', 12), (''INTERNAL'', 13),
      (''UNAVAILABLE'', 14), (''DATA_LOSS'', 15), (''UNAUTHENTICATED'', 16)]"

definition native_propagate :: "(string \<times> nat) list" where
  "native_propagate =
     [(''DEADLINE'', 1), (''CENSUS_STATS_CONTEXT'', 2), (''CENSUS_TRACING_CONTEXT'', 4),
      (''CANCELLATION'', 8), (''DEFAULTS'', 65535)]"

definition native_callError :: "(string \<times> nat) list" where
  "native_callError =
     [(''OK'', 0), (''ERROR'', 1), (''NOT_ON_SERVER'', 2), (''NOT_ON_CLIENT'', 3),
      (''ALREADY_INVOKED'', 5), (''NOT_INVOKED'', 6), (''ALREADY_FINISHED'', 7),
      (''TOO_MANY_OPERATIONS'', 8), (''INVALID_FLAGS'', 9), (''INVALID_METADATA'', 10),
      (''INVALID_MESSAGE'', 11), (''NOT_SERVER_COMPLETION_QUEUE'', 12), (''BATCH_TOO_BIG'', 13),
      (''PAYLOAD_TYPE_MISMATCH'', 14)]"

definition native_writeFlags :: "(string \<times> nat) list" where
  "native_writeFlags = [(''BUFFER_HINT'', 1), (''NO_COMPRESS'', 2)]"

definition native_logVerbosity :: "(string \<times> int) list" where
  "native_logVerbosity = [(''DEBUG'', 0), (''INFO'', 1), (''ERROR'', 2)]"

abbreviation status_code :: "status \<Rightarrow> int" where
  "status_code s \<equiv> int (status_num s)"

lemma native_status_codes: "map snd native_status = map status_code all_status"
  by (simp add: native_status_def all_status_def)

end
