(* ===== verification/Credentials.thy ===== *)
theory Credentials
  imports CoreMetadata Promises Status
begin

text \<open>
  \<open>grpc-js-core/src/call-credentials.ts\<close> and \<open>channel-credentials.ts\<close>. A metadata generator is known by
  what it hands to its callback: \<open>gen_result\<close>, or nothing if it never calls it; the options object
  is the parameter \<open>'o\<close>. A secure context, built by Node's \<open>tls\<close> module from the certificates, is
  represented by the arguments it is created from.
\<close>

section \<open>Call credentials\<close>

text \<open>The arguments \<open>(err, metadata)\<close> of the generator's callback; an undefined metadata is \<open>None\<close>.\<close>

type_synonym 'o generator = "'o \<Rightarrow> (js_exn option \<times> metadata option) option"

datatype 'o call_credentials =
    SingleCallCredentials "'o generator"
  | ComposedCallCredentials "'o call_credentials list"
  | EmptyCallCredentials

definition single_generate :: "'o generator \<Rightarrow> 'o \<Rightarrow> metadata promise" where
  "single_generate gen options =
     (case gen options of
        None \<Rightarrow> Pending
      | Some (err, md) \<Rightarrow>
          (case md of
             Some m \<Rightarrow> Fulfilled m
           | None \<Rightarrow> Rejected (case err of Some e \<Rightarrow> e | None \<Rightarrow> JsError ''null'')))"

definition merge_all :: "metadata list \<Rightarrow> js_exn + metadata" where
  "merge_all generated = fold_res (\<lambda>gen base. cm_merge base gen) generated []"

primrec generateMetadata :: "'o call_credentials \<Rightarrow> 'o \<Rightarrow> metadata promise" where
  "generateMetadata (SingleCallCredentials gen) options = single_generate gen options"
| "generateMetadata (ComposedCallCredentials creds) options =
     await (promise_all (map (\<lambda>cred. generateMetadata cred options) creds))
       (\<lambda>generated. Settled (merge_all generated))"
| "generateMetadata EmptyCallCredentials options = Fulfilled []"

fun compose_call :: "'o call_credentials \<Rightarrow> 'o call_credentials \<Rightarrow> 'o call_credentials" where
  "compose_call (SingleCallCredentials gen) other =
     ComposedCallCredentials [SingleCallCredentials gen, other]"
| "compose_call (ComposedCallCredentials creds) other = ComposedCallCredentials (creds @ [other])"
| "compose_call EmptyCallCredentials other = other"

definition createFromMetadataGenerator :: "'o generator \<Rightarrow> 'o call_credentials" where
  "createFromMetadataGenerator gen = SingleCallCredentials gen"

definition createEmpty :: "'o call_credentials" where
  "createEmpty = EmptyCallCredentials"

text \<open>The contract of call credentials: the metadata they stand for, as the values of each key.\<close>

definition generates :: "'o call_credentials \<Rightarrow> 'o \<Rightarrow> (string \<Rightarrow> md_value list) \<Rightarrow> bool" where
  "generates c options f \<longleftrightarrow>
     (\<exists>m. generateMetadata c options = Fulfilled m \<and> obj_wf m \<and>
        (\<forall>k. has_own m k \<longrightarrow> \<not> inherited k) \<and> md_values m = f)"

definition plain_md :: "metadata \<Rightarrow> bool" where
  "plain_md m \<longleftrightarrow> obj_wf m \<and> (\<forall>k. has_own m k \<longrightarrow> \<not> inherited k)"

lemma cm_merge_plain:
  assumes "plain_md m" and "plain_md other"
  shows "\<exists>m'. cm_merge m other = Inr m' \<and> plain_md m' \<and> (\<forall>k. md_values m' k = md_values m k @ md_values other k)"
proof -
  have own: "has_own m' k \<Longrightarrow> has_own m k \<or> has_own other k" if "cm_merge m other = Inr m'" for m' k
  proof -
    have "fold_res cm_merge_entry es m0 = Inr m' \<Longrightarrow> has_own m' k \<Longrightarrow> has_own m0 k \<or> k \<in> fst ` set es" for es m0
    proof (induction es arbitrary: m0)
      case (Cons e es)
      then obtain m1 where "cm_merge_entry e m0 = Inr m1" "fold_res cm_merge_entry es m1 = Inr m'"
        by (auto simp: and_then_eq_Inr)
      with Cons have "has_own m1 k \<or> k \<in> fst ` set es" by blast
      with \<open>cm_merge_entry e m0 = Inr m1\<close> show ?case
        by (cases "k = fst e") (auto simp: cm_merge_entry_def has_own_def obj_simps split: option.splits if_splits)
    qed simp
    from this [of "own_entries other" m] that show "has_own m' k \<Longrightarrow> has_own m k \<or> has_own other k"
      by (auto simp: cm_merge_def has_own_def map_of_eq_None_iff)
  qed
  have "\<exists>m'. cm_merge m other = Inr m' \<and> obj_wf m' \<and> (\<forall>k. md_values m' k = md_values m k @ md_values other k)"
    using assms by (intro cm_merge_ok) (auto simp: plain_md_def)
  with own show ?thesis using assms unfolding plain_md_def by blast
qed

lemma generates_iff:
  "generates c options f \<longleftrightarrow> (\<exists>m. generateMetadata c options = Fulfilled m \<and> plain_md m \<and> md_values m = f)"
  by (auto simp: generates_def plain_md_def)

lemma merge_all_snoc: "merge_all (ms @ [m]) = and_then (merge_all ms) (\<lambda>base. cm_merge base m)"
  by (simp add: merge_all_def fold_res_append)

lemma promise_all_snoc_Fulfilled:
  "promise_all (ps @ [p]) = Fulfilled as \<longleftrightarrow>
   (\<exists>bs b. promise_all ps = Fulfilled bs \<and> p = Fulfilled b \<and> as = bs @ [b])"
proof (induction ps arbitrary: as)
  case Nil
  then show ?case by (auto split: promise.split sum.split)
next
  case (Cons q ps)
  show ?case
  proof (cases q)
    case Pending
    then show ?thesis by (auto split: promise.splits sum.splits)
  next
    case (Settled r)
    show ?thesis
    proof (cases r)
      case (Inl e)
      with Settled show ?thesis by simp
    next
      case (Inr a)
      have "await P (\<lambda>as. Fulfilled (a # as)) = Fulfilled xs \<longleftrightarrow> (\<exists>as. P = Fulfilled as \<and> xs = a # as)"
        for P :: "'a list promise" and xs
        by (cases P; (simp; fail)?) (auto split: sum.splits elim: await.elims)
      with Settled Inr Cons.IH show ?thesis by auto
    qed
  qed
qed


lemma generates_composed_snoc:
  assumes "generates (ComposedCallCredentials creds) options f" and "generates other options g"
  shows "generates (ComposedCallCredentials (creds @ [other])) options (\<lambda>k. f k @ g k)"
proof -
  let ?ps = "map (\<lambda>cred. generateMetadata cred options) creds"
  from assms(1) obtain m where m: "generateMetadata (ComposedCallCredentials creds) options = Fulfilled m"
      "plain_md m" "md_values m = f" by (auto simp: generates_iff)
  from assms(2) obtain n where n: "generateMetadata other options = Fulfilled n" "plain_md n" "md_values n = g"
    by (auto simp: generates_iff)
  from m(1) obtain ms where ms: "promise_all ?ps = Fulfilled ms" "merge_all ms = Inr m"
    by (cases "promise_all ?ps"; (simp; fail)?) (auto elim: await.elims)
  have "promise_all (?ps @ [generateMetadata other options]) = Fulfilled (ms @ [n])"
    using ms n by (simp add: promise_all_snoc_Fulfilled)
  with ms n m cm_merge_plain [of m n] show ?thesis
    by (auto simp: generates_iff merge_all_snoc)
qed

lemma cm_merge_empty: "plain_md n \<Longrightarrow> \<exists>m. cm_merge [] n = Inr m \<and> plain_md m \<and> md_values m = md_values n"
  using cm_merge_plain [of "[]" n] by (auto simp: plain_md_def has_own_def fun_eq_iff)

lemma generates_composed_single:
  assumes "generates c options f"
  shows "generates (ComposedCallCredentials [c]) options f"
proof -
  from assms obtain n where "generateMetadata c options = Fulfilled n" "plain_md n" "md_values n = f"
    by (auto simp: generates_iff)
  with cm_merge_empty [of n] show ?thesis by (auto simp: generates_iff merge_all_def)
qed

lemma generates_empty: "generates EmptyCallCredentials options (\<lambda>_. [])"
  by (auto simp: generates_iff plain_md_def has_own_def fun_eq_iff)

lemma generates_compose:
  assumes f: "generates c options f" and g: "generates other options g"
  shows "generates (compose_call c other) options (\<lambda>k. f k @ g k)"
proof (cases c)
  case (SingleCallCredentials gen)
  with generates_composed_snoc [OF generates_composed_single [OF f] g] show ?thesis by simp
next
  case (ComposedCallCredentials creds)
  with generates_composed_snoc [of creds options f other g] f g show ?thesis by simp
next
  case EmptyCallCredentials
  with f have "f = (\<lambda>_. [])" by (auto simp: generates_def)
  with EmptyCallCredentials g show ?thesis by simp
qed

section \<open>Channel credentials\<close>

record secure_context =
  ctx_ca :: "bytes option"
  ctx_key :: "bytes option"
  ctx_cert :: "bytes option"

datatype 'o channel_credentials =
    InsecureChannelCredentials "'o call_credentials"
  | SecureChannelCredentials secure_context "'o call_credentials"

definition default_call_credentials :: "'o call_credentials option \<Rightarrow> 'o call_credentials" where
  "default_call_credentials c = (case c of Some c' \<Rightarrow> c' | None \<Rightarrow> createEmpty)"

fun getCallCredentials :: "'o channel_credentials \<Rightarrow> 'o call_credentials" where
  "getCallCredentials (InsecureChannelCredentials c) = c"
| "getCallCredentials (SecureChannelCredentials ctx c) = c"

fun getSecureContext :: "'o channel_credentials \<Rightarrow> secure_context option" where
  "getSecureContext (InsecureChannelCredentials c) = None"
| "getSecureContext (SecureChannelCredentials ctx c) = Some ctx"

fun compose_channel :: "'o channel_credentials \<Rightarrow> 'o call_credentials \<Rightarrow> js_exn + 'o channel_credentials" where
  "compose_channel (InsecureChannelCredentials c) cc = Inl (JsError ''Cannot compose insecure credentials'')"
| "compose_channel (SecureChannelCredentials ctx c) cc = Inr (SecureChannelCredentials ctx (compose_call c cc))"

definition createSsl ::
  "bytes option \<Rightarrow> bytes option \<Rightarrow> bytes option \<Rightarrow> js_exn + 'o channel_credentials" where
  "createSsl rootCerts privateKey certChain =
     (if privateKey \<noteq> None \<and> certChain = None then
        Inl (JsError ''Private key must be given with accompanying certificate chain'')
      else if privateKey = None \<and> certChain \<noteq> None then
        Inl (JsError ''Certificate chain must be given with accompanying private key'')
      else Inr (SecureChannelCredentials \<lparr>ctx_ca = rootCerts, ctx_key = privateKey, ctx_cert = certChain\<rparr>
                  (default_call_credentials None)))"

definition createInsecure :: "'o channel_credentials" where
  "createInsecure = InsecureChannelCredentials (default_call_credentials None)"

text \<open>Composing a list of call credentials onto a channel's, one after the other.\<close>

lemma compose_channel_all:
  assumes "getSecureContext chan = Some ctx" and "generates (getCallCredentials chan) options f"
    and "list_all2 (\<lambda>c g. generates c options g) cs gs"
  shows "\<exists>chan'. fold_res (\<lambda>c ch. compose_channel ch c) cs chan = Inr chan' \<and>
    getSecureContext chan' = Some ctx \<and>
    generates (getCallCredentials chan') options (\<lambda>k. f k @ concat (map (\<lambda>g. g k) gs))"
  using assms(3,1,2)
proof (induction arbitrary: chan f rule: list_all2_induct)
  case Nil
  then show ?case by simp
next
  case (Cons c cs g gs)
  then obtain cc where chan: "chan = SecureChannelCredentials ctx cc" by (cases chan) auto
  let ?chan = "SecureChannelCredentials ctx (compose_call cc c)"
  have "generates (getCallCredentials ?chan) options (\<lambda>k. f k @ g k)"
    using Cons.prems(2) Cons.hyps(1) chan by (simp add: generates_compose)
  from Cons.IH [OF _ this] chan show ?case by simp
qed

end
