(* ===== verification/Filters.thy ===== *)
theory Filters
  imports Credentials
begin

text \<open>
  \<open>grpc-js-core/src\<close>: \<open>filter.ts\<close>, \<open>filter-stack.ts\<close>, \<open>compression-filter.ts\<close>,
  \<open>call-credentials-filter.ts\<close> and \<open>deadline-filter.ts\<close>. A filter's methods take and return promises.
  Times are whole milliseconds; \<open>Infinite\<close> is the number \<open>Infinity\<close>.
\<close>

section \<open>Deadlines\<close>

datatype deadline = Infinite | DateAt int | NumberAt int

text \<open>\<open>callDeadline instanceof Date ? callDeadline.getTime() : callDeadline\<close>.\<close>

fun deadline_ms :: "deadline \<Rightarrow> int option" where
  "deadline_ms Infinite = None"
| "deadline_ms (DateAt t) = Some t"
| "deadline_ms (NumberAt t) = Some t"

definition units :: "(string \<times> int) list" where
  "units = [(''m'', 1), (''S'', 1000), (''M'', 60 * 1000), (''H'', 60 * 60 * 1000)]"

text \<open>\<open>Math.ceil(timeoutMs / factor)\<close>; the quotient is below \<open>1e8\<close> just when the dividend is below
  \<open>factor * 1e8\<close>.\<close>

definition ceil_div :: "int \<Rightarrow> int \<Rightarrow> int" where
  "ceil_div t f = - ((- t) div f)"

fun timeout_in :: "(string \<times> int) list \<Rightarrow> int \<Rightarrow> string option" where
  "timeout_in [] timeoutMs = None"
| "timeout_in ((unit, factor) # us) timeoutMs =
     (if timeoutMs < factor * 100000000 then Some (int_digits (ceil_div timeoutMs factor) @ unit)
      else timeout_in us timeoutMs)"

definition timeout_string :: "int \<Rightarrow> string option" where
  "timeout_string timeoutMs = timeout_in units timeoutMs"

text \<open>Node's \<open>setTimeout\<close>: a delay above \<open>2^31 - 1\<close> or below 1 becomes 1.\<close>

definition node_timer_delay :: "int \<Rightarrow> int" where
  "node_timer_delay delay = (if delay > 2147483647 \<or> delay < 1 then 1 else delay)"

text \<open>The timer the filter's constructor sets, as the delay after which the call is cancelled with
  \<open>DEADLINE_EXCEEDED\<close>.\<close>

definition deadline_timer :: "deadline \<Rightarrow> int \<Rightarrow> int option" where
  "deadline_timer dl now =
     (case deadline_ms dl of
        None \<Rightarrow> None
      | Some d \<Rightarrow>
          (let timeout = d - now; timeout = (if timeout < 0 then 0 else timeout)
           in Some (node_timer_delay timeout)))"

text \<open>\<open>connected\<close> is the time at which the channel runs the callback passed to \<open>connect\<close>, if it does.\<close>

definition deadline_sendMetadata ::
  "deadline \<Rightarrow> int option \<Rightarrow> metadata promise \<Rightarrow> metadata promise" where
  "deadline_sendMetadata dl connected md =
     (case deadline_ms dl of
        None \<Rightarrow> await md (\<lambda>m. Fulfilled m)
      | Some d \<Rightarrow>
          (let timeoutString =
             (case connected of
                None \<Rightarrow> Pending
              | Some now \<Rightarrow>
                  (case timeout_string (d - now) of None \<Rightarrow> Pending | Some s \<Rightarrow> Fulfilled s))
           in await md (\<lambda>finalMetadata. await timeoutString (\<lambda>s.
                Settled (cm_set ''grpc-timeout'' (MString s) finalMetadata)))))"

section \<open>Compression\<close>

definition compression_sendMetadata :: "metadata promise \<Rightarrow> metadata promise" where
  "compression_sendMetadata md =
     await md (\<lambda>h. Settled (
       and_then (cm_set ''grpc-encoding'' (MString ''identity'') h)
         (cm_set ''grpc-accept-encoding'' (MString ''identity''))))"

definition compression_receiveMetadata :: "metadata promise \<Rightarrow> metadata promise" where
  "compression_receiveMetadata md =
     await md (\<lambda>h. Settled (and_then (cm_remove ''grpc-encoding'' h) (cm_remove ''grpc-accept-encoding'')))"

section \<open>Call credentials\<close>

text \<open>\<open>generateMetadata.bind({})\<close> is a function that is never called: awaiting it gives the function
  itself, and merging that visits the entries of its undefined \<open>internalRepr\<close>, of which there are
  none.\<close>

definition bound_function_repr :: metadata where
  "bound_function_repr = []"

definition creds_sendMetadata :: "'o call_credentials \<Rightarrow> metadata promise \<Rightarrow> metadata promise" where
  "creds_sendMetadata credentials md =
     await md (\<lambda>resultMetadata. Settled (cm_merge resultMetadata bound_function_repr))"

section \<open>Filters and stacks\<close>

datatype 'o call_filter =
    CompressionFilter
  | CallCredentialsFilter "'o call_credentials"
  | DeadlineFilter deadline

record status_object =
  st_code :: status
  st_details :: string
  st_metadata :: metadata

definition base_sendMetadata :: "metadata promise \<Rightarrow> metadata promise" where
  "base_sendMetadata md = await md (\<lambda>m. Fulfilled m)"

definition base_receiveMetadata :: "metadata promise \<Rightarrow> metadata promise" where
  "base_receiveMetadata md = await md (\<lambda>m. Fulfilled m)"

definition base_receiveTrailers :: "status_object promise \<Rightarrow> status_object promise" where
  "base_receiveTrailers st = await st (\<lambda>s. Fulfilled s)"

fun filter_sendMetadata :: "int option \<Rightarrow> 'o call_filter \<Rightarrow> metadata promise \<Rightarrow> metadata promise" where
  "filter_sendMetadata connected CompressionFilter md = compression_sendMetadata md"
| "filter_sendMetadata connected (CallCredentialsFilter c) md = creds_sendMetadata c md"
| "filter_sendMetadata connected (DeadlineFilter dl) md = deadline_sendMetadata dl connected md"

fun filter_receiveMetadata :: "'o call_filter \<Rightarrow> metadata promise \<Rightarrow> metadata promise" where
  "filter_receiveMetadata CompressionFilter md = compression_receiveMetadata md"
| "filter_receiveMetadata (CallCredentialsFilter c) md = base_receiveMetadata md"
| "filter_receiveMetadata (DeadlineFilter dl) md = base_receiveMetadata md"

fun filter_receiveTrailers :: "'o call_filter \<Rightarrow> status_object promise \<Rightarrow> status_object promise" where
  "filter_receiveTrailers f st = base_receiveTrailers st"

text \<open>\<open>flow\<close> applies the functions from the first to the last, \<open>flowRight\<close> from the last to the first.\<close>

definition stack_sendMetadata :: "int option \<Rightarrow> 'o call_filter list \<Rightarrow> metadata promise \<Rightarrow> metadata promise" where
  "stack_sendMetadata connected filters md = fold (filter_sendMetadata connected) filters md"

definition stack_receiveMetadata :: "'o call_filter list \<Rightarrow> metadata promise \<Rightarrow> metadata promise" where
  "stack_receiveMetadata filters md = foldr filter_receiveMetadata filters md"

definition stack_receiveTrailers :: "'o call_filter list \<Rightarrow> status_object promise \<Rightarrow> status_object promise" where
  "stack_receiveTrailers filters st = foldr filter_receiveTrailers filters st"

text \<open>What a filter needs of the call stream it is created for.\<close>

record 'o call_options =
  opt_deadline :: deadline
  opt_credentials :: "'o call_credentials"
  opt_flags :: int

datatype 'o filter_factory =
    CompressionFilterFactory
  | CallCredentialsFilterFactory "'o call_credentials"
  | DeadlineFilterFactory

fun createFilter :: "'o call_options \<Rightarrow> 'o filter_factory \<Rightarrow> 'o call_filter" where
  "createFilter opts CompressionFilterFactory = CompressionFilter"
| "createFilter opts (CallCredentialsFilterFactory c) =
     CallCredentialsFilter (compose_call c (opt_credentials opts))"
| "createFilter opts DeadlineFilterFactory = DeadlineFilter (opt_deadline opts)"

definition stack_createFilter :: "'o filter_factory list \<Rightarrow> 'o call_options \<Rightarrow> 'o call_filter list" where
  "stack_createFilter factories opts = map (createFilter opts) factories"

end
