(* ===== verification/FilterFacts.thy ===== *)
theory FilterFacts
  imports Filters
begin

text \<open>
  What the filters of a call promise: the timeout header counts the remaining time in the finest unit
  that fits and never understates it, the compression filter undoes on the way in what it adds on the
  way out, and the stack passes trailers through unchanged.
\<close>

section \<open>The timeout header\<close>

lemma ceil_div_bounds:
  assumes "0 < f"
  shows "t \<le> ceil_div t f * f" and "(ceil_div t f - 1) * f < t"
proof -
  define q where "q = f * ((- t) div f)"
  have "0 \<le> (- t) mod f" "(- t) mod f < f" using assms by auto
  then have q: "q \<le> - t" "- t - f < q"
    unfolding q_def minus_mod_eq_mult_div [symmetric] by auto
  have e: "ceil_div t f * f = - q" "(ceil_div t f - 1) * f = - q - f"
    by (simp_all add: ceil_div_def q_def left_diff_distrib)
  show "t \<le> ceil_div t f * f" unfolding e using q by simp
  show "(ceil_div t f - 1) * f < t" unfolding e using q by simp
qed

lemma ceil_div_le: "0 < f \<Longrightarrow> t < f * n \<Longrightarrow> ceil_div t f \<le> n"
proof -
  assume f: "0 < f" and t: "t < f * n"
  have "(ceil_div t f - 1) * f < n * f" using ceil_div_bounds(2) [OF f, of t] t by (simp add: mult.commute)
  with f have "ceil_div t f - 1 < n" by (simp add: mult_less_cancel_right)
  then show ?thesis by simp
qed

lemma ceil_div_nonneg: "0 < f \<Longrightarrow> 0 \<le> t \<Longrightarrow> 0 \<le> ceil_div t f"
  by (simp add: ceil_div_def div_nonpos_pos_le0)

lemma units_cases:
  "timeout_string t =
     (if t < 100000000 then Some (int_digits (ceil_div t 1) @ ''m'')
      else if t < 100000000000 then Some (int_digits (ceil_div t 1000) @ ''S'')
      else if t < 6000000000000 then Some (int_digits (ceil_div t 60000) @ ''M'')
      else if t < 360000000000000 then Some (int_digits (ceil_div t 3600000) @ ''H'')
      else None)"
  by (simp add: timeout_string_def units_def)

text \<open>The reading of a timeout header: the milliseconds its digits and unit stand for.\<close>

definition timeout_value :: "string \<Rightarrow> int option" where
  "timeout_value s =
     (case (digits_val 0 (butlast s), map_of units [last s]) of
        (Some n, Some f) \<Rightarrow> Some (int n * f)
      | _ \<Rightarrow> None)"

definition unit_factor :: "int \<Rightarrow> int" where
  "unit_factor t =
     (if t < 100000000 then 1 else if t < 100000000000 then 1000 else if t < 6000000000000 then 60000 else 3600000)"

lemma timeout_value_digits:
  "0 \<le> n \<Longrightarrow> map_of units [u] = Some f \<Longrightarrow> timeout_value (int_digits n @ [u]) = Some (n * f)"
  by (simp add: timeout_value_def int_digits_def digits_val_nat_digits)

lemma timeout_string_reads:
  assumes "0 \<le> t" and "timeout_string t = Some s"
  shows "timeout_value s = Some (ceil_div t (unit_factor t) * unit_factor t)"
  using assms
  by (auto simp: units_cases unit_factor_def timeout_value_digits units_def ceil_div_nonneg split: if_splits)

lemma timeout_string_digits:
  assumes "0 \<le> t" and "timeout_string t = Some s"
  shows "length s \<le> 10"
proof -
  have "length (int_digits n) \<le> 9" if "0 \<le> n" "n \<le> 100000000" for n
    using that length_nat_digits [of "nat n" 9] by (simp add: int_digits_def)
  moreover have "0 \<le> ceil_div t f \<and> ceil_div t f \<le> 100000000" if "0 < f" "t < f * 100000000" for f
    using that assms(1) ceil_div_nonneg ceil_div_le by auto
  ultimately show ?thesis using assms(2)
    by (auto simp: units_cases split: if_splits)
qed

section \<open>The filters and the stack\<close>

lemma base_ids [simp]:
  "base_sendMetadata md = md" "base_receiveMetadata md = md" "base_receiveTrailers st = st"
  by (simp_all add: base_sendMetadata_def base_receiveMetadata_def base_receiveTrailers_def)

lemma stack_receiveTrailers_id [simp]: "stack_receiveTrailers filters st = st"
  by (induction filters) (simp_all add: stack_receiveTrailers_def)

lemma creds_send_id [simp]: "creds_sendMetadata c md = md"
  by (simp add: creds_sendMetadata_def bound_function_repr_def cm_merge_def)

lemma encoding_keys [simp]:
  "cm_normalizeKey ''grpc-encoding'' = ''grpc-encoding''"
  "cm_normalizeKey ''grpc-accept-encoding'' = ''grpc-accept-encoding''"
  "cm_normalizeKey ''grpc-timeout'' = ''grpc-timeout''"
  by (code_simp)+

lemma encoding_valid [simp]:
  "cm_validate ''grpc-encoding'' (Some (MString ''identity'')) = Inr ()"
  "cm_validate ''grpc-accept-encoding'' (Some (MString ''identity'')) = Inr ()"
  "cm_validate ''grpc-encoding'' None = Inr ()"
  "cm_validate ''grpc-accept-encoding'' None = Inr ()"
  by code_simp+

lemma compression_send_values:
  assumes "obj_wf m"
  shows "\<exists>m'. compression_sendMetadata (Fulfilled m) = Fulfilled m' \<and> obj_wf m' \<and>
    md_values m' = (md_values m)(''grpc-encoding'' := [MString ''identity''],
                                 ''grpc-accept-encoding'' := [MString ''identity''])"
  using assms by (auto simp: compression_sendMetadata_def cm_set_def Let_def obj_simps)

lemma compression_receive_values:
  assumes "obj_wf m"
  shows "\<exists>m'. compression_receiveMetadata (Fulfilled m) = Fulfilled m' \<and> obj_wf m' \<and>
    md_values m' = (md_values m)(''grpc-encoding'' := [], ''grpc-accept-encoding'' := [])"
proof -
  have "cm_norm ''grpc-encoding'' = Inr ''grpc-encoding''" "cm_norm ''grpc-accept-encoding'' = Inr ''grpc-accept-encoding''"
    by (simp_all add: cm_norm_def)
  with cm.remove_ok [OF assms this(1)] cm.remove_ok [of _ "''grpc-accept-encoding''"]
  show ?thesis by (fastforce simp: compression_receiveMetadata_def)
qed

text \<open>The value of the timeout header passes the validation of metadata.\<close>

lemma legal_value_chars:
  "s \<noteq> [] \<Longrightarrow> (\<And>c. c \<in> set s \<Longrightarrow> 32 \<le> (of_char c :: nat) \<and> (of_char c :: nat) \<le> 126) \<Longrightarrow>
   cm_validate ''grpc-timeout'' (Some (MString s)) = Inr ()"
proof -
  assume s: "s \<noteq> []" and c: "\<And>c. c \<in> set s \<Longrightarrow> 32 \<le> (of_char c :: nat) \<and> (of_char c :: nat) \<le> 126"
  have "cm_isLegalKey ''grpc-timeout''" "\<not> cm_isBinaryKey ''grpc-timeout''" by code_simp+
  with s c show ?thesis by (auto simp: cm_validate_def cm_isLegalNonBinaryValue_def list_all_iff)
qed

lemma nat_digits_printable: "c \<in> set (nat_digits n) \<Longrightarrow> 48 \<le> (of_char c :: nat) \<and> (of_char c :: nat) \<le> 57"
proof (induction n rule: nat_digits.induct)
  case (1 n)
  then show ?case
    by (cases "n < 10") (auto simp: nat_digits.simps [of n] of_char_of)
qed

lemma int_digits_printable: "c \<in> set (int_digits i) \<Longrightarrow> 32 \<le> (of_char c :: nat) \<and> (of_char c :: nat) \<le> 126"
  by (auto simp: int_digits_def of_char_Char split: if_splits dest!: nat_digits_printable)

lemma timeout_string_valid:
  assumes "timeout_string t = Some s"
  shows "cm_validate ''grpc-timeout'' (Some (MString s)) = Inr ()"
proof (rule legal_value_chars)
  have "\<exists>i u. s = int_digits i @ [u] \<and> u \<in> {CHR ''m'', CHR ''S'', CHR ''M'', CHR ''H''}"
    using assms by (auto simp: units_cases split: if_splits)
  then obtain i u where s: "s = int_digits i @ [u]" and u: "u \<in> {CHR ''m'', CHR ''S'', CHR ''M'', CHR ''H''}" by blast
  from u have "32 \<le> (of_char u :: nat) \<and> (of_char u :: nat) \<le> 126" by auto
  with s show "c \<in> set s \<Longrightarrow> 32 \<le> (of_char c :: nat) \<and> (of_char c :: nat) \<le> 126" for c
    by (auto dest: int_digits_printable)
  show "s \<noteq> []" using s by simp
qed

lemma deadline_send_values:
  assumes "obj_wf m" and "deadline_ms dl = Some d" and "timeout_string (d - now) = Some s"
  shows "\<exists>m'. deadline_sendMetadata dl (Some now) (Fulfilled m) = Fulfilled m' \<and> obj_wf m' \<and>
    md_values m' = (md_values m)(''grpc-timeout'' := [MString s])"
  using assms timeout_string_valid [OF assms(3)]
  by (auto simp: deadline_sendMetadata_def cm_set_def Let_def obj_simps)

end
