(* ===== verification/JsNumber.thy ===== *)
theory JsNumber
  imports Prelude
begin

text \<open>
  \<open>Number(s)\<close> on a string, as far as the integers go: \<open>Some n\<close> when the result is the integer \<open>n\<close>,
  \<open>None\<close> when it is not a number or not an integer. White space is trimmed, the empty string is 0,
  decimal literals may have a sign, a fraction and an exponent, and hexadecimal, octal and binary
  literals are read. The value is exact: the rounding of a literal to a double is not modelled.
\<close>

definition js_space :: "char \<Rightarrow> bool" where
  "js_space c \<longleftrightarrow> (let n = (of_char c :: nat) in 9 \<le> n \<and> n \<le> 13 \<or> n = 32 \<or> n = 160)"

definition trim :: "string \<Rightarrow> string" where
  "trim s = rev (dropWhile js_space (rev (dropWhile js_space s)))"

definition radix_digit :: "nat \<Rightarrow> char \<Rightarrow> nat option" where
  "radix_digit r c =
     (let n = of_char c;
          d = (if 48 \<le> n \<and> n \<le> 57 then n - 48
               else if 97 \<le> n \<and> n \<le> 102 then n - 87
               else if 65 \<le> n \<and> n \<le> 70 then n - 55 else r)
      in if d < r then Some d else None)"

fun radix_val :: "nat \<Rightarrow> nat \<Rightarrow> string \<Rightarrow> nat option" where
  "radix_val r acc [] = Some acc"
| "radix_val r acc (c # cs) =
     (case radix_digit r c of None \<Rightarrow> None | Some d \<Rightarrow> radix_val r (r * acc + d) cs)"

fun split_sign :: "string \<Rightarrow> int \<times> string" where
  "split_sign [] = (1, [])"
| "split_sign (c # cs) = (if c = CHR ''-'' then (-1, cs) else if c = CHR ''+'' then (1, cs) else (1, c # cs))"

definition is_digit :: "char \<Rightarrow> bool" where
  "is_digit c \<longleftrightarrow> digit_val c \<noteq> None"

text \<open>\<open>m * 10 ^ e\<close> when that is an integer.\<close>

definition scale10 :: "int \<Rightarrow> int \<Rightarrow> int option" where
  "scale10 m e =
     (if 0 \<le> e then Some (m * 10 ^ nat e)
      else if m mod 10 ^ nat (- e) = 0 then Some (m div 10 ^ nat (- e)) else None)"

definition exponent_val :: "string \<Rightarrow> int option" where
  "exponent_val s =
     (case s of
        [] \<Rightarrow> Some 0
      | c # cs \<Rightarrow>
          if c = CHR ''e'' \<or> c = CHR ''E'' then
            (let (sg, ds) = split_sign cs
             in if ds = [] then None else map_option (\<lambda>n. sg * int n) (digits_val 0 ds))
          else None)"

definition decimal_val :: "string \<Rightarrow> int option" where
  "decimal_val s =
     (let (sg, body) = split_sign s;
          ip = takeWhile is_digit body;
          r1 = dropWhile is_digit body;
          (fp, r2) = (case r1 of c # r \<Rightarrow> if c = CHR ''.'' then (takeWhile is_digit r, dropWhile is_digit r) else ([], r1)
                      | [] \<Rightarrow> ([], []))
      in if ip @ fp = [] then None
         else (case (digits_val 0 (ip @ fp), exponent_val r2) of
                 (Some m, Some e) \<Rightarrow> scale10 (sg * int m) (e - int (length fp))
               | _ \<Rightarrow> None))"

definition js_Number :: "string \<Rightarrow> int option" where
  "js_Number s =
     (case trim s of
        [] \<Rightarrow> Some 0
      | c # d # ds \<Rightarrow>
          if c = CHR ''0'' \<and> d \<in> {CHR ''x'', CHR ''X'', CHR ''o'', CHR ''O'', CHR ''b'', CHR ''B''} \<and> ds \<noteq> [] then
            map_option int (radix_val (if d \<in> {CHR ''x'', CHR ''X''} then 16
                                       else if d \<in> {CHR ''o'', CHR ''O''} then 8 else 2) 0 ds)
          else decimal_val (c # d # ds)
      | cs \<Rightarrow> decimal_val cs)"

lemma digit_char_code: "d < 10 \<Longrightarrow> (of_char (char_of (48 + d) :: char) :: nat) = 48 + d"
  by (simp add: of_char_of)

lemma nat_digits_chars: "c \<in> set (nat_digits n) \<Longrightarrow> \<exists>d < (10::nat). c = char_of (48 + d)"
proof (induction n rule: nat_digits.induct)
  case (1 n)
  show ?case
  proof (cases "n < 10")
    case True
    with 1 show ?thesis by (auto simp: nat_digits.simps [of n])
  next
    case False
    with 1 show ?thesis by (auto simp: nat_digits.simps [of n] intro: exI [of _ "n mod 10"])
  qed
qed

lemma nat_digits_is_digit: "c \<in> set (nat_digits n) \<Longrightarrow> is_digit c \<and> \<not> js_space c"
  by (drule nat_digits_chars)
    (auto simp: is_digit_def digit_val_char js_space_def Let_def digit_char_code)

lemma dropWhile_none: "(\<And>x. x \<in> set xs \<Longrightarrow> \<not> P x) \<Longrightarrow> dropWhile P xs = xs"
  by (cases xs) auto

lemma trim_nat_digits: "trim (nat_digits n) = nat_digits n"
proof -
  have "dropWhile js_space xs = xs" if "set xs = set (nat_digits n)" for xs
    using that nat_digits_is_digit [of _ n] by (intro dropWhile_none) auto
  then show ?thesis by (simp add: trim_def)
qed

lemma digit_not_special: "is_digit c \<Longrightarrow> c \<noteq> CHR ''-'' \<and> c \<noteq> CHR ''+'' \<and> c \<noteq> CHR ''x'' \<and> c \<noteq> CHR ''X'' \<and>
  c \<noteq> CHR ''o'' \<and> c \<noteq> CHR ''O'' \<and> c \<noteq> CHR ''b'' \<and> c \<noteq> CHR ''B''"
  by (auto simp: is_digit_def digit_val_def)

lemma decimal_val_nat_digits: "decimal_val (nat_digits n) = Some (int n)"
proof -
  have d: "\<And>c. c \<in> set (nat_digits n) \<Longrightarrow> is_digit c" by (simp add: nat_digits_is_digit)
  then have t: "takeWhile is_digit (nat_digits n) = nat_digits n" "dropWhile is_digit (nat_digits n) = []"
    by (auto simp: takeWhile_eq_all_conv)
  have s: "split_sign (nat_digits n) = (1, nat_digits n)"
  proof (cases "nat_digits n")
    case (Cons c cs)
    then have "is_digit c" using d by simp
    with Cons show ?thesis using digit_not_special [of c] by simp
  qed simp
  show ?thesis
    by (simp add: decimal_val_def s t digits_val_nat_digits exponent_val_def scale10_def)
qed

lemma js_Number_nat_digits: "js_Number (nat_digits n) = Some (int n)"
proof -
  have d: "\<And>c. c \<in> set (nat_digits n) \<Longrightarrow> is_digit c" by (simp add: nat_digits_is_digit)
  have nz: "\<And>c e es. nat_digits n = c # e # es \<Longrightarrow>
      e \<notin> {CHR ''x'', CHR ''X'', CHR ''o'', CHR ''O'', CHR ''b'', CHR ''B''}"
    using d digit_not_special by fastforce
  show ?thesis
    using decimal_val_nat_digits [of n] nz
    by (auto simp: js_Number_def trim_nat_digits split: list.split)
qed

end
