(* ===== verification/Machines.thy ===== *)
theory Machines
  imports Prelude
begin

text \<open>
  The contracts of event-driven components. A component's handler is a function
  \<open>step :: 's \<Rightarrow> 'e \<Rightarrow> 's \<times> 'o list\<close> from its state and one event (a call of its
  interface, a callback of the runtime) to the next state and the effects it has, in order. A
  scheduler's choices are the list of events. What the runtime promises about the events it
  delivers is a predicate \<open>legal\<close> on a state and an event.

  \<open>machine\<close> is a component with an invariant; \<open>latch\<close> adds that a marked effect happens at most
  once, exactly when the component closes; \<open>monitored\<close> adds a protocol automaton that every
  sequence of effects must follow.
\<close>

section \<open>Runs\<close>

fun run :: "('s \<Rightarrow> 'e \<Rightarrow> 's \<times> 'o list) \<Rightarrow> 's \<Rightarrow> 'e list \<Rightarrow> 's \<times> 'o list" where
  "run step s [] = (s, [])"
| "run step s (e # es) =
     (let (s1, o1) = step s e; (s2, o2) = run step s1 es in (s2, o1 @ o2))"

fun legal_run :: "('s \<Rightarrow> 'e \<Rightarrow> 's \<times> 'o list) \<Rightarrow> ('s \<Rightarrow> 'e \<Rightarrow> bool) \<Rightarrow> 's \<Rightarrow> 'e list \<Rightarrow> bool" where
  "legal_run step legal s [] \<longleftrightarrow> True"
| "legal_run step legal s (e # es) \<longleftrightarrow> legal s e \<and> legal_run step legal (fst (step s e)) es"

abbreviation final :: "('s \<Rightarrow> 'e \<Rightarrow> 's \<times> 'o list) \<Rightarrow> 's \<Rightarrow> 'e list \<Rightarrow> 's" where
  "final step s es \<equiv> fst (run step s es)"

abbreviation effects :: "('s \<Rightarrow> 'e \<Rightarrow> 's \<times> 'o list) \<Rightarrow> 's \<Rightarrow> 'e list \<Rightarrow> 'o list" where
  "effects step s es \<equiv> snd (run step s es)"

lemma run_Cons_fst [simp]: "final step s (e # es) = final step (fst (step s e)) es"
  by (simp add: Let_def split: prod.split)

lemma run_Cons_snd [simp]:
  "effects step s (e # es) = snd (step s e) @ effects step (fst (step s e)) es"
  by (simp add: Let_def split: prod.split)

declare run.simps(2) [simp del]

lemma run_append_fst: "final step s (es @ fs) = final step (final step s es) fs"
  by (induction es arbitrary: s) auto

lemma run_append_snd:
  "effects step s (es @ fs) = effects step s es @ effects step (final step s es) fs"
  by (induction es arbitrary: s) auto

lemma legal_run_append:
  "legal_run step legal s (es @ fs) \<longleftrightarrow> legal_run step legal s es \<and> legal_run step legal (final step s es) fs"
  by (induction es arbitrary: s) auto

lemma legal_run_True [simp]: "legal_run step (\<lambda>_ _. True) s es"
  by (induction es arbitrary: s) auto

section \<open>A component with an invariant\<close>

locale machine =
  fixes step :: "'s \<Rightarrow> 'e \<Rightarrow> 's \<times> 'o list"
    and legal :: "'s \<Rightarrow> 'e \<Rightarrow> bool"
    and inv :: "'s \<Rightarrow> bool"
  assumes inv_step: "inv s \<Longrightarrow> legal s e \<Longrightarrow> inv (fst (step s e))"
begin

lemma inv_run: "inv s \<Longrightarrow> legal_run step legal s es \<Longrightarrow> inv (final step s es)"
  by (induction es arbitrary: s) (auto intro: inv_step)

lemma inv_prefix: "inv s \<Longrightarrow> legal_run step legal s (es @ fs) \<Longrightarrow> inv (final step s es)"
  by (simp add: legal_run_append inv_run)

end

section \<open>A component that closes once\<close>

locale latch = machine step legal inv
  for step :: "'s \<Rightarrow> 'e \<Rightarrow> 's \<times> 'o list" and legal :: "'s \<Rightarrow> 'e \<Rightarrow> bool" and inv :: "'s \<Rightarrow> bool" +
  fixes closed :: "'s \<Rightarrow> bool"
    and mark :: "'o \<Rightarrow> bool"
  assumes closed_stays: "inv s \<Longrightarrow> legal s e \<Longrightarrow> closed s \<Longrightarrow> closed (fst (step s e))"
    and marks_step: "inv s \<Longrightarrow> legal s e \<Longrightarrow>
      length (filter mark (snd (step s e))) = (if \<not> closed s \<and> closed (fst (step s e)) then 1 else 0)"
begin

lemma closed_run: "inv s \<Longrightarrow> legal_run step legal s es \<Longrightarrow> closed s \<Longrightarrow> closed (final step s es)"
  by (induction es arbitrary: s) (auto intro: inv_step closed_stays)

lemma no_marks_after_close:
  assumes "inv s" and "legal_run step legal s es" and "closed s"
  shows "filter mark (effects step s es) = []"
  using assms
proof (induction es arbitrary: s)
  case Nil
  then show ?case by simp
next
  case (Cons e es)
  then have "length (filter mark (snd (step s e))) = 0" by (simp add: marks_step)
  moreover have "filter mark (effects step (fst (step s e)) es) = []"
    using Cons by (intro Cons.IH) (auto intro: inv_step closed_stays)
  ultimately show ?case by simp
qed

lemma marks_run:
  assumes "inv s" and "legal_run step legal s es" and "\<not> closed s"
  shows "length (filter mark (effects step s es)) = (if closed (final step s es) then 1 else 0)"
  using assms
proof (induction es arbitrary: s)
  case Nil
  then show ?case by simp
next
  case (Cons e es)
  have inv': "inv (fst (step s e))" and legal': "legal_run step legal (fst (step s e)) es"
    using Cons.prems by (auto intro: inv_step)
  have m: "length (filter mark (snd (step s e))) = (if closed (fst (step s e)) then 1 else 0)"
    using Cons.prems by (simp add: marks_step)
  show ?case
  proof (cases "closed (fst (step s e))")
    case True
    then show ?thesis using m inv' legal' by (simp add: no_marks_after_close closed_run)
  next
    case False
    then show ?thesis using m Cons.IH [OF inv' legal' False] by simp
  qed
qed

lemma at_most_one_mark:
  assumes "inv s" and "legal_run step legal s es" and "\<not> closed s"
  shows "length (filter mark (effects step s es)) \<le> 1"
  by (simp add: marks_run [OF assms])

end

section \<open>A component whose effects follow a protocol\<close>

text \<open>A protocol automaton: \<open>None\<close> is a violation.\<close>

fun accepts :: "('m \<Rightarrow> 'o \<Rightarrow> 'm option) \<Rightarrow> 'm \<Rightarrow> 'o list \<Rightarrow> 'm option" where
  "accepts mon m [] = Some m"
| "accepts mon m (x # xs) = (case mon m x of None \<Rightarrow> None | Some m' \<Rightarrow> accepts mon m' xs)"

lemma accepts_append:
  "accepts mon m (xs @ ys) = (case accepts mon m xs of None \<Rightarrow> None | Some m' \<Rightarrow> accepts mon m' ys)"
  by (induction xs arbitrary: m) (auto split: option.splits)

locale monitored = machine step legal inv
  for step :: "'s \<Rightarrow> 'e \<Rightarrow> 's \<times> 'o list" and legal :: "'s \<Rightarrow> 'e \<Rightarrow> bool" and inv :: "'s \<Rightarrow> bool" +
  fixes mon :: "'m \<Rightarrow> 'o \<Rightarrow> 'm option"
    and phase :: "'s \<Rightarrow> 'm"
  assumes step_follows: "inv s \<Longrightarrow> legal s e \<Longrightarrow>
      accepts mon (phase s) (snd (step s e)) = Some (phase (fst (step s e)))"
begin

lemma run_follows:
  "inv s \<Longrightarrow> legal_run step legal s es \<Longrightarrow>
   accepts mon (phase s) (effects step s es) = Some (phase (final step s es))"
  by (induction es arbitrary: s) (auto simp: accepts_append step_follows intro: inv_step)

end

end
