(* ===== verification/CallStream.thy ===== *)
theory CallStream
  imports Filters JsNumber Machines
begin

text \<open>
  \<open>grpc-js-core/src/call-stream.ts\<close>: the state of an \<open>Http2CallStream\<close>, its message framing, and its
  handlers. The result of the \<open>n\<close>-th call of \<open>push\<close> (Node's readable stream says whether it wants
  more) is \<open>push_result env n\<close>; \<open>decodeURI\<close> is the standard function, whose results may hold
  any text. Three fields mirror the http2 stream the call is attached to: whether it is paused (the
  calls of \<open>pause\<close> and \<open>resume\<close>), whether its \<open>end\<close> event has fired, and the promise continuations
  waiting to run.
\<close>

section \<open>State\<close>

datatype read_state = NO_DATA | READING_SIZE | READING_MESSAGE

datatype cs_task = MetadataTask "js_exn + metadata" | StatusTask "js_exn + status_object"

record ('c, 'o) call_stream =
  cs_filterStack :: "'o call_filter list"
  cs_http2Stream :: bool
  cs_pendingRead :: bool
  cs_pendingWrite :: "bytes option"
  cs_pendingWriteCallback :: "'c option"
  cs_pendingFinalCallback :: "'c option"
  cs_readState :: read_state
  cs_readCompressFlag :: bool
  cs_readPartialSize :: bytes
  cs_readSizeRemaining :: nat
  cs_readMessageSize :: nat
  cs_readPartialMessage :: "bytes list"
  cs_readMessageRemaining :: nat
  cs_unpushedReadMessages :: "bytes option list"
  cs_mappedStatusCode :: status
  cs_finalStatus :: "status_object option"
  cs_options :: "'o call_options"
  cs_pushes :: nat
  cs_paused :: bool
  cs_ended :: bool
  cs_tasks :: "cs_task list"

definition cs_new :: "'o call_options \<Rightarrow> 'o filter_factory list \<Rightarrow> ('c, 'o) call_stream" where
  "cs_new opts factories =
     \<lparr>cs_filterStack = stack_createFilter factories opts, cs_http2Stream = False,
      cs_pendingRead = False, cs_pendingWrite = None, cs_pendingWriteCallback = None,
      cs_pendingFinalCallback = None, cs_readState = NO_DATA, cs_readCompressFlag = False,
      cs_readPartialSize = replicate 4 0, cs_readSizeRemaining = 4, cs_readMessageSize = 0,
      cs_readPartialMessage = [], cs_readMessageRemaining = 0, cs_unpushedReadMessages = [],
      cs_mappedStatusCode = UNKNOWN, cs_finalStatus = None, cs_options = opts,
      cs_pushes = 0, cs_paused = False, cs_ended = False, cs_tasks = []\<rparr>"

record cs_env =
  push_result :: "nat \<Rightarrow> bool"
  decodeURI :: "string \<Rightarrow> js_exn + string"

datatype 'c cs_effect =
    Push "bytes option"
  | HttpPause
  | HttpResume
  | HttpRst
  | HttpWrite bytes 'c
  | HttpEnd 'c
  | EmitMetadata metadata
  | EmitStatus status_object
  | Uncaught js_exn

section \<open>Buffers\<close>

definition buf_slice :: "bytes \<Rightarrow> nat \<Rightarrow> nat \<Rightarrow> bytes" where
  "buf_slice data start n = take n (drop start data)"

definition buf_copy :: "bytes \<Rightarrow> nat \<Rightarrow> bytes \<Rightarrow> bytes" where
  "buf_copy target at src = take at target @ src @ drop (at + length src) target"

definition readUInt32BE :: "bytes \<Rightarrow> nat" where
  "readUInt32BE bs = foldl (\<lambda>acc b. acc * 256 + unat b) 0 (take 4 bs)"

definition writeUInt32BE :: "nat \<Rightarrow> bytes" where
  "writeUInt32BE n =
     [of_nat (n div 16777216), of_nat (n div 65536 mod 256), of_nat (n div 256 mod 256), of_nat (n mod 256)]"

text \<open>\<open>Buffer.concat(list, total)\<close> cuts or pads with zeros to the total.\<close>

definition buf_concat :: "bytes list \<Rightarrow> nat \<Rightarrow> bytes" where
  "buf_concat bss len = take len (concat bss) @ replicate (len - length (concat bss)) 0"

section \<open>Ending the call and pushing messages\<close>

definition endCall :: "status_object \<Rightarrow> ('c, 'o) call_stream \<Rightarrow> ('c, 'o) call_stream \<times> 'c cs_effect list" where
  "endCall status st =
     (case cs_finalStatus st of
        None \<Rightarrow> (st\<lparr>cs_finalStatus := Some status\<rparr>, [EmitStatus status])
      | Some _ \<Rightarrow> (st, []))"

definition do_push ::
  "cs_env \<Rightarrow> bytes option \<Rightarrow> ('c, 'o) call_stream \<Rightarrow> ('c, 'o) call_stream \<times> 'c cs_effect list \<times> bool" where
  "do_push env m st = (st\<lparr>cs_pushes := Suc (cs_pushes st)\<rparr>, [Push m], push_result env (cs_pushes st))"

definition tryPush ::
  "cs_env \<Rightarrow> bytes \<Rightarrow> bool \<Rightarrow> ('c, 'o) call_stream \<Rightarrow> bool \<times> ('c, 'o) call_stream \<times> 'c cs_effect list" where
  "tryPush env messageBytes canPush st =
     (if canPush then
        (let (st', eff, more) = do_push env (Some messageBytes) st in
         if \<not> more then (False, st'\<lparr>cs_paused := True\<rparr>, eff @ [HttpPause]) else (True, st', eff))
      else
        (False, st\<lparr>cs_unpushedReadMessages := cs_unpushedReadMessages st @ [Some messageBytes]\<rparr>, []))"

section \<open>The data handler\<close>

text \<open>One iteration of the loop over a data chunk, from the position \<open>readHead\<close>.\<close>

definition data_iter ::
  "cs_env \<Rightarrow> bytes \<Rightarrow> nat \<Rightarrow> bool \<Rightarrow> ('c, 'o) call_stream \<Rightarrow>
   nat \<times> bool \<times> ('c, 'o) call_stream \<times> 'c cs_effect list" where
  "data_iter env data readHead canPush st =
     (case cs_readState st of
        NO_DATA \<Rightarrow>
          (readHead + 1, canPush,
           st\<lparr>cs_readCompressFlag := data ! readHead \<noteq> 0, cs_readState := READING_SIZE,
              cs_readPartialSize := replicate 4 0, cs_readSizeRemaining := 4,
              cs_readMessageSize := 0, cs_readMessageRemaining := 0, cs_readPartialMessage := []\<rparr>, [])
      | READING_SIZE \<Rightarrow>
          (let toRead = min (length data - readHead) (cs_readSizeRemaining st);
               st1 = st\<lparr>cs_readPartialSize :=
                          buf_copy (cs_readPartialSize st) (4 - cs_readSizeRemaining st) (buf_slice data readHead toRead),
                        cs_readSizeRemaining := cs_readSizeRemaining st - toRead\<rparr>
           in if cs_readSizeRemaining st1 = 0 then
                (let size = readUInt32BE (cs_readPartialSize st1);
                     st2 = st1\<lparr>cs_readMessageSize := size, cs_readMessageRemaining := size\<rparr>
                 in if size > 0 then (readHead + toRead, canPush, st2\<lparr>cs_readState := READING_MESSAGE\<rparr>, [])
                    else (let (canPush', st3, eff) = tryPush env [] canPush st2
                          in (readHead + toRead, canPush', st3\<lparr>cs_readState := NO_DATA\<rparr>, eff)))
              else (readHead + toRead, canPush, st1, []))
      | READING_MESSAGE \<Rightarrow>
          (let toRead = min (length data - readHead) (cs_readMessageRemaining st);
               st1 = st\<lparr>cs_readPartialMessage := cs_readPartialMessage st @ [buf_slice data readHead toRead],
                        cs_readMessageRemaining := cs_readMessageRemaining st - toRead\<rparr>
           in if cs_readMessageRemaining st1 = 0 then
                (let messageBytes = buf_concat (cs_readPartialMessage st1) (cs_readMessageSize st1);
                     (canPush', st2, eff) = tryPush env messageBytes canPush st1
                 in (readHead + toRead, canPush', st2\<lparr>cs_readState := NO_DATA\<rparr>, eff))
              else (readHead + toRead, canPush, st1, [])))"

fun read_rank :: "read_state \<Rightarrow> nat" where
  "read_rank NO_DATA = 0"
| "read_rank READING_MESSAGE = 1"
| "read_rank READING_SIZE = 2"

definition iter_measure :: "bytes \<Rightarrow> nat \<Rightarrow> ('c, 'o) call_stream \<Rightarrow> nat" where
  "iter_measure data readHead st = 4 * (length data - readHead) + read_rank (cs_readState st)"

lemma data_iter_decreases:
  assumes "readHead < length data" and "data_iter env data readHead canPush st = (rh, cp, st', eff)"
  shows "iter_measure data rh st' < iter_measure data readHead st"
  using assms
  by (cases "cs_readState st")
    (auto simp: data_iter_def iter_measure_def Let_def split: if_splits prod.splits)

function data_loop ::
  "cs_env \<Rightarrow> bytes \<Rightarrow> nat \<Rightarrow> bool \<Rightarrow> ('c, 'o) call_stream \<Rightarrow> ('c, 'o) call_stream \<times> 'c cs_effect list" where
  "data_loop env data readHead canPush st =
     (if readHead < length data then
        (case data_iter env data readHead canPush st of
           (readHead', canPush', st', eff) \<Rightarrow>
             (case data_loop env data readHead' canPush' st' of (st'', eff') \<Rightarrow> (st'', eff @ eff')))
      else (st, []))"
  by pat_completeness auto
termination
  by (relation "measure (\<lambda>(env, data, readHead, canPush, st). iter_measure data readHead st)")
    (auto dest: data_iter_decreases [OF _ sym])

declare data_loop.simps [simp del]

section \<open>The other handlers\<close>

fun join_comma :: "string list \<Rightarrow> string" where
  "join_comma [] = []"
| "join_comma [s] = s"
| "join_comma (s # t # ss) = s @ '','' @ join_comma (t # ss)"

text \<open>A header value as a string: an array is joined with commas.\<close>

fun hdr_text :: "hdr_value \<Rightarrow> string" where
  "hdr_text (HStr s) = s"
| "hdr_text (HList ss) = join_comma ss"
| "hdr_text (HNum n) = int_digits n"

definition map_http_status :: "hdr_value option \<Rightarrow> status" where
  "map_http_status h =
     (case h of
        Some (HStr s) \<Rightarrow>
          if s = ''400'' then INTERNAL
          else if s = ''401'' then UNAUTHENTICATED
          else if s = ''403'' then PERMISSION_DENIED
          else if s = ''404'' then UNIMPLEMENTED
          else if s = ''429'' \<or> s = ''502'' \<or> s = ''503'' \<or> s = ''504'' then UNAVAILABLE
          else UNKNOWN
      | _ \<Rightarrow> UNKNOWN)"

definition cs_cancelWithStatus ::
  "status \<Rightarrow> string \<Rightarrow> ('c, 'o) call_stream \<Rightarrow> ('c, 'o) call_stream \<times> 'c cs_effect list" where
  "cs_cancelWithStatus status details st =
     (let (st1, eff) = endCall \<lparr>st_code = status, st_details = details, st_metadata = []\<rparr> st
      in (st1, eff @ (if cs_http2Stream st1 then [HttpRst] else [])))"

definition on_response :: "headers \<Rightarrow> ('c, 'o) call_stream \<Rightarrow> ('c, 'o) call_stream \<times> 'c cs_effect list" where
  "on_response headers st =
     (let st1 = st\<lparr>cs_mappedStatusCode := map_http_status (map_of headers '':status'')\<rparr>;
          headers1 = obj_del ''content-type'' (obj_del '':status'' headers)
      in case cm_fromHttp2Headers headers1 of
           Inl e \<Rightarrow> cs_cancelWithStatus UNKNOWN (exn_message e) st1
         | Inr metadata \<Rightarrow>
             (case stack_receiveMetadata (cs_filterStack st1) (Fulfilled metadata) of
                Pending \<Rightarrow> (st1, [])
              | Settled r \<Rightarrow> (st1\<lparr>cs_tasks := cs_tasks st1 @ [MetadataTask r]\<rparr>, [])))"

definition received_code :: "string \<Rightarrow> status" where
  "received_code s =
     (case js_Number s of None \<Rightarrow> UNKNOWN
      | Some n \<Rightarrow> (case status_of_num n of Some c \<Rightarrow> c | None \<Rightarrow> UNKNOWN))"

definition on_trailers :: "cs_env \<Rightarrow> headers \<Rightarrow> ('c, 'o) call_stream \<Rightarrow> ('c, 'o) call_stream \<times> 'c cs_effect list" where
  "on_trailers env headers st =
     (let (code, headers1) =
        (case map_of headers ''grpc-status'' of
           Some h \<Rightarrow> (received_code (hdr_text h), obj_del ''grpc-status'' headers)
         | None \<Rightarrow> (cs_mappedStatusCode st, headers))
      in case (case map_of headers1 ''grpc-message'' of
                 Some h \<Rightarrow> decodeURI env (hdr_text h)
               | None \<Rightarrow> Inr []) of
           Inl e \<Rightarrow> (st, [Uncaught e])
         | Inr details \<Rightarrow>
             (let metadata = (case cm_fromHttp2Headers headers1 of Inl e \<Rightarrow> [] | Inr m \<Rightarrow> m);
                  status = \<lparr>st_code = code, st_details = details, st_metadata = metadata\<rparr>
              in case stack_receiveTrailers (cs_filterStack st) (Fulfilled status) of
                   Pending \<Rightarrow> (st, [])
                 | Settled r \<Rightarrow> (st\<lparr>cs_tasks := cs_tasks st @ [StatusTask r]\<rparr>, [])))"

definition on_task :: "cs_task \<Rightarrow> ('c, 'o) call_stream \<Rightarrow> ('c, 'o) call_stream \<times> 'c cs_effect list" where
  "on_task t st =
     (case t of
        MetadataTask (Inr m) \<Rightarrow> (st, [EmitMetadata m])
      | MetadataTask (Inl e) \<Rightarrow> cs_cancelWithStatus UNKNOWN (exn_message e) st
      | StatusTask (Inr s) \<Rightarrow> endCall s st
      | StatusTask (Inl e) \<Rightarrow>
          endCall \<lparr>st_code = INTERNAL, st_details = ''Failed to process received status'', st_metadata = []\<rparr> st)"

definition on_end :: "cs_env \<Rightarrow> ('c, 'o) call_stream \<Rightarrow> ('c, 'o) call_stream \<times> 'c cs_effect list" where
  "on_end env st =
     (let st0 = st\<lparr>cs_ended := True\<rparr> in
      if cs_unpushedReadMessages st0 = [] then
        (let (st1, eff, _) = do_push env None st0 in (st1, eff))
      else (st0\<lparr>cs_unpushedReadMessages := cs_unpushedReadMessages st0 @ [None]\<rparr>, []))"

text \<open>\<open>NGHTTP2_REFUSED_STREAM\<close> is 7, \<open>NGHTTP2_CANCEL\<close> 8, \<open>NGHTTP2_ENHANCE_YOUR_CALM\<close> 11 and
  \<open>NGHTTP2_INADEQUATE_SECURITY\<close> 12.\<close>

definition stream_closed_status :: "int \<Rightarrow> status_object" where
  "stream_closed_status errorCode =
     (let (code, details) =
        (if errorCode = 7 then (UNAVAILABLE, '''')
         else if errorCode = 8 then (CANCELLED, '''')
         else if errorCode = 11 then (RESOURCE_EXHAUSTED, ''Bandwidth exhausted'')
         else if errorCode = 12 then (PERMISSION_DENIED, ''Protocol not secure enough'')
         else (INTERNAL, ''''))
      in \<lparr>st_code = code, st_details = details, st_metadata = []\<rparr>)"

definition cs_attach :: "('c, 'o) call_stream \<Rightarrow> ('c, 'o) call_stream \<times> 'c cs_effect list" where
  "cs_attach st =
     (if cs_finalStatus st \<noteq> None then (st, [HttpRst])
      else
        (let st1 = st\<lparr>cs_http2Stream := True\<rparr>;
             (st2, pause) = (if \<not> cs_pendingRead st1 then (st1\<lparr>cs_paused := True\<rparr>, [HttpPause]) else (st1, []));
             finish = (case cs_pendingFinalCallback st2 of Some cb \<Rightarrow> [HttpEnd cb] | None \<Rightarrow> [])
         in case cs_pendingWrite st2 of
              None \<Rightarrow> (st2, pause @ finish)
            | Some w \<Rightarrow>
                (case cs_pendingWriteCallback st2 of
                   None \<Rightarrow> (st2, pause @ [Uncaught (JsError ''Invalid state in write handling code'')])
                 | Some cb \<Rightarrow> (st2, pause @ [HttpWrite w cb] @ finish))))"

section \<open>The methods of the duplex stream\<close>

fun read_loop ::
  "cs_env \<Rightarrow> bytes option list \<Rightarrow> ('c, 'o) call_stream \<Rightarrow> ('c, 'o) call_stream \<times> 'c cs_effect list" where
  "read_loop env [] st = (st\<lparr>cs_unpushedReadMessages := [], cs_paused := False\<rparr>, [HttpResume])"
| "read_loop env (nextMessage # rest) st =
     (let (st1, eff, keepPushing) = do_push env nextMessage (st\<lparr>cs_unpushedReadMessages := rest\<rparr>)
      in if nextMessage = None \<or> \<not> keepPushing then (st1, eff)
         else (let (st2, eff2) = read_loop env rest st1 in (st2, eff @ eff2)))"

definition cs_read :: "cs_env \<Rightarrow> ('c, 'o) call_stream \<Rightarrow> ('c, 'o) call_stream \<times> 'c cs_effect list" where
  "cs_read env st =
     (if \<not> cs_http2Stream st then (st\<lparr>cs_pendingRead := True\<rparr>, [])
      else read_loop env (cs_unpushedReadMessages st) st)"

definition encodeMessage :: "bytes \<Rightarrow> js_exn + bytes" where
  "encodeMessage message =
     (if length message < 2 ^ 32 then Inr ([0] @ writeUInt32BE (length message) @ message)
      else Inl (JsRangeError ''\"value\" argument is out of bounds''))"

definition cs_write :: "bytes \<Rightarrow> 'c \<Rightarrow> ('c, 'o) call_stream \<Rightarrow> ('c, 'o) call_stream \<times> 'c cs_effect list" where
  "cs_write chunk cb st =
     (case encodeMessage chunk of
        Inl e \<Rightarrow> (st, [Uncaught e])
      | Inr encodedMessage \<Rightarrow>
          if \<not> cs_http2Stream st then
            (st\<lparr>cs_pendingWrite := Some encodedMessage, cs_pendingWriteCallback := Some cb\<rparr>, [])
          else (st, [HttpWrite encodedMessage cb]))"

definition cs_final :: "'c \<Rightarrow> ('c, 'o) call_stream \<Rightarrow> ('c, 'o) call_stream \<times> 'c cs_effect list" where
  "cs_final cb st =
     (if \<not> cs_http2Stream st then (st\<lparr>cs_pendingFinalCallback := Some cb\<rparr>, [])
      else (st, [HttpEnd cb]))"

definition cs_getStatus :: "('c, 'o) call_stream \<Rightarrow> status_object option" where
  "cs_getStatus st = cs_finalStatus st"

definition cs_getDeadline :: "('c, 'o) call_stream \<Rightarrow> deadline" where
  "cs_getDeadline st = opt_deadline (cs_options st)"

definition cs_getCredentials :: "('c, 'o) call_stream \<Rightarrow> 'o call_credentials" where
  "cs_getCredentials st = opt_credentials (cs_options st)"

definition cs_getPeer :: "('c, 'o) call_stream \<Rightarrow> js_exn + string" where
  "cs_getPeer st = Inl (JsError ''Not yet implemented'')"

section \<open>The state machine\<close>

datatype 'c cs_event =
    Attach
  | Response headers
  | Trailers headers
  | Data bytes
  | EndOfStream
  | StreamClosed int
  | StreamError
  | RunTask
  | CancelWithStatus status string
  | ReadCall
  | WriteCall bytes 'c
  | FinalCall 'c

fun cs_step ::
  "cs_env \<Rightarrow> ('c, 'o) call_stream \<Rightarrow> 'c cs_event \<Rightarrow> ('c, 'o) call_stream \<times> 'c cs_effect list" where
  "cs_step env st Attach = cs_attach st"
| "cs_step env st (Response headers) = on_response headers st"
| "cs_step env st (Trailers headers) = on_trailers env headers st"
| "cs_step env st (Data data) = data_loop env data 0 True st"
| "cs_step env st EndOfStream = on_end env st"
| "cs_step env st (StreamClosed errorCode) = endCall (stream_closed_status errorCode) st"
| "cs_step env st StreamError =
     endCall \<lparr>st_code = INTERNAL, st_details = ''Internal HTTP2 error'', st_metadata = []\<rparr> st"
| "cs_step env st RunTask =
     (case cs_tasks st of [] \<Rightarrow> (st, []) | t # ts \<Rightarrow> on_task t (st\<lparr>cs_tasks := ts\<rparr>))"
| "cs_step env st (CancelWithStatus status details) = cs_cancelWithStatus status details st"
| "cs_step env st ReadCall = cs_read env st"
| "cs_step env st (WriteCall chunk cb) = cs_write chunk cb st"
| "cs_step env st (FinalCall cb) = cs_final cb st"

text \<open>
  What the runtime promises: the http2 events come after the stream is attached, which happens once;
  no data comes while the stream is paused, and nothing after its end.
\<close>

fun cs_legal :: "('c, 'o) call_stream \<Rightarrow> 'c cs_event \<Rightarrow> bool" where
  "cs_legal st Attach \<longleftrightarrow> \<not> cs_http2Stream st"
| "cs_legal st (Response headers) \<longleftrightarrow> cs_http2Stream st"
| "cs_legal st (Trailers headers) \<longleftrightarrow> cs_http2Stream st"
| "cs_legal st (Data data) \<longleftrightarrow> cs_http2Stream st \<and> \<not> cs_paused st \<and> \<not> cs_ended st"
| "cs_legal st EndOfStream \<longleftrightarrow> cs_http2Stream st \<and> \<not> cs_ended st"
| "cs_legal st (StreamClosed errorCode) \<longleftrightarrow> cs_http2Stream st"
| "cs_legal st StreamError \<longleftrightarrow> cs_http2Stream st"
| "cs_legal st RunTask \<longleftrightarrow> cs_tasks st \<noteq> []"
| "cs_legal st _ \<longleftrightarrow> True"

end
