(* ===== verification/Framing.thy ===== *)
theory Framing
  imports CallStream
begin

text \<open>
  The reference decoder of length-prefixed messages, one byte at a time (\<open>byte_step\<close>), and the
  refinement of it by the data handler of the call stream: the loop over a chunk does what feeding
  the chunk's bytes does, and the messages come out in order, either pushed or kept in the list of
  unpushed messages. How the bytes are cut into chunks therefore has no influence on the messages.
\<close>

section \<open>The reference decoder\<close>

datatype frame = Idle | Prefix bytes | Body nat bytes

fun byte_step :: "frame \<Rightarrow> byte \<Rightarrow> frame \<times> bytes list" where
  "byte_step Idle b = (Prefix [], [])"
| "byte_step (Prefix bs) b =
     (if length bs = 3 then
        (if readUInt32BE (bs @ [b]) = 0 then (Idle, [[]]) else (Body (readUInt32BE (bs @ [b])) [], []))
      else (Prefix (bs @ [b]), []))"
| "byte_step (Body n bs) b =
     (if Suc (length bs) = n then (Idle, [bs @ [b]]) else (Body n (bs @ [b]), []))"

abbreviation frame_after :: "frame \<Rightarrow> bytes \<Rightarrow> frame" where
  "frame_after fr bs \<equiv> final byte_step fr bs"

abbreviation frame_msgs :: "frame \<Rightarrow> bytes \<Rightarrow> bytes list" where
  "frame_msgs fr bs \<equiv> effects byte_step fr bs"

lemma prefix_partial:
  "length bs + length xs < 4 \<Longrightarrow> run byte_step (Prefix bs) xs = (Prefix (bs @ xs), [])"
  by (induction xs arbitrary: bs) (auto simp: run.simps(2))

lemma prefix_complete:
  "length bs + length xs = 4 \<Longrightarrow> xs \<noteq> [] \<Longrightarrow>
   run byte_step (Prefix bs) xs =
     (if readUInt32BE (bs @ xs) = 0 then (Idle, [[]]) else (Body (readUInt32BE (bs @ xs)) [], []))"
proof (induction xs arbitrary: bs)
  case (Cons x xs)
  show ?case
  proof (cases "xs = []")
    case True
    with Cons.prems show ?thesis by (simp add: run.simps(2))
  next
    case False
    with Cons.prems have "length bs \<noteq> 3" by (cases xs) auto
    with Cons.IH [of "bs @ [x]"] Cons.prems False show ?thesis by (simp add: run.simps(2))
  qed
qed simp

lemma body_partial:
  "length bs + length xs < n \<Longrightarrow> run byte_step (Body n bs) xs = (Body n (bs @ xs), [])"
  by (induction xs arbitrary: bs) (auto simp: run.simps(2))

lemma body_complete:
  "length bs + length xs = n \<Longrightarrow> xs \<noteq> [] \<Longrightarrow> run byte_step (Body n bs) xs = (Idle, [bs @ xs])"
proof (induction xs arbitrary: bs)
  case (Cons x xs)
  show ?case
  proof (cases "xs = []")
    case True
    with Cons.prems show ?thesis by (simp add: run.simps(2))
  next
    case False
    with Cons.prems have "Suc (length bs) \<noteq> n" by (cases xs) auto
    with Cons.IH [of "bs @ [x]"] Cons.prems False show ?thesis by (simp add: run.simps(2))
  qed
qed simp

section \<open>Decoding what was encoded\<close>

lemma unat_of_nat_byte: "n < 256 \<Longrightarrow> unat (of_nat n :: byte) = n"
  by (simp add: unat_of_nat take_bit_nat_eq_self_iff)

lemma readUInt32BE_write: "n < 2 ^ 32 \<Longrightarrow> readUInt32BE (writeUInt32BE n) = n"
proof -
  assume n: "n < 2 ^ 32"
  then have "n div 16777216 < 256" by simp
  moreover have "((n div 16777216 * 256 + n div 65536 mod 256) * 256 + n div 256 mod 256) * 256 + n mod 256 = n"
  proof -
    have d: "n div 65536 = n div 256 div 256" "n div 16777216 = n div 256 div 256 div 256"
      by (simp_all add: div_mult2_eq [symmetric])
    show ?thesis unfolding d by (simp only: div_mult_mod_eq)
  qed
  ultimately show ?thesis
    by (simp add: readUInt32BE_def writeUInt32BE_def unat_of_nat_byte del: of_nat_div of_nat_mod)
qed

lemma length_writeUInt32BE [simp]: "length (writeUInt32BE n) = 4"
  by (simp add: writeUInt32BE_def)

lemma encodeMessage_ok: "encodeMessage m = Inr w \<longleftrightarrow> length m < 2 ^ 32 \<and> w = [0] @ writeUInt32BE (length m) @ m"
  by (auto simp: encodeMessage_def)

lemma decode_encoded:
  assumes "encodeMessage m = Inr w"
  shows "run byte_step Idle w = (Idle, [m])"
proof -
  let ?p = "writeUInt32BE (length m)"
  have w: "w = [0] @ ?p @ m" and n: "readUInt32BE ?p = length m"
    using assms by (auto simp: encodeMessage_ok readUInt32BE_write)
  have p: "run byte_step (Prefix []) ?p = (if length m = 0 then (Idle, [[]]) else (Body (length m) [], []))"
    using prefix_complete [of "[]" ?p] n by (auto simp: writeUInt32BE_def)
  show ?thesis
  proof (cases "m = []")
    case True
    with w p show ?thesis by (simp add: run.simps(2))
  next
    case False
    then have "run byte_step (Body (length m) []) m = (Idle, [m])" using body_complete [of "[]" m] by simp
    with False w p show ?thesis
      by (intro prod_eqI) (simp_all add: run_append_fst run_append_snd)
  qed
qed

lemma decode_encoded_list:
  "list_all2 (\<lambda>m w. encodeMessage m = Inr w) ms ws \<Longrightarrow> run byte_step Idle (concat ws) = (Idle, ms)"
proof (induction rule: list_all2_induct)
  case (Cons m ms w ws)
  then show ?case
    using decode_encoded [of m w] by (intro prod_eqI) (simp_all add: run_append_fst run_append_snd)
qed simp

section \<open>Abstraction of the call stream's reader\<close>

definition frame_of :: "('c, 'o) call_stream \<Rightarrow> frame" where
  "frame_of st =
     (case cs_readState st of
        NO_DATA \<Rightarrow> Idle
      | READING_SIZE \<Rightarrow> Prefix (take (4 - cs_readSizeRemaining st) (cs_readPartialSize st))
      | READING_MESSAGE \<Rightarrow> Body (cs_readMessageSize st) (concat (cs_readPartialMessage st)))"

definition reader_inv :: "('c, 'o) call_stream \<Rightarrow> bool" where
  "reader_inv st \<longleftrightarrow>
     (case cs_readState st of
        NO_DATA \<Rightarrow> True
      | READING_SIZE \<Rightarrow>
          length (cs_readPartialSize st) = 4 \<and> 0 < cs_readSizeRemaining st \<and> cs_readSizeRemaining st \<le> 4 \<and>
          cs_readPartialMessage st = []
      | READING_MESSAGE \<Rightarrow>
          0 < cs_readMessageRemaining st \<and>
          length (concat (cs_readPartialMessage st)) + cs_readMessageRemaining st = cs_readMessageSize st)"

fun pushed :: "'c cs_effect list \<Rightarrow> bytes option list" where
  "pushed [] = []"
| "pushed (Push m # effs) = m # pushed effs"
| "pushed (_ # effs) = pushed effs"

lemma pushed_append [simp]: "pushed (xs @ ys) = pushed xs @ pushed ys"
  by (induction xs rule: pushed.induct) auto

text \<open>While a chunk is read: nothing is held back as long as the consumer accepts, and once it does
  not, the http2 stream is paused.\<close>

definition chunk_inv :: "bool \<Rightarrow> ('c, 'o) call_stream \<Rightarrow> bool" where
  "chunk_inv canPush st \<longleftrightarrow>
     (canPush \<longrightarrow> cs_unpushedReadMessages st = []) \<and> (\<not> canPush \<longrightarrow> cs_paused st)"

text \<open>The fields the data handler leaves alone.\<close>

definition same_call :: "('c, 'o) call_stream \<Rightarrow> ('c, 'o) call_stream \<Rightarrow> bool" where
  "same_call st st' \<longleftrightarrow>
     cs_finalStatus st' = cs_finalStatus st \<and> cs_http2Stream st' = cs_http2Stream st \<and>
     cs_ended st' = cs_ended st \<and> cs_tasks st' = cs_tasks st"

lemma same_call_refl [simp]: "same_call st st"
  by (simp add: same_call_def)

lemma same_call_trans: "same_call a b \<Longrightarrow> same_call b c \<Longrightarrow> same_call a c"
  by (simp add: same_call_def)

fun is_status :: "'c cs_effect \<Rightarrow> bool" where
  "is_status (EmitStatus s) = True"
| "is_status _ = False"

lemma tryPush_spec:
  assumes "chunk_inv canPush st" and "tryPush env m canPush st = (cp, st', eff)"
  shows "pushed eff @ cs_unpushedReadMessages st' = cs_unpushedReadMessages st @ [Some m]"
    and "chunk_inv cp st'" and "same_call st st'" and "filter is_status eff = []"
    and "cs_readState st' = cs_readState st"
  using assms
  by (auto simp: tryPush_def do_push_def chunk_inv_def same_call_def split: if_splits)

section \<open>One iteration of the loop\<close>

lemma take_buf_copy:
  assumes "length target = 4" and "at + length src \<le> 4"
  shows "take (at + length src) (buf_copy target at src) = take at target @ src"
    and "length (buf_copy target at src) = 4"
  using assms by (auto simp: buf_copy_def)

lemma length_buf_slice: "start + n \<le> length data \<Longrightarrow> length (buf_slice data start n) = n"
  by (simp add: buf_slice_def)

text \<open>The two reading states, with the number of bytes read and the bytes named.\<close>

lemma data_iter_size:
  assumes "cs_readState st = READING_SIZE" and "min (length data - readHead) (cs_readSizeRemaining st) = n"
    and "buf_slice data readHead n = xs"
    and "buf_copy (cs_readPartialSize st) (4 - cs_readSizeRemaining st) xs = copy"
  shows "data_iter env data readHead canPush st =
    (if cs_readSizeRemaining st - n = 0 then
       (if readUInt32BE copy > 0 then
          (readHead + n, canPush, st\<lparr>cs_readPartialSize := copy, cs_readSizeRemaining := 0,
             cs_readMessageSize := readUInt32BE copy, cs_readMessageRemaining := readUInt32BE copy,
             cs_readState := READING_MESSAGE\<rparr>, [])
        else
          (case tryPush env [] canPush (st\<lparr>cs_readPartialSize := copy, cs_readSizeRemaining := 0,
             cs_readMessageSize := 0, cs_readMessageRemaining := 0\<rparr>) of
             (cp, st3, eff) \<Rightarrow> (readHead + n, cp, st3\<lparr>cs_readState := NO_DATA\<rparr>, eff)))
     else (readHead + n, canPush,
             st\<lparr>cs_readPartialSize := copy, cs_readSizeRemaining := cs_readSizeRemaining st - n\<rparr>, []))"
  unfolding data_iter_def Let_def assms(1) using assms(2-4) by simp

lemma data_iter_body:
  assumes "cs_readState st = READING_MESSAGE" and "min (length data - readHead) (cs_readMessageRemaining st) = n"
    and "buf_slice data readHead n = xs"
  shows "data_iter env data readHead canPush st =
    (if cs_readMessageRemaining st - n = 0 then
       (case tryPush env (buf_concat (cs_readPartialMessage st @ [xs]) (cs_readMessageSize st)) canPush
               (st\<lparr>cs_readPartialMessage := cs_readPartialMessage st @ [xs], cs_readMessageRemaining := 0\<rparr>) of
          (cp, st2, eff) \<Rightarrow> (readHead + n, cp, st2\<lparr>cs_readState := NO_DATA\<rparr>, eff))
     else (readHead + n, canPush,
             st\<lparr>cs_readPartialMessage := cs_readPartialMessage st @ [xs],
                cs_readMessageRemaining := cs_readMessageRemaining st - n\<rparr>, []))"
  unfolding data_iter_def Let_def assms(1) using assms(2,3) by simp

lemma data_iter_refines:
  assumes inv: "reader_inv st" and chunk: "chunk_inv canPush st" and rh: "readHead < length data"
    and iter: "data_iter env data readHead canPush st = (rh', cp, st', eff)"
  shows "readHead < rh' \<and> rh' \<le> length data \<and> reader_inv st' \<and> chunk_inv cp st' \<and> same_call st st' \<and>
    filter is_status eff = [] \<and>
    frame_of st' = frame_after (frame_of st) (buf_slice data readHead (rh' - readHead)) \<and>
    pushed eff @ cs_unpushedReadMessages st' =
      cs_unpushedReadMessages st @ map Some (frame_msgs (frame_of st) (buf_slice data readHead (rh' - readHead)))"
proof (cases "cs_readState st")
  case NO_DATA
  have "buf_slice data readHead 1 = [data ! readHead]"
    using rh by (simp add: buf_slice_def take_Suc_conv_app_nth [of 0] Cons_nth_drop_Suc [symmetric])
  with NO_DATA iter rh chunk show ?thesis
    by (auto simp: data_iter_def reader_inv_def chunk_inv_def frame_of_def same_call_def)
next
  case READING_SIZE
  define n where "n = min (length data - readHead) (cs_readSizeRemaining st)"
  define xs where "xs = buf_slice data readHead n"
  define old where "old = take (4 - cs_readSizeRemaining st) (cs_readPartialSize st)"
  define copy where "copy = buf_copy (cs_readPartialSize st) (4 - cs_readSizeRemaining st) xs"
  have r: "length (cs_readPartialSize st) = 4" "0 < cs_readSizeRemaining st" "cs_readSizeRemaining st \<le> 4"
      "cs_readPartialMessage st = []"
    using inv READING_SIZE by (auto simp: reader_inv_def)
  have n: "0 < n" "n \<le> cs_readSizeRemaining st" "readHead + n \<le> length data"
    using rh r by (auto simp: n_def)
  have len: "length xs = n" "xs \<noteq> []" "length old = 4 - cs_readSizeRemaining st"
    using n r by (auto simp: xs_def length_buf_slice old_def simp flip: length_greater_0_conv)
  have cpy: "take (4 - cs_readSizeRemaining st + n) copy = old @ xs" "length copy = 4"
    using take_buf_copy [of "cs_readPartialSize st" "4 - cs_readSizeRemaining st" xs] r n len
    by (auto simp: old_def copy_def)
  have fr: "frame_of st = Prefix old" using READING_SIZE by (simp add: frame_of_def old_def)
  note it = iter [unfolded data_iter_size [OF READING_SIZE n_def [symmetric] xs_def [symmetric] copy_def [symmetric]]]
  show ?thesis
  proof (cases "cs_readSizeRemaining st - n = 0")
    case True
    with cpy n r have full: "copy = old @ xs" by simp
    have step: "run byte_step (Prefix old) xs =
        (if readUInt32BE copy = 0 then (Idle, [[]]) else (Body (readUInt32BE copy) [], []))"
      using prefix_complete [of old xs] len True r n by (simp add: full)
    show ?thesis
    proof (cases "readUInt32BE copy = 0")
      case zero: True
      let ?st2 = "st\<lparr>cs_readPartialSize := copy, cs_readSizeRemaining := 0, cs_readMessageSize := 0, cs_readMessageRemaining := 0\<rparr>"
      obtain cp3 st3 eff3 where t: "tryPush env [] canPush ?st2 = (cp3, st3, eff3)" by (metis prod_cases3)
      have "chunk_inv canPush ?st2" using chunk by (simp add: chunk_inv_def)
      from tryPush_spec [OF this t] have t': "pushed eff3 @ cs_unpushedReadMessages st3 = cs_unpushedReadMessages st @ [Some []]"
          "chunk_inv cp3 st3" "same_call st st3" "filter is_status eff3 = []"
        by (auto simp: same_call_def)
      have "rh' = readHead + n" "cp = cp3" "st' = st3\<lparr>cs_readState := NO_DATA\<rparr>" "eff = eff3"
        using it True zero t by auto
      with t' step zero fr n show ?thesis
        by (simp add: reader_inv_def chunk_inv_def same_call_def frame_of_def xs_def [symmetric])
    next
      case nonzero: False
      then have "rh' = readHead + n" "cp = canPush" "eff = []"
          "st' = st\<lparr>cs_readPartialSize := copy, cs_readSizeRemaining := 0,
             cs_readMessageSize := readUInt32BE copy, cs_readMessageRemaining := readUInt32BE copy,
             cs_readState := READING_MESSAGE\<rparr>"
        using it True by auto
      with step nonzero fr n chunk r show ?thesis
        by (simp add: reader_inv_def chunk_inv_def same_call_def frame_of_def xs_def [symmetric])
    qed
  next
    case False
    have step: "run byte_step (Prefix old) xs = (Prefix (old @ xs), [])"
      using prefix_partial [of old xs] len False n r by simp
    have e: "rh' = readHead + n" "cp = canPush" "eff = []"
        "st' = st\<lparr>cs_readPartialSize := copy, cs_readSizeRemaining := cs_readSizeRemaining st - n\<rparr>"
      using it False by auto
    have "4 - (cs_readSizeRemaining st - n) = 4 - cs_readSizeRemaining st + n" using n r by simp
    with e step fr n chunk r cpy False READING_SIZE show ?thesis
      by (simp add: reader_inv_def chunk_inv_def same_call_def frame_of_def xs_def [symmetric])
  qed
next
  case READING_MESSAGE
  define n where "n = min (length data - readHead) (cs_readMessageRemaining st)"
  define xs where "xs = buf_slice data readHead n"
  let ?old = "concat (cs_readPartialMessage st)"
  have r: "0 < cs_readMessageRemaining st" "length ?old + cs_readMessageRemaining st = cs_readMessageSize st"
    using inv READING_MESSAGE by (auto simp: reader_inv_def)
  have n: "0 < n" "n \<le> cs_readMessageRemaining st" "readHead + n \<le> length data"
    using rh r by (auto simp: n_def)
  have len: "length xs = n" "xs \<noteq> []"
    using n by (auto simp: xs_def length_buf_slice simp flip: length_greater_0_conv)
  have fr: "frame_of st = Body (cs_readMessageSize st) ?old" using READING_MESSAGE by (simp add: frame_of_def)
  note it = iter [unfolded data_iter_body [OF READING_MESSAGE n_def [symmetric] xs_def [symmetric]]]
  show ?thesis
  proof (cases "cs_readMessageRemaining st - n = 0")
    case True
    then have all: "length ?old + length xs = cs_readMessageSize st" using r len n by simp
    have step: "run byte_step (Body (cs_readMessageSize st) ?old) xs = (Idle, [?old @ xs])"
      using body_complete [of ?old xs] len all by simp
    let ?st1 = "st\<lparr>cs_readPartialMessage := cs_readPartialMessage st @ [xs], cs_readMessageRemaining := 0\<rparr>"
    have msg: "buf_concat (cs_readPartialMessage st @ [xs]) (cs_readMessageSize st) = ?old @ xs"
      using all by (simp add: buf_concat_def)
    obtain cp3 st3 eff3 where t: "tryPush env (?old @ xs) canPush ?st1 = (cp3, st3, eff3)" by (metis prod_cases3)
    have "chunk_inv canPush ?st1" using chunk by (simp add: chunk_inv_def)
    from tryPush_spec [OF this t] have t': "pushed eff3 @ cs_unpushedReadMessages st3 = cs_unpushedReadMessages st @ [Some (?old @ xs)]"
        "chunk_inv cp3 st3" "same_call st st3" "filter is_status eff3 = []"
      by (auto simp: same_call_def)
    have "rh' = readHead + n" "cp = cp3" "st' = st3\<lparr>cs_readState := NO_DATA\<rparr>" "eff = eff3"
      using it True t msg by auto
    with t' step fr n show ?thesis
      by (simp add: reader_inv_def chunk_inv_def same_call_def frame_of_def xs_def [symmetric])
  next
    case False
    have step: "run byte_step (Body (cs_readMessageSize st) ?old) xs = (Body (cs_readMessageSize st) (?old @ xs), [])"
      using body_partial [of ?old xs] len r False n by simp
    have "rh' = readHead + n" "cp = canPush" "eff = []"
        "st' = st\<lparr>cs_readPartialMessage := cs_readPartialMessage st @ [xs],
           cs_readMessageRemaining := cs_readMessageRemaining st - n\<rparr>"
      using it False by auto
    with step fr n chunk r len False READING_MESSAGE show ?thesis
      by (simp add: reader_inv_def chunk_inv_def same_call_def frame_of_def xs_def [symmetric])
  qed
qed

section \<open>The loop over a chunk\<close>

lemma data_loop_refines:
  assumes "reader_inv st" and "chunk_inv canPush st" and "readHead \<le> length data"
    and "data_loop env data readHead canPush st = (st', eff)"
  shows "reader_inv st' \<and> (\<exists>cp. chunk_inv cp st') \<and> same_call st st' \<and> filter is_status eff = [] \<and>
    frame_of st' = frame_after (frame_of st) (drop readHead data) \<and>
    pushed eff @ cs_unpushedReadMessages st' =
      cs_unpushedReadMessages st @ map Some (frame_msgs (frame_of st) (drop readHead data))"
  using assms
proof (induction env data readHead canPush st arbitrary: st' eff rule: data_loop.induct)
  case (1 env data readHead canPush st)
  show ?case
  proof (cases "readHead < length data")
    case False
    with 1 have "st' = st" "eff = []" "drop readHead data = []" by (auto simp: data_loop.simps [of env data])
    with 1 show ?thesis by auto
  next
    case True
    obtain rh cp st1 eff1 where it: "data_iter env data readHead canPush st = (rh, cp, st1, eff1)" by (metis prod_cases4)
    obtain st2 eff2 where rest: "data_loop env data rh cp st1 = (st2, eff2)" by force
    have res: "st' = st2" "eff = eff1 @ eff2"
      using 1(5) True it rest by (auto simp: data_loop.simps [of env data readHead])
    note one = data_iter_refines [OF 1(2,3) True it]
    note ih = 1(1) [OF True it [symmetric] refl refl _ _ _ rest]
    have more: "reader_inv st2 \<and> (\<exists>cp. chunk_inv cp st2) \<and> same_call st1 st2 \<and> filter is_status eff2 = [] \<and>
        frame_of st2 = frame_after (frame_of st1) (drop rh data) \<and>
        pushed eff2 @ cs_unpushedReadMessages st2 =
          cs_unpushedReadMessages st1 @ map Some (frame_msgs (frame_of st1) (drop rh data))"
      using ih one by blast
    have split: "drop readHead data = buf_slice data readHead (rh - readHead) @ drop rh data"
    proof -
      have "drop rh data = drop (rh - readHead) (drop readHead data)" using one by simp
      then show ?thesis unfolding buf_slice_def by (metis append_take_drop_id)
    qed
    have "pushed eff @ cs_unpushedReadMessages st2 =
        cs_unpushedReadMessages st @ map Some (frame_msgs (frame_of st) (drop readHead data))"
      using one more res by (simp add: split run_append_snd)
    with one more res show ?thesis
      by (auto simp: split run_append_fst intro: same_call_trans)
  qed
qed

end
