(* ===== verification/CallStreamFacts.thy ===== *)
theory CallStreamFacts
  imports Framing
begin

text \<open>
  The call stream as a whole: its invariant, the status that ends it at most once (an interpretation
  of \<open>latch\<close>), and the delivery of the messages of the http2 stream to the consumer, in order, across
  all handlers.
\<close>

section \<open>The invariant\<close>

text \<open>Messages are held back only while the http2 stream is paused.\<close>

definition cs_inv :: "('c, 'o) call_stream \<Rightarrow> bool" where
  "cs_inv st \<longleftrightarrow> reader_inv st \<and> (cs_unpushedReadMessages st \<noteq> [] \<longrightarrow> cs_paused st)"

definition is_ended :: "('c, 'o) call_stream \<Rightarrow> bool" where
  "is_ended st \<longleftrightarrow> cs_finalStatus st \<noteq> None"

lemma cs_inv_new [simp]: "cs_inv (cs_new opts factories)"
  by (simp add: cs_inv_def cs_new_def reader_inv_def)

text \<open>The part of the state that decoding and delivery depend on.\<close>

definition same_reader :: "('c, 'o) call_stream \<Rightarrow> ('c, 'o) call_stream \<Rightarrow> bool" where
  "same_reader st st' \<longleftrightarrow>
     cs_readState st' = cs_readState st \<and> cs_readPartialSize st' = cs_readPartialSize st \<and>
     cs_readSizeRemaining st' = cs_readSizeRemaining st \<and> cs_readMessageSize st' = cs_readMessageSize st \<and>
     cs_readPartialMessage st' = cs_readPartialMessage st \<and>
     cs_readMessageRemaining st' = cs_readMessageRemaining st"

lemma same_reader_frame: "same_reader st st' \<Longrightarrow> frame_of st' = frame_of st \<and> reader_inv st' = reader_inv st"
  by (cases "cs_readState st") (simp_all add: same_reader_def frame_of_def reader_inv_def)

lemma same_reader_refl [simp]: "same_reader st st"
  by (simp add: same_reader_def)

lemma same_reader_upd [simp]:
  "same_reader st (st\<lparr>cs_ended := b, cs_pushes := n\<rparr>)"
  "same_reader st (st\<lparr>cs_ended := b, cs_unpushedReadMessages := u\<rparr>)"
  "same_reader st (st\<lparr>cs_pendingRead := b\<rparr>)"
  by (simp_all add: same_reader_def)

lemma endCall_effect:
  assumes "endCall s st = (st', eff)"
  shows "same_reader st st'" "cs_unpushedReadMessages st' = cs_unpushedReadMessages st"
    "cs_paused st' = cs_paused st" "cs_ended st' = cs_ended st" "pushed eff = []"
    "is_ended st'" "filter is_status eff = (if is_ended st then [] else [EmitStatus s])"
    "cs_finalStatus st' = (if is_ended st then cs_finalStatus st else Some s)"
    "cs_http2Stream st' = cs_http2Stream st"
  using assms by (auto simp: endCall_def same_reader_def is_ended_def split: option.splits)

lemma cancel_effect:
  assumes "cs_cancelWithStatus c d st = (st', eff)"
  shows "same_reader st st'" "cs_unpushedReadMessages st' = cs_unpushedReadMessages st"
    "cs_paused st' = cs_paused st" "cs_ended st' = cs_ended st" "pushed eff = []" "is_ended st'"
    "length (filter is_status eff) = (if is_ended st then 0 else 1)"
    "cs_finalStatus st' = (if is_ended st then cs_finalStatus st
       else Some \<lparr>st_code = c, st_details = d, st_metadata = []\<rparr>)"
proof -
  obtain st1 eff1 where e: "endCall \<lparr>st_code = c, st_details = d, st_metadata = []\<rparr> st = (st1, eff1)" by force
  have "st' = st1" "eff = eff1 @ (if cs_http2Stream st1 then [HttpRst] else [])"
    using assms e by (auto simp: cs_cancelWithStatus_def)
  with endCall_effect [OF e]
  show "same_reader st st'" "cs_unpushedReadMessages st' = cs_unpushedReadMessages st"
    "cs_paused st' = cs_paused st" "cs_ended st' = cs_ended st" "pushed eff = []" "is_ended st'"
    "length (filter is_status eff) = (if is_ended st then 0 else 1)"
    "cs_finalStatus st' = (if is_ended st then cs_finalStatus st
       else Some \<lparr>st_code = c, st_details = d, st_metadata = []\<rparr>)"
    by auto
qed

text \<open>The handlers that neither decode nor push.\<close>

fun quiet :: "'c cs_event \<Rightarrow> bool" where
  "quiet (Data d) \<longleftrightarrow> False"
| "quiet EndOfStream \<longleftrightarrow> False"
| "quiet ReadCall \<longleftrightarrow> False"
| "quiet _ \<longleftrightarrow> True"

lemma quiet_step:
  assumes "quiet e" and "cs_step env st e = (st', eff)"
  shows "same_reader st st' \<and> cs_unpushedReadMessages st' = cs_unpushedReadMessages st \<and>
    (cs_paused st \<longrightarrow> cs_paused st') \<and> cs_ended st' = cs_ended st \<and> pushed eff = [] \<and>
    (is_ended st \<longrightarrow> cs_finalStatus st' = cs_finalStatus st) \<and>
    length (filter is_status eff) = (if \<not> is_ended st \<and> is_ended st' then 1 else 0)"
proof (cases e)
  case Attach
  with assms show ?thesis
    by (auto simp: cs_attach_def same_reader_def is_ended_def Let_def split: if_splits option.splits)
next
  case (Response headers)
  let ?st1 = "st\<lparr>cs_mappedStatusCode := map_http_status (map_of headers '':status'')\<rparr>"
  show ?thesis
  proof (cases "cm_fromHttp2Headers (obj_del ''content-type'' (obj_del '':status'' headers))")
    case (Inl ex)
    with assms Response have "cs_cancelWithStatus UNKNOWN (exn_message ex) ?st1 = (st', eff)"
      by (simp add: on_response_def)
    from cancel_effect [OF this] show ?thesis by (auto simp: same_reader_def is_ended_def)
  next
    case (Inr m)
    with assms Response show ?thesis
      by (auto simp: on_response_def Let_def same_reader_def is_ended_def split: promise.splits)
  qed
next
  case (Trailers headers)
  with assms show ?thesis
    by (auto simp: on_trailers_def same_reader_def is_ended_def Let_def split: option.splits sum.splits promise.splits)
next
  case (StreamClosed errorCode)
  with assms have "endCall (stream_closed_status errorCode) st = (st', eff)" by simp
  from endCall_effect [OF this] show ?thesis by auto
next
  case StreamError
  with assms have "endCall \<lparr>st_code = INTERNAL, st_details = ''Internal HTTP2 error'', st_metadata = []\<rparr> st = (st', eff)"
    by simp
  from endCall_effect [OF this] show ?thesis by auto
next
  case RunTask
  show ?thesis
  proof (cases "cs_tasks st")
    case Nil
    with RunTask assms show ?thesis by auto
  next
    case (Cons t ts)
    let ?st1 = "st\<lparr>cs_tasks := ts\<rparr>"
    from Cons RunTask assms have t: "on_task t ?st1 = (st', eff)" by simp
    have same: "same_reader st ?st1" "is_ended ?st1 = is_ended st" by (simp_all add: same_reader_def is_ended_def)
    show ?thesis
    proof (cases t)
      case (MetadataTask r)
      with t show ?thesis
        by (cases r) (auto simp: on_task_def same_reader_def is_ended_def dest: cancel_effect)
    next
      case (StatusTask r)
      with t show ?thesis
        by (cases r) (auto simp: on_task_def same_reader_def is_ended_def dest: endCall_effect)
    qed
  qed
next
  case (CancelWithStatus c d)
  with assms have "cs_cancelWithStatus c d st = (st', eff)" by simp
  from cancel_effect [OF this] show ?thesis by auto
next
  case (WriteCall chunk cb)
  with assms show ?thesis
    by (auto simp: cs_write_def same_reader_def is_ended_def split: sum.splits if_splits)
next
  case (FinalCall cb)
  with assms show ?thesis by (auto simp: cs_final_def same_reader_def is_ended_def split: if_splits)
qed (use assms in auto)

lemma read_loop_effect:
  assumes "read_loop env unp st = (st', eff)" and "cs_unpushedReadMessages st = unp"
  shows "same_reader st st' \<and> cs_finalStatus st' = cs_finalStatus st \<and> cs_ended st' = cs_ended st \<and>
    filter is_status eff = [] \<and> pushed eff @ cs_unpushedReadMessages st' = unp \<and>
    (cs_unpushedReadMessages st' \<noteq> [] \<longrightarrow> cs_paused st' = cs_paused st)"
  using assms
proof (induction unp arbitrary: st st' eff)
  case Nil
  then show ?case by (auto simp: same_reader_def)
next
  case (Cons m rest)
  let ?st1 = "st\<lparr>cs_unpushedReadMessages := rest, cs_pushes := Suc (cs_pushes st)\<rparr>"
  show ?case
  proof (cases "m = None \<or> \<not> push_result env (cs_pushes st)")
    case True
    with Cons.prems show ?thesis by (auto simp: do_push_def same_reader_def)
  next
    case False
    obtain st2 eff2 where r: "read_loop env rest ?st1 = (st2, eff2)" by force
    from Cons.IH [OF r] False Cons.prems r show ?thesis by (auto simp: do_push_def same_reader_def)
  qed
qed

section \<open>One step: what is delivered\<close>

text \<open>The items an event brings for the consumer: decoded messages and the end of the stream.\<close>

fun received_items :: "frame \<Rightarrow> 'c cs_event \<Rightarrow> bytes option list" where
  "received_items fr (Data d) = map Some (frame_msgs fr d)"
| "received_items fr EndOfStream = [None]"
| "received_items fr _ = []"

fun next_frame :: "frame \<Rightarrow> 'c cs_event \<Rightarrow> frame" where
  "next_frame fr (Data d) = frame_after fr d"
| "next_frame fr _ = fr"

lemma quiet_items: "quiet e \<Longrightarrow> received_items fr e = [] \<and> next_frame fr e = fr"
  by (cases e) auto

lemma cs_step_effect:
  assumes inv: "cs_inv st" and legal: "cs_legal st e" and step: "cs_step env st e = (st', eff)"
  shows "cs_inv st' \<and> frame_of st' = next_frame (frame_of st) e \<and>
    pushed eff @ cs_unpushedReadMessages st' = cs_unpushedReadMessages st @ received_items (frame_of st) e \<and>
    (is_ended st \<longrightarrow> cs_finalStatus st' = cs_finalStatus st) \<and>
    length (filter is_status eff) = (if \<not> is_ended st \<and> is_ended st' then 1 else 0) \<and>
    cs_ended st' = (cs_ended st \<or> e = EndOfStream)"
proof (cases "quiet e")
  case True
  with quiet_step [OF True step] same_reader_frame [of st st'] inv quiet_items [OF True, of "frame_of st"]
  show ?thesis by (cases e) (auto simp: cs_inv_def)
next
  case False
  then consider (data) d where "e = Data d" | (eos) "e = EndOfStream" | (read) "e = ReadCall"
    by (cases e) auto
  then show ?thesis
  proof cases
    case data
    then have unp: "cs_unpushedReadMessages st = []" using inv legal by (auto simp: cs_inv_def)
    have l: "data_loop env d 0 True st = (st', eff)" using step data by simp
    have "reader_inv st" "chunk_inv True st" using inv unp by (auto simp: cs_inv_def chunk_inv_def)
    from data_loop_refines [OF this _ l] unp data show ?thesis
      by (auto simp: cs_inv_def chunk_inv_def same_call_def is_ended_def)
  next
    case eos
    with step have "same_reader st st'" by (auto simp: on_end_def do_push_def Let_def split: if_splits)
    from same_reader_frame [OF this] step eos inv show ?thesis
      by (auto simp: on_end_def do_push_def Let_def cs_inv_def is_ended_def split: if_splits)
  next
    case read
    show ?thesis
    proof (cases "cs_http2Stream st")
      case True
      with step read have "read_loop env (cs_unpushedReadMessages st) st = (st', eff)" by (simp add: cs_read_def)
      from read_loop_effect [OF this refl] read inv same_reader_frame [of st st'] show ?thesis
        by (auto simp: cs_inv_def is_ended_def)
    next
      case False
      with step read have "same_reader st st'" by (auto simp: cs_read_def)
      from same_reader_frame [OF this] False step read inv show ?thesis
        by (auto simp: cs_read_def cs_inv_def is_ended_def)
    qed
  qed
qed

section \<open>The status is a latch\<close>

interpretation call_latch: latch "cs_step env" cs_legal cs_inv is_ended is_status
  for env :: cs_env
proof unfold_locales
  fix st :: "('a, 'b) call_stream" and e
  assume a: "cs_inv st" "cs_legal st e"
  obtain st' eff where step: "cs_step env st e = (st', eff)" by force
  note eff = cs_step_effect [OF a step]
  show "cs_inv (fst (cs_step env st e))" using eff step by simp
  show "is_ended st \<Longrightarrow> is_ended (fst (cs_step env st e))" using eff step by (simp add: is_ended_def)
  show "length (filter is_status (snd (cs_step env st e))) =
      (if \<not> is_ended st \<and> is_ended (fst (cs_step env st e)) then 1 else 0)"
    using eff step by simp
qed

lemma final_status_stays:
  "\<lbrakk>cs_inv st; legal_run (cs_step env) cs_legal st es; cs_finalStatus st = Some s\<rbrakk> \<Longrightarrow>
   cs_finalStatus (final (cs_step env) st es) = Some s"
proof (induction es arbitrary: st)
  case (Cons e es)
  obtain st' eff where step: "cs_step env st e = (st', eff)" by force
  with Cons.prems have "cs_finalStatus st' = Some s" "cs_inv st'"
    using cs_step_effect [of st e env st' eff] by (auto simp: is_ended_def)
  with Cons step show ?case by simp
qed simp

section \<open>Runs\<close>

fun data_of :: "'c cs_event list \<Rightarrow> bytes" where
  "data_of [] = []"
| "data_of (Data d # es) = d @ data_of es"
| "data_of (_ # es) = data_of es"

lemma ended_no_data:
  "\<lbrakk>cs_inv st; legal_run (cs_step env) cs_legal st es; cs_ended st\<rbrakk> \<Longrightarrow> data_of es = [] \<and> EndOfStream \<notin> set es"
proof (induction es arbitrary: st)
  case (Cons e es)
  obtain st' eff where step: "cs_step env st e = (st', eff)" by force
  with Cons.prems have st': "cs_inv st'" "cs_ended st'" using cs_step_effect [of st e env st' eff] by auto
  with Cons step have "data_of es = [] \<and> EndOfStream \<notin> set es" by simp
  with Cons.prems show ?case by (cases e) auto
qed simp

lemma delivery:
  "\<lbrakk>cs_inv st; legal_run (cs_step env) cs_legal st es; \<not> cs_ended st\<rbrakk> \<Longrightarrow>
   pushed (effects (cs_step env) st es) @ cs_unpushedReadMessages (final (cs_step env) st es) =
   cs_unpushedReadMessages st @ map Some (frame_msgs (frame_of st) (data_of es)) @
     (if EndOfStream \<in> set es then [None] else [])"
proof (induction es arbitrary: st)
  case Nil
  then show ?case by simp
next
  case (Cons e es)
  obtain st' eff where step: "cs_step env st e = (st', eff)" by force
  have legal': "legal_run (cs_step env) cs_legal st' es" and le: "cs_legal st e" using Cons.prems step by auto
  note one = cs_step_effect [OF Cons.prems(1) le step]
  show ?case
  proof (cases "e = EndOfStream")
    case True
    have tail: "pushed (effects (cs_step env) s fs) @ cs_unpushedReadMessages (final (cs_step env) s fs) =
        cs_unpushedReadMessages s"
      if "cs_inv s" "legal_run (cs_step env) cs_legal s fs" "cs_ended s" for s :: "('a, 'b) call_stream" and fs
      using that
    proof (induction fs arbitrary: s)
      case (Cons f fs)
      obtain s1 eff1 where s1: "cs_step env s f = (s1, eff1)" by force
      have "received_items (frame_of s) f = []"
        using ended_no_data [OF Cons.prems] Cons.prems by (cases f) auto
      with Cons s1 cs_step_effect [of s f env s1 eff1] show ?case by (auto simp: append.assoc)
    qed simp
    have "data_of es = [] \<and> EndOfStream \<notin> set es"
      using one True legal' by (intro ended_no_data) auto
    with tail [of st' es] one True legal' step show ?thesis by auto
  next
    case False
    with one Cons.prems have "\<not> cs_ended st'" by simp
    from Cons.IH [OF _ legal' this] one False step show ?thesis
      by (cases e) (auto simp: run_append_snd)
  qed
qed

text \<open>If the bytes a legal run receives are the concatenated frames that encodeMessage makes
  of some messages, the call stream delivers exactly those messages, in order,
  wherever the chunk boundaries fall.\<close>

lemma encode_then_deliver:
  assumes "legal_run (cs_step env) cs_legal (cs_new opts factories) es"
    and "list_all2 (\<lambda>m w. encodeMessage m = Inr w) ms ws" and "data_of es = concat ws"
  shows "pushed (effects (cs_step env) (cs_new opts factories) es) @
      cs_unpushedReadMessages (final (cs_step env) (cs_new opts factories) es) =
    map Some ms @ (if EndOfStream \<in> set es then [None] else [])"
  using delivery [OF cs_inv_new assms(1)] decode_encoded_list [OF assms(2)] assms(3)
  by (simp add: cs_new_def frame_of_def)

section \<open>Settled promises\<close>

text \<open>A continuation leaves the queue alone, so one queued last runs after those before it.\<close>

lemma on_task_queue:
  "on_task t (st\<lparr>cs_tasks := ts\<rparr>) = ((fst (on_task t st))\<lparr>cs_tasks := ts\<rparr>, snd (on_task t st))"
  by (auto simp: on_task_def cs_cancelWithStatus_def endCall_def Let_def
      split: cs_task.split sum.split option.split)

lemma tasks_run:
  "run (cs_step env) (st\<lparr>cs_tasks := ts @ rest\<rparr>) (replicate (length ts) RunTask) =
     ((final (cs_step env) (st\<lparr>cs_tasks := ts\<rparr>) (replicate (length ts) RunTask))\<lparr>cs_tasks := rest\<rparr>,
      effects (cs_step env) (st\<lparr>cs_tasks := ts\<rparr>) (replicate (length ts) RunTask))"
proof (induction ts arbitrary: st)
  case (Cons t ts)
  show ?case
    using Cons.IH [of "fst (on_task t st)"]
    by (simp add: on_task_queue [of t _ st] prod_eq_iff)
qed (simp add: prod_eq_iff)

lemma tasks_then:
  "effects (cs_step env) (st\<lparr>cs_tasks := cs_tasks st @ [t]\<rparr>) (replicate (length (cs_tasks st)) RunTask @ [RunTask]) =
     effects (cs_step env) st (replicate (length (cs_tasks st)) RunTask) @
     snd (on_task t ((final (cs_step env) st (replicate (length (cs_tasks st)) RunTask))\<lparr>cs_tasks := []\<rparr>))"
  using tasks_run [of env "cs_tasks st" "[t]" st] by (simp add: run_append_snd)

end
