(* ===== verification/Channel.thy ===== *)
theory Channel
  imports FilterFacts CallStreamFacts
begin

text \<open>
  \<open>grpc-js-core/src/channel.ts\<close>: the connectivity state of an \<open>Http2Channel\<close>, its one subchannel, the
  callbacks waiting for a connection (the once-listeners of \<open>connectivityStateChanged\<close>) and the start
  of streams. Sessions are numbered in the order they are created; the field \<open>subChannel\<close> is undefined
  until the first one, as the class does not initialise it.
\<close>

section \<open>State\<close>

datatype conn_state = CONNECTING | READY | TRANSIENT_FAILURE | IDLE | SHUTDOWN

datatype sub_channel = SubUndefined | SubNull | SubSession nat

record 'cb channel =
  ch_state :: conn_state
  ch_sub :: sub_channel
  ch_listeners :: "'cb list"
  ch_sessions :: nat

datatype 'cb ch_effect =
    StateChanged conn_state
  | HttpConnect nat "secure_context option"
  | SessionShutdown nat
  | RunCallback 'cb
  | ImmediateCallback 'cb
  | StreamRequest nat headers
  | StreamRestart
  | StreamCancel status string
  | ChThrow js_exn

definition ch_new :: "'cb channel" where
  "ch_new = \<lparr>ch_state = IDLE, ch_sub = SubUndefined, ch_listeners = [], ch_sessions = 0\<rparr>"

text \<open>The protocol the constructor gives the address, and the filters of the channel's calls.\<close>

definition channel_protocol :: "'o channel_credentials \<Rightarrow> string" where
  "channel_protocol credentials = (if getSecureContext credentials = None then ''http'' else ''https'')"

definition channel_factories :: "'o channel_credentials \<Rightarrow> 'o filter_factory list" where
  "channel_factories credentials =
     [CompressionFilterFactory, CallCredentialsFilterFactory (getCallCredentials credentials), DeadlineFilterFactory]"

section \<open>Connectivity\<close>

text \<open>Emitting the change removes every once-listener and runs the callbacks if the state is \<open>READY\<close>.\<close>

definition transitionToState :: "conn_state \<Rightarrow> 'cb channel \<Rightarrow> 'cb channel \<times> 'cb ch_effect list" where
  "transitionToState newState ch =
     (if newState \<noteq> ch_state ch then
        (ch\<lparr>ch_state := newState, ch_listeners := []\<rparr>,
         StateChanged newState # (if newState = READY then map RunCallback (ch_listeners ch) else []))
      else (ch, []))"

definition startConnecting :: "secure_context option \<Rightarrow> 'cb channel \<Rightarrow> 'cb channel \<times> 'cb ch_effect list" where
  "startConnecting ctx ch =
     (let (ch1, eff) = transitionToState CONNECTING ch; n = ch_sessions ch1
      in (ch1\<lparr>ch_sub := SubSession n, ch_sessions := Suc n\<rparr>, eff @ [HttpConnect n ctx]))"

text \<open>\<open>shutdown\<close> on the subchannel, which is not null: undefined has no such method.\<close>

definition shutdownSub :: "sub_channel \<Rightarrow> 'cb ch_effect list option" where
  "shutdownSub sub = (case sub of SubSession n \<Rightarrow> Some [SessionShutdown n] | _ \<Rightarrow> None)"

definition undefined_shutdown :: js_exn where
  "undefined_shutdown = JsTypeError ''Cannot read property 'shutdown' of undefined''"

definition goIdle :: "'cb channel \<Rightarrow> 'cb channel \<times> 'cb ch_effect list" where
  "goIdle ch =
     (if ch_sub ch \<noteq> SubNull then
        (case shutdownSub (ch_sub ch) of
           None \<Rightarrow> (ch, [ChThrow undefined_shutdown])
         | Some eff \<Rightarrow> (let (ch1, eff1) = transitionToState IDLE (ch\<lparr>ch_sub := SubNull\<rparr>) in (ch1, eff @ eff1)))
      else transitionToState IDLE ch)"

definition kickConnectivityState :: "secure_context option \<Rightarrow> 'cb channel \<Rightarrow> 'cb channel \<times> 'cb ch_effect list" where
  "kickConnectivityState ctx ch = (if ch_state ch = IDLE then startConnecting ctx ch else (ch, []))"

definition ch_connect :: "secure_context option \<Rightarrow> 'cb \<Rightarrow> 'cb channel \<Rightarrow> 'cb channel \<times> 'cb ch_effect list" where
  "ch_connect ctx callback ch =
     (let (ch1, eff) = kickConnectivityState ctx ch in
      if ch_state ch1 = READY then (ch1, eff @ [ImmediateCallback callback])
      else (ch1\<lparr>ch_listeners := ch_listeners ch1 @ [callback]\<rparr>, eff))"

definition getConnectivityState :: "'cb channel \<Rightarrow> conn_state" where
  "getConnectivityState ch = ch_state ch"

definition channel_shut_down :: js_exn where
  "channel_shut_down = JsError ''Channel has been shut down''"

definition ch_close :: "'cb channel \<Rightarrow> 'cb channel \<times> 'cb ch_effect list" where
  "ch_close ch =
     (if ch_state ch = SHUTDOWN then (ch, [ChThrow channel_shut_down])
      else
        (let (ch1, eff) = transitionToState SHUTDOWN ch in
         if ch_sub ch1 \<noteq> SubNull then
           (case shutdownSub (ch_sub ch1) of
              None \<Rightarrow> (ch1, eff @ [ChThrow undefined_shutdown])
            | Some eff1 \<Rightarrow> (ch1, eff @ eff1))
         else (ch1, eff)))"

section \<open>Streams\<close>

record 'o partial_options =
  po_deadline :: "deadline option"
  po_credentials :: "'o call_credentials option"
  po_flags :: "int option"

definition stream_options :: "'o partial_options \<Rightarrow> 'o call_options" where
  "stream_options options =
     \<lparr>opt_deadline = (case po_deadline options of Some d \<Rightarrow> d | None \<Rightarrow> Infinite),
      opt_credentials = (case po_credentials options of Some c \<Rightarrow> c | None \<Rightarrow> createEmpty),
      opt_flags = (case po_flags options of Some f \<Rightarrow> f | None \<Rightarrow> 0)\<rparr>"

definition request_headers :: "string \<Rightarrow> string \<Rightarrow> metadata \<Rightarrow> headers" where
  "request_headers hostname methodName metadataValue =
     obj_put ''te'' (HStr ''trailers'')
       (obj_put '':path'' (HStr methodName)
          (obj_put '':method'' (HStr ''POST'')
             (obj_put ''content-type'' (HStr ''application/grpc'')
                (obj_put '':authority'' (HStr hostname) (cm_toHttp2Headers metadataValue)))))"

text \<open>The continuation of \<open>startHttp2Stream\<close>, once the channel is connected and the metadata promise has
  settled; \<open>ended\<close> says whether the stream has a status already, \<open>refused\<close> whether \<open>session.request\<close>
  throws (a session that was destroyed, headers it does not take). A request on a subchannel that is
  null throws, too; what is thrown here rejects the promise of \<open>then\<close>, which nobody handles.\<close>

definition on_final_metadata ::
  "string \<Rightarrow> string \<Rightarrow> js_exn + metadata \<Rightarrow> bool \<Rightarrow> js_exn option \<Rightarrow> 'cb channel \<Rightarrow> 'cb channel \<times> 'cb ch_effect list" where
  "on_final_metadata hostname methodName finalMetadata ended refused ch =
     (case finalMetadata of
        Inl error \<Rightarrow> (ch, [StreamCancel UNKNOWN ''Failed to generate metadata''])
      | Inr metadataValue \<Rightarrow>
          (let headers = request_headers hostname methodName metadataValue in
           if \<not> ended then
             (if ch_state ch = READY then
                (case ch_sub ch of
                   SubSession n \<Rightarrow>
                     (case refused of None \<Rightarrow> (ch, [StreamRequest n headers]) | Some exn \<Rightarrow> (ch, [ChThrow exn]))
                 | _ \<Rightarrow> (ch, [ChThrow (JsTypeError ''Cannot read property 'request' of null'')]))
              else (ch, [StreamRestart]))
           else (ch, [])))"

text \<open>\<open>startHttp2Stream\<close>: with a finite deadline its filter asks for the connection first
  (\<open>filter_cb\<close>), then the stream does (\<open>stream_cb\<close>).\<close>

definition startHttp2Stream ::
  "secure_context option \<Rightarrow> 'o call_options \<Rightarrow> 'cb \<Rightarrow> 'cb \<Rightarrow> 'cb channel \<Rightarrow> 'cb channel \<times> 'cb ch_effect list" where
  "startHttp2Stream ctx opts filter_cb stream_cb ch =
     (let (ch1, eff1) = (if opt_deadline opts = Infinite then (ch, []) else ch_connect ctx filter_cb ch);
          (ch2, eff2) = ch_connect ctx stream_cb ch1
      in (ch2, eff1 @ eff2))"

definition createStream ::
  "secure_context option \<Rightarrow> 'o partial_options \<Rightarrow> 'cb \<Rightarrow> 'cb \<Rightarrow> 'cb channel \<Rightarrow> 'cb channel \<times> 'cb ch_effect list" where
  "createStream ctx options filter_cb stream_cb ch =
     (if ch_state ch = SHUTDOWN then (ch, [ChThrow channel_shut_down])
      else startHttp2Stream ctx (stream_options options) filter_cb stream_cb ch)"

section \<open>The state machine\<close>

datatype ('o, 'cb) ch_event =
    ChConnect 'cb
  | CreateStream "'o partial_options" 'cb 'cb
  | RestartStream "'o call_options" 'cb 'cb
  | FinalMetadata string "js_exn + metadata" bool "js_exn option"
  | SessionConnected nat
  | SessionTimeout nat
  | ChClose

record ch_env =
  che_context :: "secure_context option"
  che_hostname :: string

fun ch_step :: "ch_env \<Rightarrow> 'cb channel \<Rightarrow> ('o, 'cb) ch_event \<Rightarrow> 'cb channel \<times> 'cb ch_effect list" where
  "ch_step env ch (ChConnect cb) = ch_connect (che_context env) cb ch"
| "ch_step env ch (CreateStream options f s) = createStream (che_context env) options f s ch"
| "ch_step env ch (RestartStream opts f s) = startHttp2Stream (che_context env) opts f s ch"
| "ch_step env ch (FinalMetadata methodName md ended refused) =
     on_final_metadata (che_hostname env) methodName md ended refused ch"
| "ch_step env ch (SessionConnected n) = transitionToState READY ch"
| "ch_step env ch (SessionTimeout n) = goIdle ch"
| "ch_step env ch ChClose = ch_close ch"

text \<open>Sessions report only after they are created, and may do so at any time: after they were asked to
  shut down, too.\<close>

fun ch_legal :: "'cb channel \<Rightarrow> ('o, 'cb) ch_event \<Rightarrow> bool" where
  "ch_legal ch (SessionConnected n) \<longleftrightarrow> n < ch_sessions ch"
| "ch_legal ch (SessionTimeout n) \<longleftrightarrow> n < ch_sessions ch"
| "ch_legal ch _ \<longleftrightarrow> True"

lemmas channel_defs = transitionToState_def startConnecting_def shutdownSub_def goIdle_def
  kickConnectivityState_def ch_connect_def ch_close_def createStream_def startHttp2Stream_def
  on_final_metadata_def

text \<open>Starting a stream is one or two connects.\<close>

lemma startHttp2Stream_connects:
  "startHttp2Stream ctx opts f s ch =
     (if opt_deadline opts = Infinite then ch_connect ctx s ch
      else (fst (ch_connect ctx s (fst (ch_connect ctx f ch))),
            snd (ch_connect ctx f ch) @ snd (ch_connect ctx s (fst (ch_connect ctx f ch)))))"
  by (simp add: startHttp2Stream_def Let_def case_prod_beta)

section \<open>Closing\<close>

text \<open>The events of a session, which the channel does not control.\<close>

fun session_event :: "('o, 'cb) ch_event \<Rightarrow> bool" where
  "session_event (SessionConnected n) \<longleftrightarrow> True"
| "session_event (SessionTimeout n) \<longleftrightarrow> True"
| "session_event _ \<longleftrightarrow> False"

text \<open>Effects that are something done: a connection, a request or a callback.\<close>

fun acts :: "'cb ch_effect \<Rightarrow> bool" where
  "acts (HttpConnect n c) \<longleftrightarrow> True"
| "acts (StreamRequest n h) \<longleftrightarrow> True"
| "acts (RunCallback cb) \<longleftrightarrow> True"
| "acts (ImmediateCallback cb) \<longleftrightarrow> True"
| "acts (StateChanged x) \<longleftrightarrow> True"
| "acts _ \<longleftrightarrow> False"

lemma ch_connect_shutdown:
  "ch_state ch = SHUTDOWN \<Longrightarrow> ch_connect ctx cb ch = (ch\<lparr>ch_listeners := ch_listeners ch @ [cb]\<rparr>, [])"
  by (simp add: ch_connect_def kickConnectivityState_def)

lemma startHttp2Stream_shutdown:
  "ch_state ch = SHUTDOWN \<Longrightarrow> ch_state (fst (startHttp2Stream ctx opts f s ch)) = SHUTDOWN \<and>
   snd (startHttp2Stream ctx opts f s ch) = []"
  by (simp add: startHttp2Stream_connects ch_connect_shutdown)

text \<open>Only a session leads out of \<open>SHUTDOWN\<close>.\<close>

lemma ch_step_shutdown:
  assumes "ch_state ch = SHUTDOWN" "\<not> session_event e"
  shows "ch_state (fst (ch_step env ch e)) = SHUTDOWN \<and> filter acts (snd (ch_step env ch e)) = []"
  using assms by (cases e)
    (auto simp: ch_connect_shutdown startHttp2Stream_shutdown createStream_def ch_close_def on_final_metadata_def Let_def
      split: sum.split)

lemma ch_run_shutdown:
  "\<lbrakk>ch_state ch = SHUTDOWN; \<not> list_ex session_event es\<rbrakk> \<Longrightarrow>
   ch_state (final (ch_step env) ch es) = SHUTDOWN \<and> filter acts (effects (ch_step env) ch es) = []"
  by (induction es arbitrary: ch) (use ch_step_shutdown in auto)

lemma ch_close_closes: "ch_state (fst (ch_close ch)) = SHUTDOWN"
  by (auto simp: ch_close_def transitionToState_def shutdownSub_def Let_def split: sub_channel.split)

section \<open>The subchannel\<close>

text \<open>The sessions a run has opened and those it has asked to shut down.\<close>

fun opened :: "'cb ch_effect list \<Rightarrow> nat list" where
  "opened [] = []"
| "opened (HttpConnect n ctx # es) = n # opened es"
| "opened (_ # es) = opened es"

fun told_to_shut_down :: "'cb ch_effect list \<Rightarrow> nat list" where
  "told_to_shut_down [] = []"
| "told_to_shut_down (SessionShutdown n # es) = n # told_to_shut_down es"
| "told_to_shut_down (_ # es) = told_to_shut_down es"

lemma opened_append [simp]: "opened (xs @ ys) = opened xs @ opened ys"
  by (induction xs rule: opened.induct) auto

lemma told_append [simp]: "told_to_shut_down (xs @ ys) = told_to_shut_down xs @ told_to_shut_down ys"
  by (induction xs rule: told_to_shut_down.induct) auto

lemma opened_map_run [simp]: "opened (map RunCallback cbs) = []" "told_to_shut_down (map RunCallback cbs) = []"
  by (induction cbs) auto

text \<open>The subchannel is the session opened last, and unless the channel was closed it was not asked to
  shut down.\<close>

definition sub_inv :: "bool \<Rightarrow> 'cb ch_effect list \<Rightarrow> 'cb channel \<Rightarrow> bool" where
  "sub_inv closed eff ch \<longleftrightarrow>
     (\<forall>n \<in> set (opened eff) \<union> set (told_to_shut_down eff). n < ch_sessions ch) \<and>
     (\<forall>n. ch_sub ch = SubSession n \<longrightarrow>
        n < ch_sessions ch \<and> opened eff \<noteq> [] \<and> last (opened eff) = n \<and> (\<not> closed \<longrightarrow> n \<notin> set (told_to_shut_down eff)))"

lemma sub_inv_new [simp]: "sub_inv closed [] ch_new"
  by (simp add: sub_inv_def ch_new_def)

lemma sub_inv_connect:
  "sub_inv closed eff ch \<Longrightarrow> sub_inv closed (eff @ snd (ch_connect ctx cb ch)) (fst (ch_connect ctx cb ch))"
  by (auto simp: sub_inv_def ch_connect_def kickConnectivityState_def startConnecting_def transitionToState_def Let_def
      intro: less_SucI)

lemma sub_inv_start:
  assumes "sub_inv closed eff ch"
  shows "sub_inv closed (eff @ snd (startHttp2Stream ctx opts f s ch)) (fst (startHttp2Stream ctx opts f s ch))"
  using sub_inv_connect [OF assms, of ctx s] sub_inv_connect [OF sub_inv_connect [OF assms, of ctx f], of ctx s]
  by (simp add: startHttp2Stream_connects)

lemma sub_inv_step:
  assumes "sub_inv closed eff ch"
  shows "sub_inv (closed \<or> e = ChClose) (eff @ snd (ch_step env ch e)) (fst (ch_step env ch e))"
proof (cases e)
  case (ChConnect cb)
  with sub_inv_connect [OF assms] show ?thesis by simp
next
  case (CreateStream options f s)
  with sub_inv_start [OF assms, of "che_context env" "stream_options options" f s] assms
  show ?thesis by (simp add: createStream_def) (simp add: sub_inv_def)
next
  case (RestartStream opts f s)
  with sub_inv_start [OF assms, of "che_context env" opts f s] show ?thesis by simp
next
  case (FinalMetadata methodName md ended refused)
  with assms show ?thesis
    by (auto simp: on_final_metadata_def sub_inv_def Let_def split: sum.split sub_channel.split option.split)
next
  case (SessionConnected n)
  with assms show ?thesis by (auto simp: transitionToState_def sub_inv_def)
next
  case (SessionTimeout n)
  with assms show ?thesis
    by (auto simp: goIdle_def shutdownSub_def transitionToState_def sub_inv_def Let_def split: sub_channel.split)
next
  case ChClose
  with assms show ?thesis
    by (auto simp: ch_close_def shutdownSub_def transitionToState_def sub_inv_def Let_def split: sub_channel.split)
qed

lemma sub_inv_run:
  "sub_inv (ChClose \<in> set es) (effects (ch_step env) ch_new es) (final (ch_step env) ch_new es)"
proof (induction es rule: rev_induct)
  case (snoc e es)
  from sub_inv_step [OF this, of e env] show ?case
    by (simp add: run_append_fst run_append_snd disj_commute eq_commute [of ChClose])
qed simp

text \<open>A request is made on the subchannel of a channel that is ready.\<close>

lemma request_on_sub:
  fixes e :: "('o, 'cb) ch_event"
  assumes "StreamRequest n h \<in> set (snd (ch_step env ch e))"
  shows "ch_sub ch = SubSession n \<and> ch_state ch = READY"
proof -
  have c: "StreamRequest n h \<notin> set (snd (ch_connect ctx cb c))" for ctx and cb :: 'cb and c
    by (auto simp: ch_connect_def kickConnectivityState_def startConnecting_def transitionToState_def Let_def)
  have s: "StreamRequest n h \<notin> set (snd (startHttp2Stream ctx opts f st c))" for ctx and opts :: "'o call_options" and f st :: 'cb and c
    using c by (simp add: startHttp2Stream_connects)
  show ?thesis
  proof (cases e)
    case (FinalMetadata methodName md ended refused)
    with assms show ?thesis
      by (auto simp: on_final_metadata_def Let_def split: sum.splits if_splits sub_channel.splits option.splits)
  qed (use assms c s in \<open>auto simp: createStream_def channel_defs split: if_splits option.splits sub_channel.splits\<close>)
qed

section \<open>The callbacks\<close>

text \<open>The callbacks a run has called, at once or when the channel became ready.\<close>

fun called :: "'cb ch_effect list \<Rightarrow> 'cb list" where
  "called [] = []"
| "called (RunCallback cb # es) = cb # called es"
| "called (ImmediateCallback cb # es) = cb # called es"
| "called (_ # es) = called es"

lemma called_append [simp]: "called (xs @ ys) = called xs @ called ys"
  by (induction xs rule: called.induct) auto

lemma called_map [simp]: "called (map RunCallback cbs) = cbs"
  by (induction cbs) auto

text \<open>The callbacks handed to \<open>connect\<close>, by users and by the streams that are started.\<close>

fun start_callbacks :: "'o call_options \<Rightarrow> 'cb \<Rightarrow> 'cb \<Rightarrow> 'cb list" where
  "start_callbacks opts f s = (if opt_deadline opts = Infinite then [s] else [f, s])"

fun connect_callbacks :: "('o, 'cb) ch_event list \<Rightarrow> 'cb list" where
  "connect_callbacks [] = []"
| "connect_callbacks (ChConnect cb # es) = cb # connect_callbacks es"
| "connect_callbacks (CreateStream options f s # es) = start_callbacks (stream_options options) f s @ connect_callbacks es"
| "connect_callbacks (RestartStream opts f s # es) = start_callbacks opts f s @ connect_callbacks es"
| "connect_callbacks (_ # es) = connect_callbacks es"

text \<open>Runs in which no connection times out and the channel is not closed.\<close>

fun undisturbed :: "('o, 'cb) ch_event \<Rightarrow> bool" where
  "undisturbed (SessionTimeout n) \<longleftrightarrow> False"
| "undisturbed ChClose \<longleftrightarrow> False"
| "undisturbed _ \<longleftrightarrow> True"

definition none_unheard :: "'cb channel \<Rightarrow> bool" where
  "none_unheard ch \<longleftrightarrow>
     (case ch_state ch of
        IDLE \<Rightarrow> ch_listeners ch = [] \<and> ch_sessions ch = 0
      | CONNECTING \<Rightarrow> True
      | READY \<Rightarrow> ch_listeners ch = []
      | _ \<Rightarrow> False)"

lemma none_unheard_new [simp]: "none_unheard ch_new"
  by (simp add: none_unheard_def ch_new_def)

lemma unheard_connect:
  assumes "none_unheard ch"
  shows "none_unheard (fst (ch_connect ctx cb ch))"
    and "called (snd (ch_connect ctx cb ch)) @ ch_listeners (fst (ch_connect ctx cb ch)) = ch_listeners ch @ [cb]"
  using assms by (cases "ch_state ch"; auto simp: channel_defs none_unheard_def Let_def)+

lemma unheard_start:
  assumes "none_unheard ch"
  shows "none_unheard (fst (startHttp2Stream ctx opts f s ch))"
    and "called (snd (startHttp2Stream ctx opts f s ch)) @ ch_listeners (fst (startHttp2Stream ctx opts f s ch)) =
      ch_listeners ch @ start_callbacks opts f s"
  using unheard_connect [OF assms, of ctx s] unheard_connect [OF assms, of ctx f]
    unheard_connect [OF unheard_connect(1) [OF assms, of ctx f], of ctx s]
  by (simp_all add: startHttp2Stream_connects)

lemma unheard_step:
  assumes "none_unheard ch" "ch_legal ch e" "undisturbed e"
  shows "none_unheard (fst (ch_step env ch e)) \<and>
    called (snd (ch_step env ch e)) @ ch_listeners (fst (ch_step env ch e)) = ch_listeners ch @ connect_callbacks [e]"
proof (cases e)
  case (ChConnect cb)
  with unheard_connect [OF assms(1)] show ?thesis by simp
next
  case (CreateStream options f s)
  have "ch_state ch \<noteq> SHUTDOWN" using assms(1) by (auto simp: none_unheard_def)
  with CreateStream unheard_start [OF assms(1), of "che_context env" "stream_options options" f s] show ?thesis by (simp add: createStream_def del: start_callbacks.simps)
next
  case (RestartStream opts f s)
  with unheard_start [OF assms(1), of "che_context env" opts f s] show ?thesis by (simp del: start_callbacks.simps)
next
  case (FinalMetadata methodName md ended refused)
  with assms show ?thesis
    by (auto simp: on_final_metadata_def Let_def split: sum.split sub_channel.split option.split)
next
  case (SessionConnected n)
  with assms show ?thesis
    by (cases "ch_state ch") (auto simp: transitionToState_def none_unheard_def)
qed (use assms in auto)

lemma connect_callbacks_Cons: "connect_callbacks (e # es) = connect_callbacks [e] @ connect_callbacks es"
  by (cases e) auto

lemma unheard_run:
  "\<lbrakk>none_unheard ch; legal_run (ch_step env) ch_legal ch es; list_all undisturbed es\<rbrakk> \<Longrightarrow>
   none_unheard (final (ch_step env) ch es) \<and>
   called (effects (ch_step env) ch es) @ ch_listeners (final (ch_step env) ch es) = ch_listeners ch @ connect_callbacks es"
proof (induction es arbitrary: ch)
  case (Cons e es)
  let ?ch = "fst (ch_step env ch e)"
  have l: "ch_legal ch e" "legal_run (ch_step env) ch_legal ?ch es" "undisturbed e" "list_all undisturbed es"
    using Cons.prems by auto
  note one = unheard_step [OF Cons.prems(1) l(1,3), of env]
  with Cons.IH [of ?ch] l show ?case
    unfolding run_Cons_fst run_Cons_snd called_append connect_callbacks_Cons [of e es]
    by (metis append.assoc)
qed simp

end
