(* ===== verification/CoreCall.thy ===== *)
theory CoreCall
  imports Channel
begin

text \<open>
  \<open>grpc-js-core/src/call.ts\<close>: the objects a user of a call holds. Their readable side is fed by the
  events of the call stream (\<open>setUpReadableStream\<close>), their writable side passes serialized messages on
  (\<open>tryWrite\<close>); an error is known by the status it was made from. The duplex stream has both sides.
\<close>

section \<open>The readable side\<close>

datatype 'r rs_effect =
    RsPush "'r option"
  | RsPause
  | RsResume
  | RsCancel status string
  | RsEmitStatus status_object
  | RsEmitError status_object

datatype rs_event = RsSetUp | RsData bytes | RsEnd | RsStatus status_object | RsRead

record ('p, 'r) core_env =
  cv_serialize :: "'p \<Rightarrow> js_exn + bytes"
  cv_deserialize :: "bytes \<Rightarrow> js_exn + 'r"
  cv_push :: "nat \<Rightarrow> bool"

text \<open>The state is the number of pushes made.\<close>

fun setUpReadableStream :: "('p, 'r) core_env \<Rightarrow> nat \<Rightarrow> rs_event \<Rightarrow> nat \<times> 'r rs_effect list" where
  "setUpReadableStream env n RsSetUp = (n, [RsPause])"
| "setUpReadableStream env n (RsData data) =
     (case cv_deserialize env data of
        Inl e \<Rightarrow> (n, [RsCancel INTERNAL ''Failed to parse server response''])
      | Inr deserialized \<Rightarrow>
          (Suc n, RsPush (Some deserialized) # (if \<not> cv_push env n then [RsPause] else [])))"
| "setUpReadableStream env n RsEnd = (Suc n, [RsPush None])"
| "setUpReadableStream env n (RsStatus status) =
     (n, RsEmitStatus status # (if st_code status \<noteq> OK then [RsEmitError status] else []))"
| "setUpReadableStream env n RsRead = (n, [RsResume])"

section \<open>The writable side\<close>

datatype 'k ws_effect =
    WsCancel status string
  | WsCallback 'k "js_exn option"
  | WsWrite bytes "int option" 'k
  | WsEnd

definition tryWrite :: "('p, 'r) core_env \<Rightarrow> 'p \<Rightarrow> string \<Rightarrow> 'k \<Rightarrow> 'k ws_effect list" where
  "tryWrite env chunk encoding cb =
     (let flags = js_Number encoding in
      case cv_serialize env chunk of
        Inl e \<Rightarrow> [WsCancel INTERNAL ''Serialization failure'', WsCallback cb (Some e)]
      | Inr message \<Rightarrow> [WsWrite message flags cb])"

definition call_final :: "'k \<Rightarrow> 'k ws_effect list" where
  "call_final cb = [WsEnd, WsCallback cb None]"

section \<open>Cancelling\<close>

definition call_cancel :: "status \<times> string" where
  "call_cancel = (CANCELLED, ''Cancelled on client'')"

section \<open>What the reader sees\<close>

fun rs_messages :: "'r rs_effect list \<Rightarrow> 'r option list" where
  "rs_messages [] = []"
| "rs_messages (RsPush d # es) = d # rs_messages es"
| "rs_messages (_ # es) = rs_messages es"

lemma rs_messages_append [simp]: "rs_messages (xs @ ys) = rs_messages xs @ rs_messages ys"
  by (induction xs rule: rs_messages.induct) auto

text \<open>The items of the call that parse, and the statuses, in order.\<close>

fun rs_parsed :: "('p, 'r) core_env \<Rightarrow> rs_event list \<Rightarrow> 'r option list" where
  "rs_parsed env [] = []"
| "rs_parsed env (RsData b # es) =
     (case cv_deserialize env b of Inr m \<Rightarrow> Some m # rs_parsed env es | Inl e \<Rightarrow> rs_parsed env es)"
| "rs_parsed env (RsEnd # es) = None # rs_parsed env es"
| "rs_parsed env (_ # es) = rs_parsed env es"

lemma rs_run_messages: "rs_messages (effects (setUpReadableStream env) n es) = rs_parsed env es"
proof (induction es arbitrary: n)
  case (Cons e es)
  then show ?case by (cases e) (auto split: sum.split)
qed simp

end
