(* ===== verification/CallStreamSend.thy ===== *)
theory CallStreamSend
  imports CallStreamFacts
begin

text \<open>
  The sending side of \<open>Http2CallStream\<close>: what the methods \<open>_write\<close> and \<open>_final\<close> hand over reaches the
  http2 stream framed, once and in order, also when it was handed over before the call was attached.
\<close>

section \<open>What is sent and what is held back\<close>

text \<open>The bytes written to the http2 stream, and its end (\<open>None\<close>).\<close>

fun sent :: "'c cs_effect list \<Rightarrow> bytes option list" where
  "sent [] = []"
| "sent (HttpWrite b cb # es) = Some b # sent es"
| "sent (HttpEnd cb # es) = None # sent es"
| "sent (_ # es) = sent es"

lemma sent_append [simp]: "sent (xs @ ys) = sent xs @ sent ys"
  by (induction xs rule: sent.induct) auto

definition held :: "('c, 'o) call_stream \<Rightarrow> bytes option list" where
  "held st =
     (if cs_http2Stream st then []
      else (case cs_pendingWrite st of None \<Rightarrow> [] | Some w \<Rightarrow> [Some w]) @
        (case cs_pendingFinalCallback st of None \<Rightarrow> [] | Some cb \<Rightarrow> [None]))"

text \<open>What an event hands over; a message that is too long is refused.\<close>

fun handed_over :: "'c cs_event list \<Rightarrow> bytes option list" where
  "handed_over [] = []"
| "handed_over (WriteCall chunk cb # es) =
     (case encodeMessage chunk of Inr w \<Rightarrow> Some w # handed_over es | Inl e \<Rightarrow> handed_over es)"
| "handed_over (FinalCall cb # es) = None # handed_over es"
| "handed_over (_ # es) = handed_over es"

lemma handed_over_Cons: "handed_over (e # es) = handed_over [e] @ handed_over es"
  by (cases e) (auto split: sum.split)

text \<open>Node's part: \<open>_write\<close> is called again, and \<open>_final\<close> once, only when the callback of the last
  \<open>_write\<close> was called.\<close>

fun cs_legal_send :: "('c, 'o) call_stream \<Rightarrow> 'c cs_event \<Rightarrow> bool" where
  "cs_legal_send st (WriteCall chunk cb) \<longleftrightarrow>
     \<not> cs_http2Stream st \<longrightarrow> cs_pendingWrite st = None \<and> cs_pendingFinalCallback st = None"
| "cs_legal_send st (FinalCall cb) \<longleftrightarrow> \<not> cs_http2Stream st \<longrightarrow> cs_pendingFinalCallback st = None"
| "cs_legal_send st e \<longleftrightarrow> cs_legal st e"

section \<open>The other handlers send nothing\<close>

definition sender :: "('c, 'o) call_stream \<Rightarrow> bool \<times> bytes option \<times> 'c option \<times> 'c option" where
  "sender st = (cs_http2Stream st, cs_pendingWrite st, cs_pendingWriteCallback st, cs_pendingFinalCallback st)"

fun sending :: "'c cs_event \<Rightarrow> bool" where
  "sending Attach \<longleftrightarrow> True"
| "sending (WriteCall chunk cb) \<longleftrightarrow> True"
| "sending (FinalCall cb) \<longleftrightarrow> True"
| "sending _ \<longleftrightarrow> False"

definition idle_sender :: "('c, 'o) call_stream \<Rightarrow> ('c, 'o) call_stream \<times> 'c cs_effect list \<Rightarrow> bool" where
  "idle_sender st r \<longleftrightarrow> sender (fst r) = sender st \<and> sent (snd r) = []"

lemma idle_endCall: "idle_sender st (endCall s st)"
  by (simp add: idle_sender_def sender_def endCall_def split: option.split)

lemma idle_cancel: "idle_sender st (cs_cancelWithStatus c d st)"
  using idle_endCall [of st "\<lparr>st_code = c, st_details = d, st_metadata = []\<rparr>"]
  by (simp add: idle_sender_def cs_cancelWithStatus_def case_prod_beta)

lemma idle_tryPush:
  "tryPush env m cp st = (cp', st', eff) \<Longrightarrow> sender st' = sender st \<and> sent eff = []"
  by (auto simp: tryPush_def do_push_def sender_def split: if_splits)

lemma idle_data_iter:
  "data_iter env data rh cp st = (rh', cp', st', eff) \<Longrightarrow> sender st' = sender st \<and> sent eff = []"
  by (cases "cs_readState st")
    (fastforce simp: data_iter_def Let_def sender_def split: if_splits prod.splits dest!: idle_tryPush)+

lemma idle_data_loop: "idle_sender st (data_loop env data rh cp st)"
proof (induction env data rh cp st rule: data_loop.induct)
  case (1 env data rh cp st)
  show ?case
  proof (cases "rh < length data")
    case False
    then show ?thesis by (simp add: data_loop.simps [of env data rh] idle_sender_def)
  next
    case True
    obtain rh1 cp1 st1 eff1 where it: "data_iter env data rh cp st = (rh1, cp1, st1, eff1)" by (metis prod_cases4)
    from 1 [OF True it [symmetric] refl refl] True it idle_data_iter [OF it] show ?thesis
      by (simp add: data_loop.simps [of env data rh] idle_sender_def case_prod_beta)
  qed
qed

lemma idle_read_loop: "idle_sender st (read_loop env ms st)"
proof (induction ms arbitrary: st)
  case (Cons m ms)
  let ?st1 = "st\<lparr>cs_unpushedReadMessages := ms, cs_pushes := Suc (cs_pushes st)\<rparr>"
  from Cons [of ?st1] show ?case
    by (auto simp: idle_sender_def do_push_def case_prod_beta sender_def)
qed (simp add: idle_sender_def sender_def)

lemma idle_task: "idle_sender st (on_task t st)"
proof (cases t)
  case (MetadataTask r)
  then show ?thesis by (cases r) (simp_all add: on_task_def idle_cancel, simp add: idle_sender_def)
next
  case (StatusTask r)
  then show ?thesis by (cases r) (simp_all add: on_task_def idle_endCall)
qed

lemma idle_step: "\<not> sending e \<Longrightarrow> idle_sender st (cs_step env st e)"
proof (cases e)
  case (Response headers)
  let ?st1 = "st\<lparr>cs_mappedStatusCode := map_http_status (map_of headers '':status'')\<rparr>"
  have same: "sender ?st1 = sender st" by (simp add: sender_def)
  show ?thesis
  proof (cases "cm_fromHttp2Headers (obj_del ''content-type'' (obj_del '':status'' headers))")
    case (Inl ex)
    with Response have "cs_step env st e = cs_cancelWithStatus UNKNOWN (exn_message ex) ?st1" by (simp add: on_response_def)
    with idle_cancel [of ?st1] same show ?thesis by (simp add: idle_sender_def)
  next
    case (Inr m)
    then have "sender (fst (on_response headers st)) = sender st \<and> sent (snd (on_response headers st)) = []"
      by (cases "stack_receiveMetadata (cs_filterStack st) (Fulfilled m)") (simp_all add: on_response_def Let_def sender_def)
    with Response show ?thesis by (simp add: idle_sender_def)
  qed
next
  case (Trailers headers)
  obtain st' eff where "on_trailers env headers st = (st', eff)" by force
  then have "sender st' = sender st \<and> sent eff = []"
    by (auto simp: on_trailers_def sender_def Let_def split: option.splits sum.splits promise.splits)
  with Trailers \<open>on_trailers env headers st = (st', eff)\<close> show ?thesis by (simp add: idle_sender_def)
next
  case RunTask
  have "idle_sender st (on_task t (st\<lparr>cs_tasks := ts\<rparr>))" for t ts
    using idle_task [of "st\<lparr>cs_tasks := ts\<rparr>"] by (simp add: idle_sender_def sender_def)
  with RunTask show ?thesis by (auto split: list.split) (simp add: idle_sender_def)
next
  case ReadCall
  then show ?thesis
    using idle_read_loop [of st env "cs_unpushedReadMessages st"]
    by (simp add: cs_read_def) (simp add: idle_sender_def sender_def)
next
  case EndOfStream
  then show ?thesis by (simp add: on_end_def do_push_def idle_sender_def sender_def Let_def)
qed (simp_all add: idle_data_loop idle_endCall idle_cancel)

section \<open>Everything handed over is sent, in order\<close>

definition send_inv :: "('c, 'o) call_stream \<Rightarrow> bool" where
  "send_inv st \<longleftrightarrow> (cs_pendingWrite st = None \<longleftrightarrow> cs_pendingWriteCallback st = None)"

lemma send_inv_new [simp]: "send_inv (cs_new opts factories)"
  by (simp add: send_inv_def cs_new_def)

lemma send_step:
  assumes "send_inv st" and "cs_legal_send st e"
  shows "send_inv (fst (cs_step env st e)) \<and>
    sent (snd (cs_step env st e)) @ held (fst (cs_step env st e)) = held st @ handed_over [e]"
proof (cases "sending e")
  case False
  then have "handed_over [e] = []" by (cases e) auto
  with idle_step [OF False, of st env] assms show ?thesis
    by (auto simp: idle_sender_def sender_def held_def send_inv_def)
next
  case True
  then consider "e = Attach" | chunk cb where "e = WriteCall chunk cb" | cb where "e = FinalCall cb"
    by (cases e) auto
  then show ?thesis
    using assms
    by cases (auto simp: cs_attach_def cs_write_def cs_final_def held_def send_inv_def Let_def split: option.splits sum.splits)
qed

lemma send_run:
  "\<lbrakk>send_inv st; legal_run (cs_step env) cs_legal_send st es\<rbrakk> \<Longrightarrow>
   sent (effects (cs_step env) st es) @ held (final (cs_step env) st es) = held st @ handed_over es"
proof (induction es arbitrary: st)
  case (Cons e es)
  let ?st = "fst (cs_step env st e)"
  from Cons.prems have l: "cs_legal_send st e" "legal_run (cs_step env) cs_legal_send ?st es" by auto
  note one = send_step [OF Cons.prems(1) l(1), of env]
  with Cons.IH [OF _ l(2)] have "sent (effects (cs_step env) ?st es) @ held (final (cs_step env) ?st es) = held ?st @ handed_over es"
    by simp
  with one show ?case unfolding run_Cons_fst run_Cons_snd sent_append handed_over_Cons [of e es]
    by (metis append.assoc)
qed simp

text \<open>The messages handed over, and their bytes.\<close>

fun written_messages :: "'c cs_event list \<Rightarrow> bytes list" where
  "written_messages [] = []"
| "written_messages (WriteCall chunk cb # es) =
     (if length chunk < 2 ^ 32 then chunk # written_messages es else written_messages es)"
| "written_messages (_ # es) = written_messages es"

definition sent_bytes :: "bytes option list \<Rightarrow> bytes" where
  "sent_bytes items = concat (map (\<lambda>x. case x of Some b \<Rightarrow> b | None \<Rightarrow> []) items)"

lemma handed_over_encoded:
  "\<exists>ws. list_all2 (\<lambda>b w. encodeMessage b = Inr w) (written_messages es) ws \<and> sent_bytes (handed_over es) = concat ws"
proof (induction es)
  case (Cons e es)
  then obtain ws where ws: "list_all2 (\<lambda>b w. encodeMessage b = Inr w) (written_messages es) ws"
    "sent_bytes (handed_over es) = concat ws" by blast
  show ?case
  proof (cases e)
    case (WriteCall chunk cb)
    show ?thesis
    proof (cases "length chunk < 2 ^ 32")
      case True
      then obtain w where w: "encodeMessage chunk = Inr w" by (simp add: encodeMessage_def)
      with WriteCall ws True show ?thesis by (intro exI [of _ "w # ws"]) (simp add: sent_bytes_def)
    next
      case False
      then have "encodeMessage chunk = Inl (JsRangeError ''\"value\" argument is out of bounds'')" by (simp add: encodeMessage_def)
      with WriteCall ws False show ?thesis by (intro exI [of _ ws]) simp
    qed
  qed (use ws in \<open>auto simp: sent_bytes_def\<close>)
qed (simp add: sent_bytes_def)

section \<open>A consumer that accepts everything\<close>

text \<open>If every push is accepted, nothing is held back.\<close>

lemma iter_accepts:
  "\<lbrakk>\<forall>n. push_result env n; data_iter env data readHead True st = (rh, cp, st', eff)\<rbrakk> \<Longrightarrow>
   cp \<and> cs_unpushedReadMessages st' = cs_unpushedReadMessages st"
  by (cases "cs_readState st") (auto simp: data_iter_def tryPush_def do_push_def Let_def split: if_splits)

lemma loop_accepts:
  "\<lbrakk>\<forall>n. push_result env n; canPush\<rbrakk> \<Longrightarrow>
   cs_unpushedReadMessages (fst (data_loop env data readHead canPush st)) = cs_unpushedReadMessages st"
proof (induction env data readHead canPush st rule: data_loop.induct)
  case (1 env data readHead canPush st)
  show ?case
  proof (cases "readHead < length data")
    case True
    obtain rh cp st' eff where i: "data_iter env data readHead canPush st = (rh, cp, st', eff)" by (metis prod_cases4)
    with iter_accepts [of env data readHead st] 1(2,3) have "cp" "cs_unpushedReadMessages st' = cs_unpushedReadMessages st" by auto
    with 1(1) [OF True i [symmetric] refl refl] 1(2) i True show ?thesis
      by (subst data_loop.simps) (simp add: case_prod_beta)
  next
    case False
    then show ?thesis by (subst data_loop.simps) simp
  qed
qed

lemma endCall_unpushed [simp]: "cs_unpushedReadMessages (fst (endCall s st)) = cs_unpushedReadMessages st"
  by (simp add: endCall_def split: option.split)

lemma cancel_unpushed [simp]: "cs_unpushedReadMessages (fst (cs_cancelWithStatus c d st)) = cs_unpushedReadMessages st"
  by (simp add: cs_cancelWithStatus_def case_prod_beta)

lemma step_accepts:
  assumes "\<forall>n. push_result env n" and "cs_unpushedReadMessages st = []"
  shows "cs_unpushedReadMessages (fst (cs_step env st e)) = []"
proof (cases e)
  case Attach
  with assms show ?thesis by (simp add: cs_attach_def Let_def split: option.split)
next
  case (Response headers)
  with assms show ?thesis by (simp add: on_response_def Let_def split: sum.split promise.split)
next
  case (Trailers headers)
  with assms show ?thesis by (simp add: on_trailers_def Let_def case_prod_beta split: sum.split promise.split option.split)
next
  case (Data d)
  with assms loop_accepts [OF assms(1) TrueI, of d 0 st] show ?thesis by simp
next
  case EndOfStream
  with assms show ?thesis by (simp add: on_end_def do_push_def)
next
  case RunTask
  with assms show ?thesis by (simp add: on_task_def split: list.split cs_task.split sum.split)
next
  case ReadCall
  with assms show ?thesis by (simp add: cs_read_def)
next
  case (WriteCall chunk cb)
  with assms show ?thesis by (simp add: cs_write_def split: sum.split)
next
  case (FinalCall cb)
  with assms show ?thesis by (simp add: cs_final_def)
qed (use assms in simp_all)

lemma accepts_all:
  "\<lbrakk>\<forall>n. push_result env n; cs_unpushedReadMessages st = []\<rbrakk> \<Longrightarrow>
   cs_unpushedReadMessages (final (cs_step env) st es) = []"
  by (induction es arbitrary: st) (simp_all add: step_accepts)

end
