(* ===== verification/CoreObjects.thy ===== *)
theory CoreObjects
  imports CoreCall CallStreamSend
begin

text \<open>
  The four call classes of \<open>grpc-js-core/src/call.ts\<close>, over the call stream they wrap. The constructor
  installs the listeners (\<open>..._on\<close>), the methods call the stream (\<open>..._call\<close>); \<open>call_object\<close> composes an
  object and its stream. The items a call stream pushes wait in its buffer (\<open>ob_buffer\<close>) until Node
  emits them as \<open>data\<close> and \<open>end\<close>; the other events are emitted at once.
\<close>

section \<open>The classes\<close>

datatype object_event = ObMetadata metadata | ObReader rs_event

datatype ('r, 'k) object_effect =
    ObEmitMetadata metadata
  | ObRead "'r rs_effect"
  | ObWrite "'k ws_effect"
  | ObCancelCall status string

datatype ('p, 'k) object_method = DoCancel | DoRead | DoWrite 'p string 'k | DoFinal 'k

text \<open>The listeners. The state is the number of pushes made.\<close>

fun ClientUnaryCallImpl_on :: "('p, 'r) core_env \<Rightarrow> nat \<Rightarrow> object_event \<Rightarrow> nat \<times> ('r, 'k) object_effect list" where
  "ClientUnaryCallImpl_on env n (ObMetadata m) = (n, [ObEmitMetadata m])"
| "ClientUnaryCallImpl_on env n (ObReader e) = (n, [])"

fun ClientReadableStreamImpl_on :: "('p, 'r) core_env \<Rightarrow> nat \<Rightarrow> object_event \<Rightarrow> nat \<times> ('r, 'k) object_effect list" where
  "ClientReadableStreamImpl_on env n (ObMetadata m) = (n, [ObEmitMetadata m])"
| "ClientReadableStreamImpl_on env n (ObReader e) =
     (let (n1, eff) = setUpReadableStream env n e in (n1, map ObRead eff))"

fun ClientWritableStreamImpl_on :: "('p, 'r) core_env \<Rightarrow> nat \<Rightarrow> object_event \<Rightarrow> nat \<times> ('r, 'k) object_effect list" where
  "ClientWritableStreamImpl_on env n (ObMetadata m) = (n, [ObEmitMetadata m])"
| "ClientWritableStreamImpl_on env n (ObReader e) = (n, [])"

fun ClientDuplexStreamImpl_on :: "('p, 'r) core_env \<Rightarrow> nat \<Rightarrow> object_event \<Rightarrow> nat \<times> ('r, 'k) object_effect list" where
  "ClientDuplexStreamImpl_on env n (ObMetadata m) = (n, [ObEmitMetadata m])"
| "ClientDuplexStreamImpl_on env n (ObReader e) =
     (let (n1, eff) = setUpReadableStream env n e in (n1, map ObRead eff))"

text \<open>The methods; a class without one has no effect to give. \<open>_read\<close> resumes the call.\<close>

definition cancel_call :: "('r, 'k) object_effect" where
  "cancel_call = ObCancelCall (fst call_cancel) (snd call_cancel)"

fun ClientUnaryCallImpl_call :: "('p, 'r) core_env \<Rightarrow> ('p, 'k) object_method \<Rightarrow> ('r, 'k) object_effect list" where
  "ClientUnaryCallImpl_call env DoCancel = [cancel_call]"
| "ClientUnaryCallImpl_call env _ = []"

fun ClientReadableStreamImpl_call :: "('p, 'r) core_env \<Rightarrow> ('p, 'k) object_method \<Rightarrow> ('r, 'k) object_effect list" where
  "ClientReadableStreamImpl_call env DoCancel = [cancel_call]"
| "ClientReadableStreamImpl_call env DoRead = [ObRead RsResume]"
| "ClientReadableStreamImpl_call env _ = []"

fun ClientWritableStreamImpl_call :: "('p, 'r) core_env \<Rightarrow> ('p, 'k) object_method \<Rightarrow> ('r, 'k) object_effect list" where
  "ClientWritableStreamImpl_call env DoCancel = [cancel_call]"
| "ClientWritableStreamImpl_call env (DoWrite chunk encoding cb) = map ObWrite (tryWrite env chunk encoding cb)"
| "ClientWritableStreamImpl_call env (DoFinal cb) = map ObWrite (call_final cb)"
| "ClientWritableStreamImpl_call env DoRead = []"

fun ClientDuplexStreamImpl_call :: "('p, 'r) core_env \<Rightarrow> ('p, 'k) object_method \<Rightarrow> ('r, 'k) object_effect list" where
  "ClientDuplexStreamImpl_call env DoCancel = [cancel_call]"
| "ClientDuplexStreamImpl_call env DoRead = [ObRead RsResume]"
| "ClientDuplexStreamImpl_call env (DoWrite chunk encoding cb) = map ObWrite (tryWrite env chunk encoding cb)"
| "ClientDuplexStreamImpl_call env (DoFinal cb) = map ObWrite (call_final cb)"

datatype object_class = UnaryObject | ReadableObject | WritableObject | DuplexObject

fun object_on :: "object_class \<Rightarrow> ('p, 'r) core_env \<Rightarrow> nat \<Rightarrow> object_event \<Rightarrow> nat \<times> ('r, 'k) object_effect list" where
  "object_on UnaryObject = ClientUnaryCallImpl_on"
| "object_on ReadableObject = ClientReadableStreamImpl_on"
| "object_on WritableObject = ClientWritableStreamImpl_on"
| "object_on DuplexObject = ClientDuplexStreamImpl_on"

fun object_call :: "object_class \<Rightarrow> ('p, 'r) core_env \<Rightarrow> ('p, 'k) object_method \<Rightarrow> ('r, 'k) object_effect list" where
  "object_call UnaryObject = ClientUnaryCallImpl_call"
| "object_call ReadableObject = ClientReadableStreamImpl_call"
| "object_call WritableObject = ClientWritableStreamImpl_call"
| "object_call DuplexObject = ClientDuplexStreamImpl_call"

definition readable_object :: "object_class \<Rightarrow> bool" where
  "readable_object cls \<longleftrightarrow> cls = ReadableObject \<or> cls = DuplexObject"

section \<open>An object and its call stream\<close>

record ('c, 'o) call_object =
  ob_class :: object_class
  ob_stream :: "('c, 'o) call_stream"
  ob_pushes :: nat
  ob_buffer :: "bytes option list"

datatype ('p, 'k, 'c) object_input = FromStream "'c cs_event" | Deliver | Invoke "('p, 'k) object_method"

definition ob_new :: "object_class \<Rightarrow> 'o call_options \<Rightarrow> 'o filter_factory list \<Rightarrow> ('c, 'o) call_object" where
  "ob_new cls opts factories = \<lparr>ob_class = cls, ob_stream = cs_new opts factories, ob_pushes = 0, ob_buffer = []\<rparr>"

text \<open>\<open>getPeer\<close> of each class asks the stream.\<close>

definition object_getPeer :: "('c, 'o) call_object \<Rightarrow> js_exn + string" where
  "object_getPeer ob = cs_getPeer (ob_stream ob)"

text \<open>The events a call stream emits at once. What an object writes to its stream is an effect; Node
  calls the stream's \<open>_write\<close> and \<open>_final\<close>, its events \<open>WriteCall\<close> and \<open>FinalCall\<close>, when it comes to it.\<close>

fun emitted_event :: "'c cs_effect \<Rightarrow> object_event list" where
  "emitted_event (EmitMetadata m) = [ObMetadata m]"
| "emitted_event (EmitStatus s) = [ObReader (RsStatus s)]"
| "emitted_event _ = []"

definition ob_stream_run ::
  "cs_env \<Rightarrow> ('p, 'r) core_env \<Rightarrow> 'c cs_event list \<Rightarrow> ('c, 'o) call_object \<Rightarrow>
   ('c, 'o) call_object \<times> ('r, 'k) object_effect list" where
  "ob_stream_run env cenv evs ob =
     (let (st, eff) = run (cs_step env) (ob_stream ob) evs;
          (n, out) = run (object_on (ob_class ob) cenv) (ob_pushes ob) (concat (map emitted_event eff))
      in (ob\<lparr>ob_stream := st, ob_pushes := n, ob_buffer := ob_buffer ob @ pushed eff\<rparr>, out))"

text \<open>The calls of \<open>cancelWithStatus\<close> among the effects of an object.\<close>

fun cancel_event :: "('r, 'k) object_effect \<Rightarrow> 'c cs_event list" where
  "cancel_event (ObCancelCall code details) = [CancelWithStatus code details]"
| "cancel_event (ObRead (RsCancel code details)) = [CancelWithStatus code details]"
| "cancel_event (ObWrite (WsCancel code details)) = [CancelWithStatus code details]"
| "cancel_event _ = []"

definition ob_act ::
  "cs_env \<Rightarrow> ('p, 'r) core_env \<Rightarrow> ('r, 'k) object_effect list \<Rightarrow> ('c, 'o) call_object \<Rightarrow>
   ('c, 'o) call_object \<times> ('r, 'k) object_effect list" where
  "ob_act env cenv out ob =
     (let (ob1, out1) = ob_stream_run env cenv (concat (map cancel_event out)) ob in (ob1, out @ out1))"

fun item_event :: "bytes option \<Rightarrow> object_event" where
  "item_event (Some b) = ObReader (RsData b)"
| "item_event None = ObReader RsEnd"

fun ob_step ::
  "cs_env \<Rightarrow> ('p, 'r) core_env \<Rightarrow> ('c, 'o) call_object \<Rightarrow> ('p, 'k, 'c) object_input \<Rightarrow>
   ('c, 'o) call_object \<times> ('r, 'k) object_effect list" where
  "ob_step env cenv ob (FromStream e) = ob_stream_run env cenv [e] ob"
| "ob_step env cenv ob Deliver =
     (case ob_buffer ob of
        [] \<Rightarrow> (ob, [])
      | x # xs \<Rightarrow>
          (let (n, out) = object_on (ob_class ob) cenv (ob_pushes ob) (item_event x)
           in ob_act env cenv out (ob\<lparr>ob_pushes := n, ob_buffer := xs\<rparr>)))"
| "ob_step env cenv ob (Invoke m) = ob_act env cenv (object_call (ob_class ob) cenv m) ob"

fun ob_legal :: "('c, 'o) call_object \<Rightarrow> ('p, 'k, 'c) object_input \<Rightarrow> bool" where
  "ob_legal ob (FromStream e) \<longleftrightarrow> cs_legal (ob_stream ob) e"
| "ob_legal ob Deliver \<longleftrightarrow> ob_buffer ob \<noteq> []"
| "ob_legal ob (Invoke m) \<longleftrightarrow> True"

section \<open>The status is reported once\<close>

text \<open>A call stream only emits the status it ends with.\<close>

lemma endCall_emits: "EmitStatus s \<in> set (snd (endCall x st)) \<Longrightarrow> cs_finalStatus (fst (endCall x st)) = Some s"
  by (auto simp: endCall_def split: option.splits)

lemma cancel_emits:
  "EmitStatus s \<in> set (snd (cs_cancelWithStatus c d st)) \<Longrightarrow> cs_finalStatus (fst (cs_cancelWithStatus c d st)) = Some s"
  using endCall_emits [of s "\<lparr>st_code = c, st_details = d, st_metadata = []\<rparr>" st]
  by (auto simp: cs_cancelWithStatus_def case_prod_beta split: if_splits)

lemma no_status: "filter is_status eff = [] \<Longrightarrow> EmitStatus s \<notin> set eff"
  by (auto simp: filter_empty_conv)

lemma step_emits:
  assumes "cs_inv st" and "cs_legal st e" and s: "EmitStatus s \<in> set (snd (cs_step env st e))"
  shows "cs_finalStatus (fst (cs_step env st e)) = Some s"
proof (cases "quiet e")
  case False
  then consider (data) d where "e = Data d" | (eos) "e = EndOfStream" | (read) "e = ReadCall" by (cases e) auto
  then have False
  proof cases
    case data
    then have "reader_inv st" "chunk_inv True st" using assms by (auto simp: cs_inv_def chunk_inv_def)
    from data_loop_refines [OF this le0, of env d] have "filter is_status (snd (data_loop env d 0 True st)) = []" by (metis prod.collapse)
    with data s no_status show False by fastforce
  next
    case eos
    with s show False by (auto simp: on_end_def do_push_def Let_def split: if_splits)
  next
    case read
    from read_loop_effect [of env "cs_unpushedReadMessages st" st] have "filter is_status (snd (read_loop env (cs_unpushedReadMessages st) st)) = []"
      by (metis prod.collapse)
    with read s no_status show False by (fastforce simp: cs_read_def split: if_splits)
  qed
  then show ?thesis ..
next
  case True
  show ?thesis
  proof (cases e)
    case Attach
    with s show ?thesis by (auto simp: cs_attach_def Let_def split: if_splits option.splits)
  next
    case (Response headers)
    with s show ?thesis
      by (cases "cm_fromHttp2Headers (obj_del ''content-type'' (obj_del '':status'' headers))")
        (auto simp: on_response_def Let_def split: promise.splits intro: cancel_emits)
  next
    case (Trailers headers)
    with s show ?thesis
      by (auto simp: on_trailers_def Let_def split: option.splits sum.splits promise.splits prod.splits if_splits)
  next
    case RunTask
    with s obtain t ts where t: "cs_tasks st = t # ts" by (cases "cs_tasks st") auto
    show ?thesis
    proof (cases t)
      case (MetadataTask r)
      with RunTask t s show ?thesis by (cases r) (auto simp: on_task_def intro: cancel_emits)
    next
      case (StatusTask r)
      with RunTask t s show ?thesis by (cases r) (auto simp: on_task_def intro: endCall_emits)
    qed
  next
    case (WriteCall chunk cb)
    with s show ?thesis by (auto simp: cs_write_def split: sum.splits if_splits)
  next
    case (FinalCall cb)
    with s show ?thesis by (auto simp: cs_final_def split: if_splits)
  qed (use True s in \<open>auto intro: endCall_emits cancel_emits\<close>)
qed

text \<open>The statuses of a run of the stream.\<close>

definition new_status :: "('c, 'o) call_stream \<Rightarrow> ('c, 'o) call_stream \<Rightarrow> status_object list" where
  "new_status st st' = (case (cs_getStatus st, cs_getStatus st') of (None, Some s) \<Rightarrow> [s] | _ \<Rightarrow> [])"

fun statuses :: "'c cs_effect list \<Rightarrow> status_object list" where
  "statuses [] = []"
| "statuses (EmitStatus s # es) = s # statuses es"
| "statuses (_ # es) = statuses es"

lemma statuses_append [simp]: "statuses (xs @ ys) = statuses xs @ statuses ys"
  by (induction xs rule: statuses.induct) auto

lemma length_statuses: "length (statuses eff) = length (filter is_status eff)"
  by (induction eff rule: statuses.induct) auto

lemma set_statuses: "s \<in> set (statuses eff) \<Longrightarrow> EmitStatus s \<in> set eff"
  by (induction eff rule: statuses.induct) auto

lemma step_statuses:
  assumes "cs_inv st" and "cs_legal st e"
  shows "statuses (snd (cs_step env st e)) = new_status st (fst (cs_step env st e)) \<and>
    cs_inv (fst (cs_step env st e)) \<and>
    (cs_getStatus st \<noteq> None \<longrightarrow> cs_getStatus (fst (cs_step env st e)) = cs_getStatus st)"
proof -
  obtain st' eff where step: "cs_step env st e = (st', eff)" by force
  note one = cs_step_effect [OF assms step]
  have len: "length (statuses eff) = (if \<not> is_ended st \<and> is_ended st' then 1 else 0)"
    using one by (simp add: length_statuses)
  have "statuses eff = new_status st st'"
  proof (cases "\<not> is_ended st \<and> is_ended st'")
    case True
    with len obtain s where s: "statuses eff = [s]" by (auto simp: length_Suc_conv)
    then have "EmitStatus s \<in> set eff" using set_statuses [of s eff] by simp
    with step_emits [OF assms, of s env] step have "cs_finalStatus st' = Some s" by simp
    with s True show ?thesis by (simp add: new_status_def cs_getStatus_def is_ended_def)
  next
    case False
    with len have "statuses eff = []" by (auto split: if_splits)
    with False show ?thesis by (auto simp: new_status_def cs_getStatus_def is_ended_def split: option.split)
  qed
  with one step show ?thesis by (auto simp: cs_getStatus_def is_ended_def)
qed

lemma run_statuses:
  "\<lbrakk>cs_inv st; legal_run (cs_step env) cs_legal st es\<rbrakk> \<Longrightarrow>
   statuses (effects (cs_step env) st es) = new_status st (final (cs_step env) st es) \<and>
   cs_inv (final (cs_step env) st es) \<and>
   (cs_getStatus st \<noteq> None \<longrightarrow> cs_getStatus (final (cs_step env) st es) = cs_getStatus st)"
proof (induction es arbitrary: st)
  case Nil
  then show ?case by (auto simp: new_status_def split: option.split)
next
  case (Cons e es)
  let ?st = "fst (cs_step env st e)"
  from Cons.prems have l: "cs_legal st e" "legal_run (cs_step env) cs_legal ?st es" by auto
  note one = step_statuses [OF Cons.prems(1) l(1), of env]
  with Cons.IH [OF _ l(2)] have rest: "statuses (effects (cs_step env) ?st es) = new_status ?st (final (cs_step env) ?st es)"
    "cs_inv (final (cs_step env) ?st es)"
    "cs_getStatus ?st \<noteq> None \<longrightarrow> cs_getStatus (final (cs_step env) ?st es) = cs_getStatus ?st" by auto
  with one show ?case unfolding run_Cons_fst run_Cons_snd statuses_append
    by (auto simp: new_status_def split: option.splits)
qed

text \<open>What an object says of the status of its call.\<close>

fun reports :: "('r, 'k) object_effect list \<Rightarrow> 'r rs_effect list" where
  "reports [] = []"
| "reports (ObRead (RsEmitStatus s) # es) = RsEmitStatus s # reports es"
| "reports (ObRead (RsEmitError s) # es) = RsEmitError s # reports es"
| "reports (_ # es) = reports es"

definition report :: "status_object \<Rightarrow> 'r rs_effect list" where
  "report s = RsEmitStatus s # (if st_code s \<noteq> OK then [RsEmitError s] else [])"

lemma reports_append [simp]: "reports (xs @ ys) = reports xs @ reports ys"
  by (induction xs rule: reports.induct) auto

lemma readable_object_on:
  "readable_object cls \<Longrightarrow> object_on cls = ClientReadableStreamImpl_on"
proof -
  have "ClientDuplexStreamImpl_on env n e = ClientReadableStreamImpl_on env n e" for env :: "('a, 'b) core_env" and n e
    by (cases e) simp_all
  then have "(ClientDuplexStreamImpl_on :: ('a, 'b) core_env \<Rightarrow> nat \<Rightarrow> object_event \<Rightarrow> nat \<times> ('b, 'c) object_effect list) = ClientReadableStreamImpl_on"
    by (intro ext)
  then show "readable_object cls \<Longrightarrow> (object_on cls :: ('a, 'b) core_env \<Rightarrow> nat \<Rightarrow> object_event \<Rightarrow> nat \<times> ('b, 'c) object_effect list) = ClientReadableStreamImpl_on"
    by (auto simp: readable_object_def)
qed

lemma listener_reports:
  "reports (effects (ClientReadableStreamImpl_on cenv) n (concat (map emitted_event eff))) = concat (map report (statuses eff))"
proof (induction eff arbitrary: n)
  case (Cons x eff)
  then show ?case
    by (cases x) (simp_all add: report_def)
qed simp

lemma ob_stream_run_reports:
  fixes ob :: "('c, 'o) call_object" and cenv :: "('p, 'r) core_env" and out :: "('r, 'k) object_effect list"
  assumes "readable_object (ob_class ob)" and "cs_inv (ob_stream ob)" and "legal_run (cs_step env) cs_legal (ob_stream ob) evs"
    and "ob_stream_run env cenv evs ob = (ob', out)"
  shows "reports out = concat (map report (new_status (ob_stream ob) (ob_stream ob'))) \<and> cs_inv (ob_stream ob') \<and>
    ob_class ob' = ob_class ob \<and> (cs_getStatus (ob_stream ob) \<noteq> None \<longrightarrow> cs_getStatus (ob_stream ob') = cs_getStatus (ob_stream ob))"
proof -
  obtain st eff where r: "run (cs_step env) (ob_stream ob) evs = (st, eff)" by force
  obtain n o' where l: "run (ClientReadableStreamImpl_on cenv) (ob_pushes ob) (concat (map emitted_event eff)) = (n, o' :: ('r, 'k) object_effect list)" by force
  have "ob' = ob\<lparr>ob_stream := st, ob_pushes := n, ob_buffer := ob_buffer ob @ pushed eff\<rparr>" "out = o'"
    using assms(4) r l by (auto simp: ob_stream_run_def readable_object_on [OF assms(1)])
  moreover have "reports o' = reports (effects (ClientReadableStreamImpl_on cenv) (ob_pushes ob) (concat (map emitted_event eff)) :: ('r, 'k) object_effect list)"
    using l by simp
  then have "reports o' = concat (map report (statuses eff))" by (simp only: listener_reports)
  ultimately show ?thesis using run_statuses [OF assms(2,3)] r by simp
qed

lemma legal_cancels: "legal_run (cs_step env) cs_legal (st :: ('c, 'o) call_stream) (concat (map cancel_event out))"
proof (induction out arbitrary: st)
  case (Cons x out)
  have "cancel_event x = ([] :: 'c cs_event list) \<or> (\<exists>c d. cancel_event x = [CancelWithStatus c d :: 'c cs_event])"
    by (cases x rule: cancel_event.cases) auto
  with Cons show ?case by auto
qed simp

lemma silent_item: "reports (snd (object_on cls cenv n (item_event x))) = []"
proof (cases x)
  case None
  then show ?thesis by (cases cls) simp_all
next
  case (Some b)
  then show ?thesis by (cases cls; cases "cv_deserialize cenv b") simp_all
qed

lemma silent_method: "reports (object_call cls cenv m) = []"
proof -
  have "reports (map ObWrite ws) = []" for ws :: "'d ws_effect list" by (induction ws) auto
  then show ?thesis by (cases cls; cases m) (auto simp: cancel_call_def)
qed

lemma ob_step_reports:
  fixes ob :: "('c, 'o) call_object" and cenv :: "('p, 'r) core_env" and out :: "('r, 'k) object_effect list"
  assumes "readable_object (ob_class ob)" and "cs_inv (ob_stream ob)" and "ob_legal ob e" and "ob_step env cenv ob e = (ob', out)"
  shows "reports out = concat (map report (new_status (ob_stream ob) (ob_stream ob'))) \<and> cs_inv (ob_stream ob') \<and>
    ob_class ob' = ob_class ob \<and> (cs_getStatus (ob_stream ob) \<noteq> None \<longrightarrow> cs_getStatus (ob_stream ob') = cs_getStatus (ob_stream ob))"
proof -
  have act: ?thesis if "ob_act env cenv o1 ob1 = (ob', out)" "ob_stream ob1 = ob_stream ob" "ob_class ob1 = ob_class ob" "reports o1 = []"
    for o1 :: "('r, 'k) object_effect list" and ob1 :: "('c, 'o) call_object"
  proof -
    note acts = that
    obtain o2 :: "('r, 'k) object_effect list" where r: "ob_stream_run env cenv (concat (map cancel_event o1)) ob1 = (ob', o2)" and out: "out = o1 @ o2"
      using acts(1) by (cases "ob_stream_run env cenv (concat (map cancel_event o1)) ob1 :: ('c, 'o) call_object \<times> ('r, 'k) object_effect list")
        (auto simp: ob_act_def)
    have "readable_object (ob_class ob1)" "cs_inv (ob_stream ob1)" using assms(1,2) acts(2,3) by simp_all
    from ob_stream_run_reports [OF this legal_cancels r] acts out show ?thesis by simp
  qed
  show ?thesis
  proof (cases e)
    case (FromStream ev)
    with assms(3,4) ob_stream_run_reports [OF assms(1,2), of env "[ev]" cenv ob' out] show ?thesis by simp
  next
    case Deliver
    with assms(3) obtain x xs where b: "ob_buffer ob = x # xs" by (cases "ob_buffer ob") auto
    obtain n o1 where o1: "object_on (ob_class ob) cenv (ob_pushes ob) (item_event x) = (n, o1 :: ('r, 'k) object_effect list)" by force
    with assms(4) Deliver b have a: "ob_act env cenv o1 (ob\<lparr>ob_pushes := n, ob_buffer := xs\<rparr>) = (ob', out)" by simp
    have "o1 = snd (object_on (ob_class ob) cenv (ob_pushes ob) (item_event x))" using o1 by simp
    then have "reports o1 = []" by (simp only: silent_item)
    then show ?thesis by (intro act [OF a]) simp_all
  next
    case (Invoke m)
    with assms(4) have "ob_act env cenv (object_call (ob_class ob) cenv m) ob = (ob', out)" by simp
    then show ?thesis by (rule act) (simp_all add: silent_method)
  qed
qed

lemma ob_run_reports:
  "\<lbrakk>readable_object (ob_class ob); cs_inv (ob_stream ob); legal_run (ob_step env cenv) ob_legal ob es\<rbrakk> \<Longrightarrow>
   reports (effects (ob_step env cenv) ob es) =
     concat (map report (new_status (ob_stream ob) (ob_stream (final (ob_step env cenv) ob es)))) \<and>
   (cs_getStatus (ob_stream ob) \<noteq> None \<longrightarrow>
     cs_getStatus (ob_stream (final (ob_step env cenv) ob es)) = cs_getStatus (ob_stream ob))"
proof (induction es arbitrary: ob)
  case Nil
  then show ?case by (auto simp: new_status_def split: option.split)
next
  case (Cons e es)
  obtain ob' out where step: "ob_step env cenv ob e = (ob', out)" by force
  from Cons.prems step have l: "ob_legal ob e" "legal_run (ob_step env cenv) ob_legal ob' es" by auto
  note one = ob_step_reports [OF Cons.prems(1,2) l(1) step]
  have "reports (effects (ob_step env cenv) ob' es) =
      concat (map report (new_status (ob_stream ob') (ob_stream (final (ob_step env cenv) ob' es)))) \<and>
    (cs_getStatus (ob_stream ob') \<noteq> None \<longrightarrow>
      cs_getStatus (ob_stream (final (ob_step env cenv) ob' es)) = cs_getStatus (ob_stream ob'))"
    using one Cons.prems(1) l(2) by (intro Cons.IH) simp_all
  with one step show ?case by (auto simp: new_status_def split: option.splits)
qed

end
