(* ===== verification/CoreClient.thy ===== *)
theory CoreClient
  imports CoreObjects
begin

text \<open>
  \<open>grpc-js-core/src/client.ts\<close>: the client, the sorting of optional arguments, the start of the four
  kinds of requests, waiting for the channel, and the handling of a unary response. The last is
  composed with the call stream of \<open>CallStream\<close>: what the stream pushes waits in its buffer until Node
  emits it; the events run the handlers of \<open>handleUnaryResponse\<close>, whose cancellations run
  \<open>cancelWithStatus\<close> on the stream.

  An argument whose kind is tested at run time is a \<open>js_arg\<close>; a deserialized response is not null.
\<close>

section \<open>The client\<close>

definition core_client_options :: "(string \<times> string) list option \<Rightarrow> (string \<times> string) list" where
  "core_client_options options0 =
     (let options = (case options0 of Some o' \<Rightarrow> o' | None \<Rightarrow> []) in
      obj_put ''grpc.primary_user_agent''
        (case map_of options ''grpc.primary_user_agent'' of
           Some ua \<Rightarrow> if ua \<noteq> '''' then ua @ '' '' else ''''
         | None \<Rightarrow> '''') options)"

section \<open>Waiting\<close>

datatype ready_source = ChannelConnected | DeadlineTimer

text \<open>\<open>once(callback)\<close>: the state is whether it was called. The timer is set unless the deadline is
  infinite; its delay is what Node makes of the remaining time.\<close>

fun core_ready_step :: "bool \<Rightarrow> ready_source \<Rightarrow> bool \<times> js_exn option list" where
  "core_ready_step over ChannelConnected = (True, if over then [] else [None])"
| "core_ready_step over DeadlineTimer =
     (True, if over then [] else [Some (JsError ''Failed to connect before the deadline'')])"

definition ready_timer :: "deadline \<Rightarrow> int \<Rightarrow> int option" where
  "ready_timer deadline now =
     (case deadline_ms deadline of
        None \<Rightarrow> None
      | Some d \<Rightarrow> (let timeout = d - now; timeout = (if timeout < 0 then 0 else timeout) in Some (node_timer_delay timeout)))"

interpretation core_ready: latch core_ready_step "\<lambda>_ _. True" "\<lambda>_. True" "\<lambda>over. over" "\<lambda>_. True"
proof unfold_locales
  fix s e
  show "length (filter (\<lambda>_. True) (snd (core_ready_step s e))) = (if \<not> s \<and> fst (core_ready_step s e) then 1 else 0)"
    by (cases e) auto
  show "s \<Longrightarrow> fst (core_ready_step s e)" by (cases e) auto
qed simp

section \<open>Optional arguments\<close>

datatype ('opt, 'cb) js_arg = ArgMissing | ArgMetadata metadata | ArgOptions 'opt | ArgFunction 'cb

fun is_object :: "('opt, 'cb) js_arg \<Rightarrow> bool" where
  "is_object ArgMissing \<longleftrightarrow> False"
| "is_object _ \<longleftrightarrow> True"

record ('opt, 'cb) unary_args =
  ua_metadata :: metadata
  ua_options :: "('opt, 'cb) js_arg"
  ua_callback :: 'cb

definition checkOptionalUnaryResponseArguments ::
  "'opt \<Rightarrow> ('opt, 'cb) js_arg \<Rightarrow> ('opt, 'cb) js_arg \<Rightarrow> ('opt, 'cb) js_arg \<Rightarrow> js_exn + ('opt, 'cb) unary_args" where
  "checkOptionalUnaryResponseArguments no_opts arg1 arg2 arg3 =
     (case arg1 of
        ArgFunction cb \<Rightarrow> Inr \<lparr>ua_metadata = [], ua_options = ArgOptions no_opts, ua_callback = cb\<rparr>
      | _ \<Rightarrow>
          (case arg2 of
             ArgFunction cb \<Rightarrow>
               (case arg1 of
                  ArgMetadata m \<Rightarrow> Inr \<lparr>ua_metadata = m, ua_options = ArgOptions no_opts, ua_callback = cb\<rparr>
                | _ \<Rightarrow> Inr \<lparr>ua_metadata = [], ua_options = arg1, ua_callback = cb\<rparr>)
           | _ \<Rightarrow>
               (case (arg1, is_object arg2, arg3) of
                  (ArgMetadata m, True, ArgFunction cb) \<Rightarrow> Inr \<lparr>ua_metadata = m, ua_options = arg2, ua_callback = cb\<rparr>
                | _ \<Rightarrow> Inl (JsError ''Incorrect arguments passed''))))"

definition checkMetadataAndOptions ::
  "'opt \<Rightarrow> ('opt, 'cb) js_arg \<Rightarrow> ('opt, 'cb) js_arg \<Rightarrow> metadata \<times> ('opt, 'cb) js_arg" where
  "checkMetadataAndOptions no_opts arg1 arg2 =
     (case arg1 of
        ArgMetadata m \<Rightarrow> (m, if is_object arg2 then arg2 else ArgOptions no_opts)
      | _ \<Rightarrow> ([], if is_object arg1 then arg1 else ArgOptions no_opts))"

section \<open>Starting requests\<close>

text \<open>What a request method does, in order. A throwing serializer ends it; so does a shut down channel.\<close>

datatype ('opt, 'cb) request_effect =
    NewStream string metadata "('opt, 'cb) js_arg"
  | WriteMessage bytes "int option"
  | EndStream
  | OnResponse 'cb
  | Throws js_exn

fun arg_flags :: "('opt \<Rightarrow> int option) \<Rightarrow> ('opt, 'cb) js_arg \<Rightarrow> int option" where
  "arg_flags flags_of (ArgOptions o') = flags_of o'"
| "arg_flags flags_of _ = None"

definition create_stream ::
  "conn_state \<Rightarrow> string \<Rightarrow> metadata \<Rightarrow> ('opt, 'cb) js_arg \<Rightarrow> ('opt, 'cb) request_effect list \<Rightarrow>
   ('opt, 'cb) request_effect list" where
  "create_stream state method md options rest =
     (if state = SHUTDOWN then [Throws channel_shut_down] else NewStream method md options # rest)"

definition core_makeUnaryRequest ::
  "('p, 'r) core_env \<Rightarrow> ('opt \<Rightarrow> int option) \<Rightarrow> 'opt \<Rightarrow> conn_state \<Rightarrow> string \<Rightarrow> 'p \<Rightarrow>
   ('opt, 'cb) js_arg \<Rightarrow> ('opt, 'cb) js_arg \<Rightarrow> ('opt, 'cb) js_arg \<Rightarrow> ('opt, 'cb) request_effect list" where
  "core_makeUnaryRequest env flags_of no_opts state method argument arg1 arg2 arg3 =
     (case checkOptionalUnaryResponseArguments no_opts arg1 arg2 arg3 of
        Inl e \<Rightarrow> [Throws e]
      | Inr args \<Rightarrow>
          create_stream state method (ua_metadata args) (ua_options args)
            (case cv_serialize env argument of
               Inl e \<Rightarrow> [Throws e]
             | Inr message \<Rightarrow>
                 [WriteMessage message (arg_flags flags_of (ua_options args)), EndStream, OnResponse (ua_callback args)]))"

definition core_makeClientStreamRequest ::
  "'opt \<Rightarrow> conn_state \<Rightarrow> string \<Rightarrow> ('opt, 'cb) js_arg \<Rightarrow> ('opt, 'cb) js_arg \<Rightarrow> ('opt, 'cb) js_arg \<Rightarrow>
   ('opt, 'cb) request_effect list" where
  "core_makeClientStreamRequest no_opts state method arg1 arg2 arg3 =
     (case checkOptionalUnaryResponseArguments no_opts arg1 arg2 arg3 of
        Inl e \<Rightarrow> [Throws e]
      | Inr args \<Rightarrow> create_stream state method (ua_metadata args) (ua_options args) [OnResponse (ua_callback args)])"

definition core_makeServerStreamRequest ::
  "('p, 'r) core_env \<Rightarrow> ('opt \<Rightarrow> int option) \<Rightarrow> 'opt \<Rightarrow> conn_state \<Rightarrow> string \<Rightarrow> 'p \<Rightarrow>
   ('opt, 'cb) js_arg \<Rightarrow> ('opt, 'cb) js_arg \<Rightarrow> ('opt, 'cb) request_effect list" where
  "core_makeServerStreamRequest env flags_of no_opts state method argument arg1 arg2 =
     (let (md, options) = checkMetadataAndOptions no_opts arg1 arg2 in
      create_stream state method md options
        (case cv_serialize env argument of
           Inl e \<Rightarrow> [Throws e]
         | Inr message \<Rightarrow> [WriteMessage message (arg_flags flags_of options), EndStream]))"

definition core_makeBidiStreamRequest ::
  "'opt \<Rightarrow> conn_state \<Rightarrow> string \<Rightarrow> ('opt, 'cb) js_arg \<Rightarrow> ('opt, 'cb) js_arg \<Rightarrow> ('opt, 'cb) request_effect list" where
  "core_makeBidiStreamRequest no_opts state method arg1 arg2 =
     (let (md, options) = checkMetadataAndOptions no_opts arg1 arg2 in create_stream state method md options [])"

section \<open>Unary responses\<close>

text \<open>The handlers of \<open>handleUnaryResponse\<close>: what they cancel with and what they call back. An error is
  known by its status; the value of a success may be null (\<open>None\<close>).\<close>

definition ur_data :: "('p, 'r) core_env \<Rightarrow> bytes \<Rightarrow> 'r option \<Rightarrow> 'r option \<times> (status \<times> string) list" where
  "ur_data env data responseMessage =
     (let too_many = (if responseMessage \<noteq> None then [(INTERNAL, ''Too many responses received'')] else []) in
      case cv_deserialize env data of
        Inr m \<Rightarrow> (Some m, too_many)
      | Inl e \<Rightarrow> (responseMessage, too_many @ [(INTERNAL, ''Failed to parse server response'')]))"

definition ur_end :: "'r option \<Rightarrow> (status \<times> string) list" where
  "ur_end responseMessage =
     (if responseMessage = None then [(INTERNAL, ''Not enough responses received'')] else [])"

definition ur_status :: "status_object \<Rightarrow> 'r option \<Rightarrow> status_object + 'r option" where
  "ur_status status responseMessage = (if st_code status = OK then Inr responseMessage else Inl status)"

section \<open>A unary call over its call stream\<close>

text \<open>The composed state: the call stream, the items it has pushed that Node has not emitted as \<open>data\<close>
  or \<open>end\<close> yet, and \<open>responseMessage\<close>. The status is emitted at once.\<close>

record ('c, 'o, 'r) unary_call =
  uc_stream :: "('c, 'o) call_stream"
  uc_buffer :: "bytes option list"
  uc_response :: "'r option"

datatype 'c uc_event = UcStream "'c cs_event" | UcDeliver

text \<open>What can be seen: the \<open>data\<close> and \<open>end\<close> events handled and the calls of the callback.\<close>

datatype 'r uc_effect = UcData bytes | UcEnd | UcAnswer "status_object + 'r option"

definition uc_new :: "'o call_options \<Rightarrow> 'o filter_factory list \<Rightarrow> ('c, 'o, 'r) unary_call" where
  "uc_new opts factories = \<lparr>uc_stream = cs_new opts factories, uc_buffer = [], uc_response = None\<rparr>"

text \<open>Events of the stream: its statuses run the status handler.\<close>

definition uc_stream_run ::
  "cs_env \<Rightarrow> 'c cs_event list \<Rightarrow> ('c, 'o, 'r) unary_call \<Rightarrow> ('c, 'o, 'r) unary_call \<times> 'r uc_effect list" where
  "uc_stream_run env evs u =
     (let (st, eff) = run (cs_step env) (uc_stream u) evs
      in (u\<lparr>uc_stream := st, uc_buffer := uc_buffer u @ pushed eff\<rparr>,
          map (\<lambda>s. UcAnswer (ur_status s (uc_response u))) (statuses eff)))"

definition cancels_of :: "(status \<times> string) list \<Rightarrow> 'c cs_event list" where
  "cancels_of cs = map (\<lambda>(code, details). CancelWithStatus code details) cs"

fun uc_step ::
  "cs_env \<Rightarrow> ('p, 'r) core_env \<Rightarrow> ('c, 'o, 'r) unary_call \<Rightarrow> 'c uc_event \<Rightarrow>
   ('c, 'o, 'r) unary_call \<times> 'r uc_effect list" where
  "uc_step env cenv u (UcStream e) = uc_stream_run env [e] u"
| "uc_step env cenv u UcDeliver =
     (case uc_buffer u of
        [] \<Rightarrow> (u, [])
      | Some data # xs \<Rightarrow>
          (let (m, cancels) = ur_data cenv data (uc_response u);
               (u1, out) = uc_stream_run env (cancels_of cancels) (u\<lparr>uc_response := m, uc_buffer := xs\<rparr>)
           in (u1, UcData data # out))
      | None # xs \<Rightarrow>
          (let (u1, out) = uc_stream_run env (cancels_of (ur_end (uc_response u))) (u\<lparr>uc_buffer := xs\<rparr>)
           in (u1, UcEnd # out)))"

fun uc_legal :: "('c, 'o, 'r) unary_call \<Rightarrow> 'c uc_event \<Rightarrow> bool" where
  "uc_legal u (UcStream e) \<longleftrightarrow> cs_legal (uc_stream u) e"
| "uc_legal u UcDeliver \<longleftrightarrow> uc_buffer u \<noteq> []"

section \<open>The callback is called once, with the right value\<close>

fun answers :: "'r uc_effect list \<Rightarrow> (status_object + 'r option) list" where
  "answers [] = []"
| "answers (UcAnswer a # es) = a # answers es"
| "answers (_ # es) = answers es"

fun data_seen :: "'r uc_effect list \<Rightarrow> bytes list" where
  "data_seen [] = []"
| "data_seen (UcData b # es) = b # data_seen es"
| "data_seen (_ # es) = data_seen es"

lemma answers_append [simp]: "answers (xs @ ys) = answers xs @ answers ys"
  by (induction xs rule: answers.induct) auto

lemma data_seen_append [simp]: "data_seen (xs @ ys) = data_seen xs @ data_seen ys"
  by (induction xs rule: data_seen.induct) auto

text \<open>The value of the messages seen: none, or the only one.\<close>

definition seen_one :: "('p, 'r) core_env \<Rightarrow> bytes list \<Rightarrow> 'r option \<Rightarrow> bool" where
  "seen_one env seen r \<longleftrightarrow> seen = [] \<and> r = None \<or> (\<exists>b m. seen = [b] \<and> cv_deserialize env b = Inr m \<and> r = Some m)"

text \<open>The callback was called with the final status and with what the message was then.\<close>

definition answered_with :: "('p, 'r) core_env \<Rightarrow> 'r uc_effect list \<Rightarrow> status_object \<Rightarrow> bool" where
  "answered_with env out s \<longleftrightarrow>
     (\<exists>pre r post. out = pre @ UcAnswer (if st_code s = OK then Inr r else Inl s) # post \<and>
        answers pre = [] \<and> answers post = [] \<and> (st_code s = OK \<longrightarrow> seen_one env (data_seen pre) r))"

definition uc_inv :: "('p, 'r) core_env \<Rightarrow> 'r uc_effect list \<Rightarrow> ('c, 'o, 'r) unary_call \<Rightarrow> bool" where
  "uc_inv env out u \<longleftrightarrow> cs_inv (uc_stream u) \<and>
     (case cs_getStatus (uc_stream u) of
        None \<Rightarrow> answers out = [] \<and> seen_one env (data_seen out) (uc_response u)
      | Some s \<Rightarrow> answered_with env out s)"

lemma uc_inv_new [simp]: "uc_inv env [] (uc_new opts factories)"
  by (simp add: uc_inv_def uc_new_def) (simp add: seen_one_def cs_getStatus_def cs_new_def)

lemma answered_more: "answered_with env out s \<Longrightarrow> answers later = [] \<Longrightarrow> answered_with env (out @ later) s"
  unfolding answered_with_def by (metis answers_append append.assoc append_Cons append_Nil)

text \<open>A run of the stream after \<open>out\<close>: it needs the message seen to be right if it can end with OK.\<close>

lemma uc_stream_run_inv:
  assumes cs: "cs_inv (uc_stream u)" and legal: "legal_run (cs_step env) cs_legal (uc_stream u) evs"
    and ended: "\<And>s. cs_getStatus (uc_stream u) = Some s \<Longrightarrow> answered_with cenv out s"
    and open_call: "cs_getStatus (uc_stream u) = None \<Longrightarrow> answers out = []"
    and right: "\<lbrakk>cs_getStatus (uc_stream u) = None;
        \<forall>s. cs_getStatus (final (cs_step env) (uc_stream u) evs) = Some s \<longrightarrow> st_code s = OK\<rbrakk> \<Longrightarrow>
      seen_one cenv (data_seen out) (uc_response u)"
  shows "uc_inv cenv (out @ snd (uc_stream_run env evs u)) (fst (uc_stream_run env evs u))"
proof -
  let ?st = "final (cs_step env) (uc_stream u) evs"
  note run = run_statuses [OF cs legal]
  have f: "uc_stream (fst (uc_stream_run env evs u)) = ?st" "uc_response (fst (uc_stream_run env evs u)) = uc_response u"
    "snd (uc_stream_run env evs u) = map (\<lambda>s. UcAnswer (ur_status s (uc_response u))) (new_status (uc_stream u) ?st)"
    using run by (simp_all add: uc_stream_run_def case_prod_beta)
  show ?thesis
  proof (cases "cs_getStatus (uc_stream u)")
    case (Some s)
    with run ended f show ?thesis by (simp add: uc_inv_def new_status_def)
  next
    case None
    show ?thesis
    proof (cases "cs_getStatus ?st")
      case st: None
      with None open_call right f run show ?thesis by (simp add: uc_inv_def new_status_def)
    next
      case st: (Some s)
      have "answered_with cenv (out @ [UcAnswer (ur_status s (uc_response u))]) s"
        unfolding answered_with_def ur_status_def using None st open_call right
        by (intro exI [of _ out] exI [of _ "uc_response u"] exI [of _ "[]"]) auto
      with None st f run show ?thesis by (simp add: uc_inv_def new_status_def)
    qed
  qed
qed

lemma cancels_legal: "legal_run (cs_step env) cs_legal st (cancels_of cs)"
  by (induction cs arbitrary: st) (auto simp: cancels_of_def)

lemma cancels_status:
  "\<lbrakk>cs \<noteq> []; cs_getStatus st = None\<rbrakk> \<Longrightarrow>
   cs_getStatus (final (cs_step env) st (cancels_of cs)) =
     Some \<lparr>st_code = fst (hd cs), st_details = snd (hd cs), st_metadata = []\<rparr>"
proof -
  have keep: "cs_getStatus st = Some s \<Longrightarrow> cs_getStatus (final (cs_step env) st (cancels_of cs)) = Some s"
    for s cs and st :: "('a, 'b) call_stream"
    by (induction cs arbitrary: st) (auto simp: cancels_of_def cs_getStatus_def cs_cancelWithStatus_def endCall_def Let_def)
  assume "cs \<noteq> []" "cs_getStatus st = None"
  then obtain c d rest where cs: "cs = (c, d) # rest" by (cases cs) auto
  have "cs_getStatus (fst (cs_step env st (CancelWithStatus c d))) = Some \<lparr>st_code = c, st_details = d, st_metadata = []\<rparr>"
    using \<open>cs_getStatus st = None\<close> by (simp add: cs_getStatus_def cs_cancelWithStatus_def endCall_def)
  from keep [OF this, of rest] show ?thesis by (simp add: cs cancels_of_def)
qed

lemma ur_cancels: "\<forall>c \<in> set (snd (ur_data env d r)). fst c \<noteq> OK" "\<forall>c \<in> set (ur_end r). fst c \<noteq> OK"
  by (auto simp: ur_data_def ur_end_def Let_def split: sum.splits)

text \<open>An item is delivered: the handler of \<open>data\<close> or \<open>end\<close> runs, with its cancellations.\<close>

lemma uc_deliver_inv:
  assumes inv: "uc_inv cenv out u" and cancels: "\<forall>c \<in> set cs. fst c \<noteq> OK" and x: "answers [x] = []"
    and u1: "uc_stream u1 = uc_stream u"
    and right: "\<lbrakk>cs = []; seen_one cenv (data_seen out) (uc_response u)\<rbrakk> \<Longrightarrow>
      seen_one cenv (data_seen (out @ [x])) (uc_response u1)"
  shows "uc_inv cenv (out @ x # snd (uc_stream_run env (cancels_of cs) u1)) (fst (uc_stream_run env (cancels_of cs) u1))"
proof -
  have "uc_inv cenv ((out @ [x]) @ snd (uc_stream_run env (cancels_of cs) u1)) (fst (uc_stream_run env (cancels_of cs) u1))"
  proof (rule uc_stream_run_inv)
    show "cs_inv (uc_stream u1)" using inv u1 by (simp add: uc_inv_def)
    show "answered_with cenv (out @ [x]) s" if "cs_getStatus (uc_stream u1) = Some s" for s
      using inv that x by (intro answered_more) (simp_all add: uc_inv_def u1)
    show "answers (out @ [x]) = []" if "cs_getStatus (uc_stream u1) = None"
      using inv that x by (simp add: uc_inv_def u1)
    assume o': "cs_getStatus (uc_stream u1) = None"
      and ok: "\<forall>s. cs_getStatus (final (cs_step env) (uc_stream u1) (cancels_of cs)) = Some s \<longrightarrow> st_code s = OK"
    have "cs = []"
    proof (rule ccontr)
      assume "cs \<noteq> []"
      with cancels_status [OF this o', of env] ok cancels show False by (cases cs) auto
    qed
    with right inv o' u1 show "seen_one cenv (data_seen (out @ [x])) (uc_response u1)" by (simp add: uc_inv_def)
  qed (rule cancels_legal)
  then show ?thesis by simp
qed

lemma uc_step_inv:
  assumes inv: "uc_inv cenv out u" and legal: "uc_legal u e"
  shows "uc_inv cenv (out @ snd (uc_step env cenv u e)) (fst (uc_step env cenv u e))"
proof (cases e)
  case (UcStream ev)
  with inv legal show ?thesis
    by simp (rule uc_stream_run_inv, auto simp: uc_inv_def split: option.splits)
next
  case UcDeliver
  with legal obtain x xs where b: "uc_buffer u = x # xs" by (cases "uc_buffer u") auto
  show ?thesis
  proof (cases x)
    case None
    have "uc_inv cenv (out @ UcEnd # snd (uc_stream_run env (cancels_of (ur_end (uc_response u))) (u\<lparr>uc_buffer := xs\<rparr>)))
        (fst (uc_stream_run env (cancels_of (ur_end (uc_response u))) (u\<lparr>uc_buffer := xs\<rparr>)))"
      by (rule uc_deliver_inv [OF inv ur_cancels(2)]) simp_all
    with UcDeliver b None show ?thesis by (simp add: case_prod_beta)
  next
    case (Some d)
    obtain m cs where c: "ur_data cenv d (uc_response u) = (m, cs)" by force
    with ur_cancels(1) [of cenv d "uc_response u"] have ok: "\<forall>c \<in> set cs. fst c \<noteq> OK" by simp
    let ?u = "u\<lparr>uc_response := m, uc_buffer := xs\<rparr>"
    have "uc_inv cenv (out @ UcData d # snd (uc_stream_run env (cancels_of cs) ?u)) (fst (uc_stream_run env (cancels_of cs) ?u))"
    proof (rule uc_deliver_inv [OF inv ok])
      assume "cs = []" and seen: "seen_one cenv (data_seen out) (uc_response u)"
      with c have "uc_response u = None" "\<exists>v. cv_deserialize cenv d = Inr v \<and> m = Some v"
        by (auto simp: ur_data_def Let_def split: sum.splits if_splits)
      with seen show "seen_one cenv (data_seen (out @ [UcData d])) (uc_response ?u)" by (auto simp: seen_one_def)
    qed simp_all
    with UcDeliver b Some c show ?thesis by (simp add: case_prod_beta)
  qed
qed

lemma uc_run_inv:
  "\<lbrakk>uc_inv cenv out u; legal_run (uc_step env cenv) uc_legal u es\<rbrakk> \<Longrightarrow>
   uc_inv cenv (out @ effects (uc_step env cenv) u es) (final (uc_step env cenv) u es)"
proof (induction es arbitrary: u out)
  case (Cons e es)
  then have l: "uc_legal u e" "legal_run (uc_step env cenv) uc_legal (fst (uc_step env cenv u e)) es" by auto
  from Cons.IH [OF uc_step_inv [OF Cons.prems(1) l(1)] l(2)] show ?case by simp
qed simp

end
