(* ===== verification/NativeMetadata.thy ===== *)
theory NativeMetadata
  imports MetadataContract
begin

text \<open>
  \<open>grpc-native-core/src/metadata.js\<close>. The three predicates of the native extension
  (\<open>metadataKeyIsLegal\<close>, \<open>metadataKeyIsBinary\<close>, \<open>metadataNonbinValueIsLegal\<close>), which call the gRPC C
  core, are the fields of \<open>native_ext\<close>, a parameter of every operation that uses them. An argument
  that is neither a string nor a buffer is \<open>NotMdVal\<close>.
\<close>

section \<open>The native extension and the arguments\<close>

record native_ext =
  metadataKeyIsLegal :: "string \<Rightarrow> bool"
  metadataKeyIsBinary :: "string \<Rightarrow> bool"
  metadataNonbinValueIsLegal :: "string \<Rightarrow> bool"

datatype md_arg = MdVal md_value | NotMdVal

section \<open>Operations\<close>

definition nm_empty :: metadata where
  "nm_empty = []"

definition nm_normalizeKey :: "native_ext \<Rightarrow> string \<Rightarrow> js_exn + string" where
  "nm_normalizeKey ext key =
     (let key' = to_lower key in
      if metadataKeyIsLegal ext key' then Inr key'
      else Inl (JsError (''Metadata key\"'' @ key' @ ''\" contains illegal characters'')))"

fun nm_validate :: "native_ext \<Rightarrow> string \<Rightarrow> md_arg \<Rightarrow> js_exn + md_value" where
  "nm_validate ext key arg =
     (if metadataKeyIsBinary ext key then
        (case arg of MdVal (MBuffer b) \<Rightarrow> Inr (MBuffer b)
         | _ \<Rightarrow> Inl (JsError ''keys that end with '-bin' must have Buffer values''))
      else
        (case arg of MdVal (MString s) \<Rightarrow>
           (if metadataNonbinValueIsLegal ext s then Inr (MString s)
            else Inl (JsError (''Metadata string value \"'' @ s @ ''\" contains illegal characters'')))
         | _ \<Rightarrow> Inl (JsError ''keys that don't end with '-bin' must have String values'')))"

definition nm_set :: "native_ext \<Rightarrow> string \<Rightarrow> md_arg \<Rightarrow> metadata \<Rightarrow> js_exn + metadata" where
  "nm_set ext key arg m =
     and_then (nm_normalizeKey ext key) (\<lambda>k.
     and_then (nm_validate ext k arg) (\<lambda>v.
     Inr (obj_put k [v] m)))"

text \<open>The property is read through the prototype: an inherited one is truthy and has no \<open>push\<close>.\<close>

definition nm_add :: "native_ext \<Rightarrow> string \<Rightarrow> md_arg \<Rightarrow> metadata \<Rightarrow> js_exn + metadata" where
  "nm_add ext key arg m =
     and_then (nm_normalizeKey ext key) (\<lambda>k.
     and_then (nm_validate ext k arg) (\<lambda>v.
     (case map_of m k of
        Some vs \<Rightarrow> Inr (obj_put k (vs @ [v]) m)
      | None \<Rightarrow>
          if inherited k then Inl (JsTypeError ''this._internal_repr[key].push is not a function'')
          else Inr (obj_put k ([] @ [v]) m))))"

definition nm_remove :: "native_ext \<Rightarrow> string \<Rightarrow> metadata \<Rightarrow> js_exn + metadata" where
  "nm_remove ext key m =
     and_then (nm_normalizeKey ext key) (\<lambda>k. Inr (if has_own m k then obj_del k m else m))"

definition nm_get :: "native_ext \<Rightarrow> string \<Rightarrow> metadata \<Rightarrow> js_exn + md_value list" where
  "nm_get ext key m =
     and_then (nm_normalizeKey ext key) (\<lambda>k.
       Inr (case map_of m k of Some vs \<Rightarrow> vs | None \<Rightarrow> []))"

definition nm_getMap :: "metadata \<Rightarrow> md_value obj" where
  "nm_getMap m =
     fold (\<lambda>(key, values) result. case values of v # _ \<Rightarrow> obj_put key v result | [] \<Rightarrow> result)
       (own_entries m) []"

definition nm_clone :: "metadata \<Rightarrow> metadata" where
  "nm_clone m = fold (\<lambda>e copy. obj_put (fst e) (snd e) copy) (own_entries m) nm_empty"

definition nm_getCoreRepresentation :: "metadata \<Rightarrow> metadata" where
  "nm_getCoreRepresentation m = m"

definition nm_fromCoreRepresentation :: "metadata option \<Rightarrow> metadata" where
  "nm_fromCoreRepresentation repr =
     (case repr of None \<Rightarrow> nm_empty
      | Some r \<Rightarrow> fold (\<lambda>e new. obj_put (fst e) (snd e) new) (own_entries r) nm_empty)"

section \<open>The contract holds\<close>

definition nm_check :: "native_ext \<Rightarrow> string \<Rightarrow> md_value \<Rightarrow> js_exn + string" where
  "nm_check ext key v =
     and_then (nm_normalizeKey ext key) (\<lambda>k. and_then (nm_validate ext k (MdVal v)) (\<lambda>_. Inr k))"

lemma nm_validate_same: "nm_validate ext k (MdVal v) = Inr w \<Longrightarrow> w = v"
  by (auto split: if_splits md_value.splits)

lemma nm_normalizeKey_lower: "nm_normalizeKey ext key = Inr k \<Longrightarrow> k = to_lower key"
  by (auto simp: nm_normalizeKey_def Let_def split: if_splits)

lemma nm_check_Inr:
  "nm_check ext key v = Inr k \<longleftrightarrow> nm_normalizeKey ext key = Inr k \<and> nm_validate ext k (MdVal v) = Inr v"
  by (auto simp: nm_check_def and_then_eq_Inr dest: nm_validate_same simp del: nm_validate.simps)

lemma nm_check_Inl:
  "nm_check ext key v = Inl e \<longleftrightarrow>
   nm_normalizeKey ext key = Inl e \<or>
   (\<exists>k. nm_normalizeKey ext key = Inr k \<and> nm_validate ext k (MdVal v) = Inl e)"
  by (auto simp: nm_check_def and_then_eq_Inl simp del: nm_validate.simps)

abbreviation plain_key :: "string \<Rightarrow> bool" where
  "plain_key key \<equiv> \<not> inherited (to_lower key)"

lemma nm_store:
  "metadata_store (nm_normalizeKey ext) (nm_check ext)
     (\<lambda>k v. nm_set ext k (MdVal v)) (\<lambda>k v. nm_add ext k (MdVal v)) (nm_remove ext) (nm_get ext)
     md_values obj_wf plain_key"
proof unfold_locales
  fix m :: metadata and key k v
  assume wf: "obj_wf m" and pl: "plain_key key" and ch: "nm_check ext key v = Inr k"
  from ch pl have k: "\<not> inherited k" by (auto simp: nm_check_Inr dest: nm_normalizeKey_lower)
  note facts = ch [unfolded nm_check_Inr] not_inherited_proto [OF k] wf k
  show "\<exists>m'. nm_set ext key (MdVal v) m = Inr m' \<and> obj_wf m' \<and> md_values m' = (md_values m)(k := [v])"
    using facts by (auto simp: nm_set_def obj_simps simp del: nm_validate.simps)
  show "\<exists>m'. nm_add ext key (MdVal v) m = Inr m' \<and> obj_wf m' \<and>
         md_values m' = (md_values m)(k := md_values m k @ [v])"
    using facts
    by (auto simp: nm_add_def obj_simps md_values_def [of m k] simp del: nm_validate.simps split: option.split)
next
  fix m :: metadata and key v e
  assume "nm_check ext key v = Inl e"
  then show "nm_set ext key (MdVal v) m = Inl e" "nm_add ext key (MdVal v) m = Inl e"
    by (auto simp: nm_check_Inl nm_set_def nm_add_def simp del: nm_validate.simps)
next
  fix m :: metadata and key k
  assume "obj_wf m" "nm_normalizeKey ext key = Inr k"
  then show "\<exists>m'. nm_remove ext key m = Inr m' \<and> obj_wf m' \<and> md_values m' = (md_values m)(k := [])"
    by (auto simp: nm_remove_def obj_simps has_own_def md_values_def fun_eq_iff)
  show "nm_get ext key m = Inr (md_values m k)"
    using \<open>nm_normalizeKey ext key = Inr k\<close> by (simp add: nm_get_def md_values_def)
qed (auto simp: nm_remove_def nm_get_def nm_check_Inr)

interpretation nm: metadata_store "nm_normalizeKey ext" "nm_check ext"
  "\<lambda>k v. nm_set ext k (MdVal v)" "\<lambda>k v. nm_add ext k (MdVal v)" "nm_remove ext" "nm_get ext"
  md_values obj_wf plain_key
  for ext
  by (rule nm_store)

section \<open>Copies\<close>

lemma nm_rebuild:
  "obj_wf m \<Longrightarrow> map_of (fold (\<lambda>e copy. obj_put (fst e) (snd e) copy) (own_entries m) []) = map_of m"
  using fold_put_map_of [where f = "\<lambda>v. v" and acc = "[]" and es = "own_entries m"] obj_wf_own_entries [of m]
  by (auto simp: fun_eq_iff obj_simps obj_wf_def split: option.split)

lemma nm_clone_map_of: "obj_wf m \<Longrightarrow> map_of (nm_clone m) = map_of m"
  by (simp add: nm_clone_def nm_empty_def nm_rebuild)

lemma nm_clone_wf: "obj_wf (nm_clone m)"
  using fold_put_wf [where f = "\<lambda>v. v" and acc = "[]"] by (simp add: nm_clone_def nm_empty_def)

lemma nm_fromCore_map_of: "obj_wf m \<Longrightarrow> map_of (nm_fromCoreRepresentation (Some m)) = map_of m"
  by (simp add: nm_fromCoreRepresentation_def nm_empty_def nm_rebuild)

lemma nm_getMap_fold:
  assumes "distinct (map fst es)" and "''__proto__'' \<notin> set (map fst es)"
  shows "map_of (fold (\<lambda>(key, values) result. case values of v # _ \<Rightarrow> obj_put key v result | [] \<Rightarrow> result) es acc) k =
    (case map_of es k of Some (v # _) \<Rightarrow> Some v | _ \<Rightarrow> map_of acc k)"
  using assms
proof (induction es arbitrary: acc)
  case Nil
  then show ?case by simp
next
  case (Cons e es)
  obtain key vs where e: "e = (key, vs)" by force
  show ?case
  proof (cases "k = key")
    case True
    with Cons.prems e have "map_of es k = None" by (simp add: map_of_eq_None_iff)
    with Cons True e show ?thesis by (auto simp: obj_simps split: list.split)
  next
    case False
    with Cons e show ?thesis by (auto simp: obj_simps split: option.splits list.splits)
  qed
qed

lemma nm_getMap_first:
  "obj_wf m \<Longrightarrow> map_of (nm_getMap m) k = (case md_values m k of [] \<Rightarrow> None | v # _ \<Rightarrow> Some v)"
  using nm_getMap_fold [of "own_entries m" "[]" k] obj_wf_own_entries [of m]
  by (auto simp: nm_getMap_def obj_simps obj_wf_def md_values_def split: option.split list.split)

end
