(* ===== verification/Common.thy ===== *)
theory Common
  imports NativeMetadata Status
begin

text \<open>
  \<open>grpc-native-core/src/common.js\<close>, and the data the native client and server exchange with the C++
  extension: batches of operations on a call (an object keyed by \<open>grpc.opType\<close>, here a record with one
  field per operation) and error objects, of which only the own properties \<open>message\<close>, \<open>code\<close>,
  \<open>details\<close> and \<open>metadata\<close> matter.
\<close>

section \<open>Helpers\<close>

text \<open>\<open>wrapIgnoreNull\<close> of a given function: null and undefined are \<open>None\<close>.\<close>

fun wrapIgnoreNull :: "('a \<Rightarrow> 'e + 'b) \<Rightarrow> 'a option \<Rightarrow> 'e + 'b option" where
  "wrapIgnoreNull func None = Inr None"
| "wrapIgnoreNull func (Some arg) = map_sum id Some (func arg)"

text \<open>What \<open>log\<close> hands to \<open>logger.error\<close>, at the current verbosity.\<close>

definition common_log :: "int \<Rightarrow> int \<Rightarrow> string \<Rightarrow> string list" where
  "common_log verbosity severity message = (if severity \<ge> verbosity then [message] else [])"

section \<open>Error objects\<close>

text \<open>
  An own property \<open>metadata\<close> may hold undefined. A code is a number: with any other value the C++ extension
  refuses the batch that should send it, and such errors are outside the model.
\<close>

datatype md_slot = MdAbsent | MdUndefined | MdGiven metadata

record err_obj =
  eo_message :: "string option"
  eo_code :: "int option"
  eo_details :: "string option"
  eo_metadata :: md_slot

abbreviation plain_error :: "string \<Rightarrow> err_obj" where
  "plain_error msg \<equiv> \<lparr>eo_message = Some msg, eo_code = None, eo_details = None, eo_metadata = MdAbsent\<rparr>"

text \<open>\<open>e.code = constants.status.INTERNAL\<close>.\<close>

definition internal_error :: "err_obj \<Rightarrow> err_obj" where
  "internal_error e = e\<lparr>eo_code := Some (status_code INTERNAL)\<rparr>"

section \<open>Service definitions\<close>

text \<open>\<open>grpc~MethodDefinition\<close>; a service definition is an object of them.\<close>

record ('s, 'd) method_attrs =
  at_path :: string
  at_originalName :: "string option"
  at_requestStream :: bool
  at_responseStream :: bool
  at_requestSerialize :: 's
  at_responseSerialize :: 's
  at_requestDeserialize :: 'd
  at_responseDeserialize :: 'd

section \<open>Batches\<close>

record out_message =
  msg_bytes :: bytes
  msg_flags :: "int option"

text \<open>The metadata of a status is undefined when \<open>None\<close>.\<close>

record out_status =
  os_code :: int
  os_details :: string
  os_metadata :: "metadata option"

record batch =
  op_send_initial_metadata :: "metadata option"
  op_send_message :: "out_message option"
  op_send_close :: bool
  op_send_status :: "out_status option"
  op_recv_initial_metadata :: bool
  op_recv_message :: bool
  op_recv_status :: bool
  op_recv_close :: bool

definition no_ops :: batch where
  "no_ops = \<lparr>op_send_initial_metadata = None, op_send_message = None, op_send_close = False,
     op_send_status = None, op_recv_initial_metadata = False, op_recv_message = False,
     op_recv_status = False, op_recv_close = False\<rparr>"

lemma no_ops_simps [simp]:
  "op_send_initial_metadata no_ops = None" "op_send_message no_ops = None" "\<not> op_send_close no_ops"
  "op_send_status no_ops = None" "\<not> op_recv_initial_metadata no_ops" "\<not> op_recv_message no_ops"
  "\<not> op_recv_status no_ops" "\<not> op_recv_close no_ops"
  by (simp_all add: no_ops_def)

end
