(* ===== verification/ClientCall.thy ===== *)
theory ClientCall
  imports Common Machines
begin

text \<open>
  One call on the native client, \<open>grpc-native-core/src/client.js\<close>: the classes \<open>ClientUnaryCall\<close>,
  \<open>ClientWritableStream\<close>, \<open>ClientReadableStream\<close> and \<open>ClientDuplexStream\<close> as one record
  (\<open>cl_kind\<close> says which; a class without a field does not use it, and a field the constructor leaves
  undefined is false), and the four \<open>make...Request\<close> methods that start it.

  The callback of a batch gets an error and a result; the C++ extension passes \<open>null\<close> and the result on
  success and only the error on failure, so either may be absent (\<open>None\<close>). The arguments of the
  request methods are those \<open>arguejs\<close> has sorted out. \<open>cl_pending\<close> mirrors the batches started and not
  completed, \<open>cl_finishFired\<close> Node's \<open>finish\<close> event.
\<close>

section \<open>State\<close>

datatype client_kind = ClUnary | ClClientStream | ClServerStream | ClBidi

definition cl_writes :: "client_kind \<Rightarrow> bool" where
  "cl_writes k \<longleftrightarrow> k = ClClientStream \<or> k = ClBidi"

definition cl_reads :: "client_kind \<Rightarrow> bool" where
  "cl_reads k \<longleftrightarrow> k = ClServerStream \<or> k = ClBidi"

datatype 'k cl_tag = ClTagNone | ClTagMetadata | ClTagResponse | ClTagStatus | ClTagRead | ClTagWrite 'k

record 'k client_call =
  cl_kind :: client_kind
  cl_finished :: bool
  cl_reading :: bool
  cl_read_status :: "out_status option"
  cl_received_status :: "out_status option"
  cl_writeFailed :: bool
  cl_started :: bool
  cl_pushes :: nat
  cl_pending :: "'k cl_tag list"
  cl_finishFired :: bool

text \<open>The result of a batch: the status received, the initial metadata and the message (null when there
  is none).\<close>

record cl_response =
  rs_status :: out_status
  rs_metadata :: "metadata option"
  rs_read :: "bytes option"

record ('p, 'r) client_env =
  ce_serialize :: "'p \<Rightarrow> err_obj + bytes"
  ce_deserialize :: "bytes option \<Rightarrow> err_obj + 'r"
  ce_push :: "nat \<Rightarrow> bool"

datatype ('r, 'k) cl_effect =
    ClBatch batch "'k cl_tag"
  | ClCancelWithStatus int string
  | ClCancel
  | ClPush "'r option"
  | ClEmitMetadata metadata
  | ClEmitStatus out_status
  | ClEmitError err_obj
  | ClCallback "err_obj + 'r"
  | ClWriteDone 'k "err_obj option"
  | ClWriteSkipped 'k
  | ClThrow err_obj

text \<open>The constructors.\<close>

definition blank_client_call :: "client_kind \<Rightarrow> 'k client_call" where
  "blank_client_call kind =
     \<lparr>cl_kind = kind, cl_finished = False, cl_reading = False, cl_read_status = None,
      cl_received_status = None, cl_writeFailed = False, cl_started = False, cl_pushes = 0,
      cl_pending = [], cl_finishFired = False\<rparr>"

definition ClientUnaryCall :: "'k client_call" where
  "ClientUnaryCall = blank_client_call ClUnary"

definition ClientWritableStream :: "'k client_call" where
  "ClientWritableStream = blank_client_call ClClientStream"

definition ClientReadableStream :: "'k client_call" where
  "ClientReadableStream =
     (blank_client_call ClServerStream)\<lparr>cl_finished := False, cl_reading := False, cl_read_status := None,
        cl_received_status := None\<rparr>"

definition ClientDuplexStream :: "'k client_call" where
  "ClientDuplexStream = (blank_client_call ClBidi)\<lparr>cl_read_status := None, cl_received_status := None\<rparr>"

fun cl_new :: "client_kind \<Rightarrow> 'k client_call" where
  "cl_new ClUnary = ClientUnaryCall"
| "cl_new ClClientStream = ClientWritableStream"
| "cl_new ClServerStream = ClientReadableStream"
| "cl_new ClBidi = ClientDuplexStream"

lemma cl_new_blank: "cl_new kind = blank_client_call kind"
  by (cases kind) (simp_all add: ClientUnaryCall_def ClientWritableStream_def ClientReadableStream_def
    ClientDuplexStream_def blank_client_call_def)

declare cl_new.simps [simp del]

lemmas cl_new_eq = cl_new_blank [unfolded blank_client_call_def]

section \<open>Writing\<close>

datatype cl_encoding = ClEncodingName string | ClEncodingFlags int

fun cl_finite_flags :: "cl_encoding \<Rightarrow> int option" where
  "cl_finite_flags (ClEncodingFlags n) = Some n"
| "cl_finite_flags (ClEncodingName s) = None"

definition cl_write ::
  "('p, 'r) client_env \<Rightarrow> 'p \<Rightarrow> cl_encoding \<Rightarrow> 'k \<Rightarrow> 'k client_call \<Rightarrow> 'k client_call \<times> ('r, 'k) cl_effect list" where
  "cl_write env chunk encoding cb st =
     (if cl_writeFailed st then (st, [ClWriteSkipped cb])
      else
        (case wrapIgnoreNull (ce_serialize env) (Some chunk) of
           Inl e \<Rightarrow>
             (st, [ClCancelWithStatus (status_code INTERNAL) ''Serialization failure'', ClWriteDone cb (Some e)])
         | Inr None \<Rightarrow> (st, [])
         | Inr (Some message) \<Rightarrow>
             (st, [ClBatch (no_ops\<lparr>op_send_message := Some \<lparr>msg_bytes = message, msg_flags = cl_finite_flags encoding\<rparr>\<rparr>)
                     (ClTagWrite cb)])))"

definition cl_write_done :: "'k \<Rightarrow> err_obj option \<Rightarrow> 'k client_call \<Rightarrow> 'k client_call \<times> ('r, 'k) cl_effect list" where
  "cl_write_done cb err st =
     ((if err \<noteq> None then st\<lparr>cl_writeFailed := True\<rparr> else st), [ClWriteDone cb None])"

text \<open>The listener of \<open>finish\<close>.\<close>

definition cl_finish :: "'k client_call \<Rightarrow> 'k client_call \<times> ('r, 'k) cl_effect list" where
  "cl_finish st = (st, [ClBatch (no_ops\<lparr>op_send_close := True\<rparr>) ClTagNone])"

section \<open>Reading and the final status\<close>

definition status_error :: "out_status \<Rightarrow> err_obj" where
  "status_error status =
     \<lparr>eo_message = Some (os_details status), eo_code = Some (os_code status), eo_details = None,
      eo_metadata = (case os_metadata status of Some m \<Rightarrow> MdGiven m | None \<Rightarrow> MdUndefined)\<rparr>"

definition emitStatusIfDone :: "'k client_call \<Rightarrow> 'k client_call \<times> ('r, 'k) cl_effect list" where
  "emitStatusIfDone st =
     (case (cl_read_status st, cl_received_status st) of
        (Some read_status, Some received_status) \<Rightarrow>
          (let status = (if os_code read_status \<noteq> status_code OK then read_status else received_status) in
           if os_code status = status_code OK
           then (st\<lparr>cl_pushes := Suc (cl_pushes st)\<rparr>, [ClPush None, ClEmitStatus status])
           else (st, [ClEmitError (status_error status), ClEmitStatus status]))
      | _ \<Rightarrow> (st, []))"

definition readsDone :: "out_status option \<Rightarrow> 'k client_call \<Rightarrow> 'k client_call \<times> ('r, 'k) cl_effect list" where
  "readsDone status0 st =
     (let status = (case status0 of Some s \<Rightarrow> s
                    | None \<Rightarrow> \<lparr>os_code = status_code OK, os_details = ''OK'', os_metadata = None\<rparr>);
          eff = (if os_code status \<noteq> status_code OK then [ClCancelWithStatus (os_code status) (os_details status)] else []);
          (st1, eff1) = emitStatusIfDone (st\<lparr>cl_finished := True, cl_read_status := Some status\<rparr>)
      in (st1, eff @ eff1))"

definition receiveStatus :: "out_status \<Rightarrow> 'k client_call \<Rightarrow> 'k client_call \<times> ('r, 'k) cl_effect list" where
  "receiveStatus status st = emitStatusIfDone (st\<lparr>cl_received_status := Some status\<rparr>)"

definition parse_failure :: out_status where
  "parse_failure = \<lparr>os_code = status_code INTERNAL, os_details = ''Failed to parse server response'', os_metadata = None\<rparr>"

abbreviation cl_recv_message :: batch where
  "cl_recv_message \<equiv> no_ops\<lparr>op_recv_message := True\<rparr>"

definition cl_readCallback ::
  "('p, 'r) client_env \<Rightarrow> err_obj + bytes option \<Rightarrow> 'k client_call \<Rightarrow> 'k client_call \<times> ('r, 'k) cl_effect list" where
  "cl_readCallback env event st =
     (case event of
        Inl err \<Rightarrow> readsDone None (st\<lparr>cl_finished := True\<rparr>)
      | Inr data \<Rightarrow>
          (case wrapIgnoreNull (\<lambda>b. ce_deserialize env (Some b)) data of
             Inl e \<Rightarrow> readsDone (Some parse_failure) st
           | Inr deserialized \<Rightarrow>
               if data = None then readsDone None st
               else
                 (let more = ce_push env (cl_pushes st);
                      st1 = st\<lparr>cl_pushes := Suc (cl_pushes st)\<rparr>
                  in if more \<and> data \<noteq> None
                     then (st1, [ClPush deserialized, ClBatch cl_recv_message ClTagRead])
                     else (st1\<lparr>cl_reading := False\<rparr>, [ClPush deserialized]))))"

definition cl_read :: "'k client_call \<Rightarrow> 'k client_call \<times> ('r, 'k) cl_effect list" where
  "cl_read st =
     (if cl_finished st then (st\<lparr>cl_pushes := Suc (cl_pushes st)\<rparr>, [ClPush None])
      else if \<not> cl_reading st then (st\<lparr>cl_reading := True\<rparr>, [ClBatch cl_recv_message ClTagRead])
      else (st, []))"

section \<open>Starting the four kinds of requests\<close>

definition out_metadata :: "metadata \<Rightarrow> metadata" where
  "out_metadata m = nm_getCoreRepresentation (nm_clone m)"

definition makeUnaryRequest ::
  "('p, 'r) client_env \<Rightarrow> 'p \<Rightarrow> metadata \<Rightarrow> int option \<Rightarrow> 'k client_call \<Rightarrow> 'k client_call \<times> ('r, 'k) cl_effect list" where
  "makeUnaryRequest env argument md flags st =
     (case ce_serialize env argument of
        Inl e \<Rightarrow> (st, [ClThrow e])
      | Inr message \<Rightarrow>
          (st, [ClBatch (no_ops\<lparr>op_send_initial_metadata := Some (out_metadata md),
                  op_send_message := Some \<lparr>msg_bytes = message, msg_flags = flags\<rparr>, op_send_close := True,
                  op_recv_initial_metadata := True, op_recv_message := True, op_recv_status := True\<rparr>) ClTagResponse]))"

definition makeClientStreamRequest :: "metadata \<Rightarrow> 'k client_call \<Rightarrow> 'k client_call \<times> ('r, 'k) cl_effect list" where
  "makeClientStreamRequest md st =
     (st, [ClBatch (no_ops\<lparr>op_send_initial_metadata := Some (out_metadata md), op_recv_initial_metadata := True\<rparr>) ClTagMetadata,
           ClBatch (no_ops\<lparr>op_recv_message := True, op_recv_status := True\<rparr>) ClTagResponse])"

definition makeServerStreamRequest ::
  "('p, 'r) client_env \<Rightarrow> 'p \<Rightarrow> metadata \<Rightarrow> int option \<Rightarrow> 'k client_call \<Rightarrow> 'k client_call \<times> ('r, 'k) cl_effect list" where
  "makeServerStreamRequest env argument md flags st =
     (case ce_serialize env argument of
        Inl e \<Rightarrow> (st, [ClThrow e])
      | Inr message \<Rightarrow>
          (st, [ClBatch (no_ops\<lparr>op_send_initial_metadata := Some (out_metadata md), op_recv_initial_metadata := True,
                  op_send_message := Some \<lparr>msg_bytes = message, msg_flags = flags\<rparr>, op_send_close := True\<rparr>) ClTagMetadata,
                ClBatch (no_ops\<lparr>op_recv_status := True\<rparr>) ClTagStatus]))"

definition makeBidiStreamRequest :: "metadata \<Rightarrow> 'k client_call \<Rightarrow> 'k client_call \<times> ('r, 'k) cl_effect list" where
  "makeBidiStreamRequest md st =
     (st, [ClBatch (no_ops\<lparr>op_send_initial_metadata := Some (out_metadata md), op_recv_initial_metadata := True\<rparr>) ClTagMetadata,
           ClBatch (no_ops\<lparr>op_recv_status := True\<rparr>) ClTagStatus])"

definition cl_start ::
  "('p, 'r) client_env \<Rightarrow> 'p \<Rightarrow> metadata \<Rightarrow> int option \<Rightarrow> 'k client_call \<Rightarrow> 'k client_call \<times> ('r, 'k) cl_effect list" where
  "cl_start env argument md flags st0 =
     (let st = st0\<lparr>cl_started := True\<rparr> in
      case cl_kind st of
        ClUnary \<Rightarrow> makeUnaryRequest env argument md flags st
      | ClClientStream \<Rightarrow> makeClientStreamRequest md st
      | ClServerStream \<Rightarrow> makeServerStreamRequest env argument md flags st
      | ClBidi \<Rightarrow> makeBidiStreamRequest md st)"

section \<open>The callbacks of the batches\<close>

definition type_error :: "string \<Rightarrow> err_obj" where
  "type_error msg = plain_error msg"

text \<open>The response of a unary request: \<open>metadata\<close> is emitted, the callback is called, then \<open>status\<close> is
  emitted. A batch error with an OK status only reaches the callback.\<close>

definition unary_response_done ::
  "('p, 'r) client_env \<Rightarrow> err_obj option \<Rightarrow> cl_response option \<Rightarrow> 'k client_call \<Rightarrow>
   'k client_call \<times> ('r, 'k) cl_effect list" where
  "unary_response_done env err response0 st =
     (case response0 of
        None \<Rightarrow> (st, [ClThrow (type_error ''Cannot read property 'status' of undefined'')])
      | Some response \<Rightarrow>
          (let received = (rs_status response)
                 \<lparr>os_metadata := Some (nm_fromCoreRepresentation (os_metadata (rs_status response)))\<rparr>;
               emitted = [ClEmitMetadata (nm_fromCoreRepresentation (rs_metadata response))]
           in if os_code received = status_code OK then
                (case err of
                   Some e \<Rightarrow> (st, emitted @ [ClCallback (Inl e)])
                 | None \<Rightarrow>
                     (case ce_deserialize env (rs_read response) of
                        Inr value \<Rightarrow> (st, emitted @ [ClCallback (Inr value), ClEmitStatus received])
                      | Inl e \<Rightarrow> (st, emitted @ [ClCallback (Inl (status_error parse_failure)), ClEmitStatus parse_failure])))
              else (st, emitted @ [ClCallback (Inl (status_error received)), ClEmitStatus received])))"

text \<open>The same for a client streaming request, which emits the metadata from another batch, and whose
  error message is always the details of the received status.\<close>

definition stream_response_done ::
  "('p, 'r) client_env \<Rightarrow> err_obj option \<Rightarrow> cl_response option \<Rightarrow> 'k client_call \<Rightarrow>
   'k client_call \<times> ('r, 'k) cl_effect list" where
  "stream_response_done env err response0 st =
     (case response0 of
        None \<Rightarrow> (st, [ClThrow (type_error ''Cannot read property 'status' of undefined'')])
      | Some response \<Rightarrow>
          (let received = (rs_status response)
                 \<lparr>os_metadata := Some (nm_fromCoreRepresentation (os_metadata (rs_status response)))\<rparr>;
               failed = (\<lambda>status. [ClCallback (Inl ((status_error status)\<lparr>eo_message := Some (os_details received)\<rparr>)),
                                   ClEmitStatus status])
           in if os_code received = status_code OK then
                (case err of
                   Some e \<Rightarrow> (st, [ClCallback (Inl e)])
                 | None \<Rightarrow>
                     (case ce_deserialize env (rs_read response) of
                        Inr value \<Rightarrow> (st, [ClCallback (Inr value), ClEmitStatus received])
                      | Inl e \<Rightarrow> (st, failed parse_failure)))
              else (st, failed received)))"

definition cl_response_done ::
  "('p, 'r) client_env \<Rightarrow> err_obj option \<Rightarrow> cl_response option \<Rightarrow> 'k client_call \<Rightarrow>
   'k client_call \<times> ('r, 'k) cl_effect list" where
  "cl_response_done env err response st =
     (if cl_kind st = ClUnary then unary_response_done env err response st
      else stream_response_done env err response st)"

definition cl_metadata_done ::
  "err_obj option \<Rightarrow> metadata option \<Rightarrow> 'k client_call \<Rightarrow> 'k client_call \<times> ('r, 'k) cl_effect list" where
  "cl_metadata_done err md st =
     (if err \<noteq> None then (st, []) else (st, [ClEmitMetadata (nm_fromCoreRepresentation md)]))"

definition cl_status_done :: "err_obj + out_status \<Rightarrow> 'k client_call \<Rightarrow> 'k client_call \<times> ('r, 'k) cl_effect list" where
  "cl_status_done r st =
     (case r of
        Inl err \<Rightarrow> (st, [ClEmitError err])
      | Inr status \<Rightarrow>
          receiveStatus (status\<lparr>os_metadata := Some (nm_fromCoreRepresentation (os_metadata status))\<rparr>) st)"

section \<open>The state machine\<close>

datatype ('p, 'k) cl_event =
    ClStart 'p metadata "int option"
  | ClMetadataDone "err_obj option" "metadata option"
  | ClResponseDone "err_obj option" "cl_response option"
  | ClStatusDone "err_obj + out_status"
  | ClReadDone "err_obj + bytes option"
  | ClWriteBatchDone 'k "err_obj option"
  | ClWrite 'p cl_encoding 'k
  | ClFinish
  | ClRead
  | ClCancelCall

fun cl_handle ::
  "('p, 'r) client_env \<Rightarrow> 'k client_call \<Rightarrow> ('p, 'k) cl_event \<Rightarrow> 'k client_call \<times> ('r, 'k) cl_effect list" where
  "cl_handle env st (ClStart argument md flags) = cl_start env argument md flags st"
| "cl_handle env st (ClMetadataDone err md) = cl_metadata_done err md st"
| "cl_handle env st (ClResponseDone err response) = cl_response_done env err response st"
| "cl_handle env st (ClStatusDone r) = cl_status_done r st"
| "cl_handle env st (ClReadDone r) = cl_readCallback env r st"
| "cl_handle env st (ClWriteBatchDone cb err) = cl_write_done cb err st"
| "cl_handle env st (ClWrite chunk encoding cb) = cl_write env chunk encoding cb st"
| "cl_handle env st ClFinish = cl_finish (st\<lparr>cl_finishFired := True\<rparr>)"
| "cl_handle env st ClRead = cl_read st"
| "cl_handle env st ClCancelCall = (st, [ClCancel])"

fun cl_done_tag :: "('p, 'k) cl_event \<Rightarrow> 'k cl_tag option" where
  "cl_done_tag (ClMetadataDone err md) = Some ClTagMetadata"
| "cl_done_tag (ClResponseDone err response) = Some ClTagResponse"
| "cl_done_tag (ClStatusDone r) = Some ClTagStatus"
| "cl_done_tag (ClReadDone r) = Some ClTagRead"
| "cl_done_tag (ClWriteBatchDone cb err) = Some (ClTagWrite cb)"
| "cl_done_tag _ = None"

fun cl_batches :: "('r, 'k) cl_effect list \<Rightarrow> (batch \<times> 'k cl_tag) list" where
  "cl_batches [] = []"
| "cl_batches (ClBatch b t # es) = (b, t) # cl_batches es"
| "cl_batches (_ # es) = cl_batches es"

definition cl_record :: "('p, 'k) cl_event \<Rightarrow> ('r, 'k) cl_effect list \<Rightarrow> 'k client_call \<Rightarrow> 'k client_call" where
  "cl_record e eff st =
     st\<lparr>cl_pending := (case cl_done_tag e of Some t \<Rightarrow> remove1 t (cl_pending st) | None \<Rightarrow> cl_pending st) @
                        map snd (cl_batches eff)\<rparr>"

definition cl_step ::
  "('p, 'r) client_env \<Rightarrow> 'k client_call \<Rightarrow> ('p, 'k) cl_event \<Rightarrow> 'k client_call \<times> ('r, 'k) cl_effect list" where
  "cl_step env st e = (let (st1, eff) = cl_handle env st e in (cl_record e eff st1, eff))"

fun is_start :: "('p, 'k) cl_event \<Rightarrow> bool" where
  "is_start (ClStart argument md flags) \<longleftrightarrow> True"
| "is_start _ \<longleftrightarrow> False"

text \<open>What the runtime promises: a call starts once and first, only started batches complete, the
  stream methods are those of the call's class, and \<open>finish\<close> comes once, after the writes.\<close>

definition cl_legal :: "'k client_call \<Rightarrow> ('p, 'k) cl_event \<Rightarrow> bool" where
  "cl_legal st e \<longleftrightarrow>
     (cl_started st \<longleftrightarrow> \<not> is_start e) \<and>
     (case cl_done_tag e of Some t \<Rightarrow> t \<in> set (cl_pending st) | None \<Rightarrow> True) \<and>
     (case e of
        ClWrite chunk encoding cb \<Rightarrow> cl_writes (cl_kind st) \<and> \<not> cl_finishFired st
      | ClFinish \<Rightarrow> cl_writes (cl_kind st) \<and> \<not> cl_finishFired st
      | ClRead \<Rightarrow> cl_reads (cl_kind st)
      | _ \<Rightarrow> True)"

end
