(* ===== verification/ClientCallFacts.thy ===== *)
theory ClientCallFacts
  imports ClientCall
begin

text \<open>
  What a client call reports to its user. For the two kinds that read, the status event is a latch
  that closes when the reads are done and the status is received, and messages come before it; for
  the two kinds with a callback, the response batch completes at most once, and the callback is called
  when it completes with a response.
\<close>

section \<open>The invariant\<close>

definition cl_both :: "'k client_call \<Rightarrow> bool" where
  "cl_both st \<longleftrightarrow> cl_read_status st \<noteq> None \<and> cl_received_status st \<noteq> None"

definition chosen_status :: "'k client_call \<Rightarrow> out_status option" where
  "chosen_status st =
     (case (cl_read_status st, cl_received_status st) of
        (Some r, Some s) \<Rightarrow> Some (if os_code r \<noteq> status_code OK then r else s)
      | _ \<Rightarrow> None)"

abbreviation pending_count :: "'k client_call \<Rightarrow> 'k cl_tag \<Rightarrow> nat" where
  "pending_count st t \<equiv> count_list (cl_pending st) t"

definition cl_inv :: "'k client_call \<Rightarrow> bool" where
  "cl_inv st \<longleftrightarrow>
     pending_count st ClTagRead \<le> (if cl_reading st \<and> cl_read_status st = None then 1 else 0) \<and>
     (cl_finished st \<longleftrightarrow> cl_read_status st \<noteq> None) \<and> (cl_finished st \<longrightarrow> cl_reading st) \<and>
     pending_count st ClTagStatus \<le> (if cl_started st \<and> cl_received_status st = None then 1 else 0) \<and>
     (cl_received_status st \<noteq> None \<longrightarrow> cl_started st) \<and>
     pending_count st ClTagResponse \<le> (if cl_started st then 1 else 0)"

fun is_cl_status :: "('r, 'k) cl_effect \<Rightarrow> bool" where
  "is_cl_status (ClEmitStatus s) \<longleftrightarrow> True"
| "is_cl_status _ \<longleftrightarrow> False"

fun is_callback :: "('r, 'k) cl_effect \<Rightarrow> bool" where
  "is_callback (ClCallback r) \<longleftrightarrow> True"
| "is_callback _ \<longleftrightarrow> False"

fun is_message :: "('r, 'k) cl_effect \<Rightarrow> bool" where
  "is_message (ClPush (Some m)) \<longleftrightarrow> True"
| "is_message _ \<longleftrightarrow> False"

lemma cl_inv_new [simp]: "cl_inv (cl_new kind)"
  by (simp add: cl_inv_def cl_new_eq)

lemma cl_batches_append [simp]: "cl_batches (xs @ ys) = cl_batches xs @ cl_batches ys"
  by (induction xs rule: cl_batches.induct) auto

section \<open>The status of a reading call\<close>

text \<open>What a handler may do with the two statuses.\<close>

definition statuses_ok :: "'k client_call \<Rightarrow> 'k client_call \<Rightarrow> ('r, 'k) cl_effect list \<Rightarrow> bool" where
  "statuses_ok st st' eff \<longleftrightarrow>
     filter is_cl_status eff = (if \<not> cl_both st \<and> cl_both st' then [ClEmitStatus (the (chosen_status st'))] else []) \<and>
     (cl_both st \<longrightarrow> cl_read_status st' = cl_read_status st \<and> cl_received_status st' = cl_received_status st \<and>
        filter is_message eff = [])"

lemma emitStatusIfDone_effect:
  assumes "emitStatusIfDone st = (st', eff)"
  shows "filter is_cl_status eff = (if cl_both st then [ClEmitStatus (the (chosen_status st))] else [])"
    "filter is_message eff = []" "cl_batches eff = []" "filter is_callback eff = []"
    "cl_read_status st' = cl_read_status st" "cl_received_status st' = cl_received_status st"
    "cl_finished st' = cl_finished st" "cl_reading st' = cl_reading st" "cl_started st' = cl_started st"
    "cl_pending st' = cl_pending st" "cl_kind st' = cl_kind st"
  using assms by (auto simp: emitStatusIfDone_def cl_both_def chosen_status_def Let_def split: option.splits if_splits)

lemma readsDone_effect:
  assumes "readsDone s st = (st', eff)" and "cl_read_status st = None"
  shows "statuses_ok st st' eff" "cl_batches eff = []" "filter is_callback eff = []"
    "cl_read_status st' \<noteq> None" "cl_received_status st' = cl_received_status st"
    "cl_finished st'" "cl_reading st' = cl_reading st" "cl_started st' = cl_started st"
    "cl_pending st' = cl_pending st" "cl_kind st' = cl_kind st"
proof -
  let ?s = "case s of Some s \<Rightarrow> s | None \<Rightarrow> \<lparr>os_code = status_code OK, os_details = ''OK'', os_metadata = None\<rparr>"
  let ?st = "st\<lparr>cl_finished := True, cl_read_status := Some ?s\<rparr>"
  obtain eff1 where e: "emitStatusIfDone ?st = (st', eff1)"
    and eff: "eff = (if os_code ?s \<noteq> status_code OK then [ClCancelWithStatus (os_code ?s) (os_details ?s)] else []) @ eff1"
    using assms(1) by (auto simp: readsDone_def Let_def split: prod.splits)
  note x = emitStatusIfDone_effect [OF e]
  have "cl_both st' = cl_both ?st" "chosen_status st' = chosen_status ?st" using x by (auto simp: cl_both_def chosen_status_def)
  with x assms(2) eff show "statuses_ok st st' eff" "cl_batches eff = []" "filter is_callback eff = []"
    "cl_read_status st' \<noteq> None" "cl_received_status st' = cl_received_status st"
    "cl_finished st'" "cl_reading st' = cl_reading st" "cl_started st' = cl_started st"
    "cl_pending st' = cl_pending st" "cl_kind st' = cl_kind st"
    by (auto simp: statuses_ok_def cl_both_def)
qed

lemma receiveStatus_effect:
  assumes "receiveStatus s st = (st', eff)" and "cl_received_status st = None"
  shows "statuses_ok st st' eff" "cl_batches eff = []" "filter is_callback eff = []"
    "cl_read_status st' = cl_read_status st" "cl_received_status st' = Some s"
    "cl_finished st' = cl_finished st" "cl_reading st' = cl_reading st" "cl_started st' = cl_started st"
    "cl_pending st' = cl_pending st" "cl_kind st' = cl_kind st"
proof -
  let ?st = "st\<lparr>cl_received_status := Some s\<rparr>"
  have e: "emitStatusIfDone ?st = (st', eff)" using assms(1) by (simp add: receiveStatus_def)
  note x = emitStatusIfDone_effect [OF e]
  have "cl_both st' = cl_both ?st" "chosen_status st' = chosen_status ?st" using x by (auto simp: cl_both_def chosen_status_def)
  with x assms(2) show "statuses_ok st st' eff" "cl_batches eff = []" "filter is_callback eff = []"
    "cl_read_status st' = cl_read_status st" "cl_received_status st' = Some s"
    "cl_finished st' = cl_finished st" "cl_reading st' = cl_reading st" "cl_started st' = cl_started st"
    "cl_pending st' = cl_pending st" "cl_kind st' = cl_kind st"
    by (auto simp: statuses_ok_def cl_both_def)
qed

text \<open>The response callbacks emit their own status event; the latch of the reading kinds does not cover them.\<close>

definition cl_handles :: "'k client_call \<Rightarrow> ('p, 'k) cl_event \<Rightarrow> 'k client_call \<Rightarrow> ('r, 'k) cl_effect list \<Rightarrow> bool" where
  "cl_handles st e st' eff \<longleftrightarrow>
     cl_kind st' = cl_kind st \<and> cl_pending st' = cl_pending st \<and>
     (cl_started st' \<longleftrightarrow> cl_started st \<or> is_start e) \<and>
     (cl_done_tag e \<noteq> Some ClTagResponse \<longrightarrow> statuses_ok st st' eff) \<and>
     length (filter is_callback eff) \<le> (if cl_done_tag e = Some ClTagResponse then 1 else 0) \<and>
     (cl_finished st' \<longleftrightarrow> cl_read_status st' \<noteq> None) \<and> (cl_finished st' \<longrightarrow> cl_reading st') \<and>
     pending_count st ClTagRead - (if cl_done_tag e = Some ClTagRead then 1 else 0) +
       count_list (map snd (cl_batches eff)) ClTagRead \<le> (if cl_reading st' \<and> cl_read_status st' = None then 1 else 0) \<and>
     count_list (map snd (cl_batches eff)) ClTagStatus \<le> (if is_start e then 1 else 0) \<and>
     count_list (map snd (cl_batches eff)) ClTagResponse \<le> (if is_start e then 1 else 0) \<and>
     (cl_received_status st' \<noteq> cl_received_status st \<longrightarrow> cl_done_tag e = Some ClTagStatus)"

lemma same_statuses:
  "\<lbrakk>cl_read_status st' = cl_read_status st; cl_received_status st' = cl_received_status st;
    filter is_cl_status eff = []; filter is_message eff = []\<rbrakk> \<Longrightarrow> statuses_ok st st' eff"
  by (auto simp: statuses_ok_def cl_both_def)

text \<open>A handler that leaves the statuses and the reading state alone.\<close>

lemma cl_handles_plain:
  assumes inv: "cl_inv st" and "cl_kind st' = cl_kind st" and "cl_pending st' = cl_pending st"
    and "cl_started st' \<longleftrightarrow> cl_started st \<or> is_start e"
    and "cl_read_status st' = cl_read_status st" and "cl_received_status st' = cl_received_status st"
    and "cl_finished st' = cl_finished st" and "cl_reading st' = cl_reading st"
    and b: "ClTagRead \<notin> set (map snd (cl_batches eff))"
      "count_list (map snd (cl_batches eff)) ClTagStatus \<le> (if is_start e then 1 else 0)"
      "count_list (map snd (cl_batches eff)) ClTagResponse \<le> (if is_start e then 1 else 0)"
    and "cl_done_tag e \<noteq> Some ClTagResponse \<Longrightarrow> filter is_cl_status eff = [] \<and> filter is_message eff = []"
    and "length (filter is_callback eff) \<le> (if cl_done_tag e = Some ClTagResponse then 1 else 0)"
  shows "cl_handles st e st' eff"
proof -
  have "count_list (map snd (cl_batches eff)) ClTagRead = 0" using b(1) by (simp add: count_list_0_iff)
  moreover have "pending_count st ClTagRead \<le> (if cl_reading st \<and> cl_read_status st = None then 1 else 0)"
    and fin: "cl_finished st \<longleftrightarrow> cl_read_status st \<noteq> None" "cl_finished st \<longrightarrow> cl_reading st"
    using inv unfolding cl_inv_def by blast+
  ultimately have r: "pending_count st ClTagRead - (if cl_done_tag e = Some ClTagRead then 1 else 0) +
      count_list (map snd (cl_batches eff)) ClTagRead \<le> (if cl_reading st' \<and> cl_read_status st' = None then 1 else 0)"
    using assms(5,8) by simp
  have "cl_done_tag e \<noteq> Some ClTagResponse \<longrightarrow> statuses_ok st st' eff"
    using assms(5,6) assms(12) by (blast intro: same_statuses)
  with r fin show ?thesis unfolding cl_handles_def using assms(2-8) b(2,3) assms(13) by simp
qed

lemma cl_start_effects:
  assumes "cl_start env a m f st = (st', eff)"
  shows "st' = st\<lparr>cl_started := True\<rparr> \<and> ClTagRead \<notin> set (map snd (cl_batches eff)) \<and>
    count_list (map snd (cl_batches eff)) ClTagStatus \<le> 1 \<and> count_list (map snd (cl_batches eff)) ClTagResponse \<le> 1 \<and>
    filter is_cl_status eff = [] \<and> filter is_message eff = [] \<and> filter is_callback eff = []"
  using assms
  by (cases "cl_kind st"; cases "ce_serialize env a")
    (auto simp: cl_start_def makeUnaryRequest_def makeClientStreamRequest_def
        makeServerStreamRequest_def makeBidiStreamRequest_def)

lemma cl_response_effects:
  assumes "cl_response_done env err r st = (st', eff)"
  shows "st' = st \<and> cl_batches eff = [] \<and> length (filter is_callback eff) \<le> 1"
proof (cases r)
  case None
  with assms show ?thesis
    by (auto simp: cl_response_done_def unary_response_done_def stream_response_done_def split: if_splits)
next
  case (Some resp)
  with assms show ?thesis
    by (cases "ce_deserialize env (rs_read resp)"; cases err)
      (auto simp: cl_response_done_def unary_response_done_def stream_response_done_def Let_def split: if_splits)
qed

lemma cl_handle_ok:
  assumes inv: "cl_inv st" and legal: "cl_legal st e" and step: "cl_handle env st e = (st', eff)"
  shows "cl_handles st e st' eff"
proof (cases e)
  case (ClStart a m f)
  with step have "cl_start env a m f st = (st', eff)" by simp
  from cl_start_effects [OF this] ClStart show ?thesis by (intro cl_handles_plain [OF inv]) auto
next
  case (ClMetadataDone err md)
  with step show ?thesis
    by (intro cl_handles_plain [OF inv]) (auto simp: cl_metadata_done_def split: if_splits)
next
  case (ClResponseDone err r)
  with step have "cl_response_done env err r st = (st', eff)" by simp
  from cl_response_effects [OF this] ClResponseDone show ?thesis by (intro cl_handles_plain [OF inv]) auto
next
  case (ClStatusDone r)
  with legal have "0 < pending_count st ClTagStatus" by (simp add: cl_legal_def count_list_mem)
  with inv have none: "cl_received_status st = None" by (auto simp: cl_inv_def split: if_splits)
  show ?thesis
  proof (cases r)
    case (Inl x)
    with ClStatusDone step show ?thesis
      by (intro cl_handles_plain [OF inv]) (auto simp: cl_status_done_def)
  next
    case (Inr s)
    with ClStatusDone step have "receiveStatus (s\<lparr>os_metadata := Some (nm_fromCoreRepresentation (os_metadata s))\<rparr>) st = (st', eff)"
      by (simp add: cl_status_done_def)
    from receiveStatus_effect [OF this none] ClStatusDone inv show ?thesis
      by (auto simp: cl_handles_def cl_inv_def)
  qed
next
  case (ClReadDone r)
  with legal have "0 < pending_count st ClTagRead" by (simp add: cl_legal_def count_list_mem)
  with inv have one: "pending_count st ClTagRead = 1" "cl_reading st" "cl_read_status st = None" "\<not> cl_finished st"
    by (auto simp: cl_inv_def split: if_splits)
  from step ClReadDone consider (fin) s st0 where "readsDone s st0 = (st', eff)" "st0 = st \<or> st0 = st\<lparr>cl_finished := True\<rparr>"
    | (more) m where "st' = st\<lparr>cl_pushes := Suc (cl_pushes st)\<rparr>" "eff = [ClPush m, ClBatch cl_recv_message ClTagRead]"
    | (stop) m where "st' = st\<lparr>cl_pushes := Suc (cl_pushes st), cl_reading := False\<rparr>" "eff = [ClPush m]"
    by (auto simp: cl_readCallback_def Let_def split: sum.splits if_splits)
  then show ?thesis
  proof cases
    case fin
    from fin(2) one(3) have "cl_read_status st0 = None" by auto
    note x = readsDone_effect [OF fin(1) this]
    have "statuses_ok st st' eff" using x(1) fin(2) one(3) by (auto simp: statuses_ok_def cl_both_def)
    with x fin(2) one ClReadDone show ?thesis by (auto simp: cl_handles_def)
  qed (use one ClReadDone in \<open>auto simp: cl_handles_def statuses_ok_def cl_both_def\<close>)
next
  case (ClWriteBatchDone cb err)
  with step show ?thesis
    by (cases err; intro cl_handles_plain [OF inv]) (auto simp: cl_write_done_def)
next
  case (ClWrite chunk encoding cb)
  with step show ?thesis
    by (cases "ce_serialize env chunk"; intro cl_handles_plain [OF inv]) (auto simp: cl_write_def split: if_splits)
next
  case ClFinish
  with step show ?thesis by (intro cl_handles_plain [OF inv]) (auto simp: cl_finish_def)
next
  case ClRead
  show ?thesis
  proof (cases "cl_finished st \<or> cl_reading st")
    case True
    with step ClRead show ?thesis
      by (intro cl_handles_plain [OF inv]) (auto simp: cl_read_def split: if_splits)
  next
    case False
    with step ClRead inv show ?thesis
      by (auto simp: cl_handles_def cl_inv_def cl_read_def statuses_ok_def cl_both_def)
  qed
next
  case ClCancelCall
  with step show ?thesis by (intro cl_handles_plain [OF inv]) auto
qed

lemma cl_record_simps [simp]:
  "cl_kind (cl_record e eff st) = cl_kind st" "cl_started (cl_record e eff st) = cl_started st"
  "cl_read_status (cl_record e eff st) = cl_read_status st"
  "cl_received_status (cl_record e eff st) = cl_received_status st"
  "cl_finished (cl_record e eff st) = cl_finished st" "cl_reading (cl_record e eff st) = cl_reading st"
  "cl_both (cl_record e eff st) = cl_both st" "chosen_status (cl_record e eff st) = chosen_status st"
  by (simp_all add: cl_record_def cl_both_def chosen_status_def)

lemma cl_step_ok:
  assumes inv: "cl_inv st" and legal: "cl_legal st e" and step: "cl_step env st e = (st', eff)"
  shows "cl_inv st'" and "cl_done_tag e \<noteq> Some ClTagResponse \<Longrightarrow> statuses_ok st st' eff"
    and "pending_count st' ClTagResponse + (if cl_done_tag e = Some ClTagResponse then 1 else 0) \<le>
      pending_count st ClTagResponse + (if is_start e then 1 else 0)"
    and "cl_done_tag e \<noteq> Some ClTagResponse \<Longrightarrow> filter is_callback eff = []"
    and "cl_kind st' = cl_kind st" and "cl_started st' \<longleftrightarrow> cl_started st \<or> is_start e"
proof -
  obtain st1 where h: "cl_handle env st e = (st1, eff)" and st': "st' = cl_record e eff st1"
    using step by (auto simp: cl_step_def Let_def split: prod.splits)
  note ok = cl_handle_ok [OF inv legal h, unfolded cl_handles_def]
  have pend: "pending_count st' t = (if cl_done_tag e = Some t then pending_count st t - 1 else pending_count st t) +
      count_list (map snd (cl_batches eff)) t" for t
    using ok unfolding st' by (simp add: cl_record_def count_list_remove1 split: option.split)
  have start: "is_start e \<Longrightarrow> \<not> cl_started st \<and> cl_done_tag e = None" using legal by (cases e) (simp_all add: cl_legal_def)
  have done_: "cl_done_tag e = Some t \<Longrightarrow> 0 < pending_count st t" for t
    using legal by (simp add: cl_legal_def count_list_mem)
  have i1: "pending_count st ClTagStatus \<le> (if cl_started st \<and> cl_received_status st = None then 1 else 0)"
    and i2: "cl_received_status st \<noteq> None \<longrightarrow> cl_started st"
    and i3: "pending_count st ClTagResponse \<le> (if cl_started st then 1 else 0)" using inv unfolding cl_inv_def by blast+
  have o1: "cl_started st' \<longleftrightarrow> cl_started st \<or> is_start e"
    and o2: "length (filter is_callback eff) \<le> (if cl_done_tag e = Some ClTagResponse then 1 else 0)"
    and o3: "count_list (map snd (cl_batches eff)) ClTagStatus \<le> (if is_start e then 1 else 0)"
    and o4: "count_list (map snd (cl_batches eff)) ClTagResponse \<le> (if is_start e then 1 else 0)"
    and o5: "cl_received_status st' \<noteq> cl_received_status st \<longrightarrow> cl_done_tag e = Some ClTagStatus"
    using ok unfolding st' by simp_all
  have more: "pending_count st' ClTagResponse + (if cl_done_tag e = Some ClTagResponse then 1 else 0) \<le>
      pending_count st ClTagResponse + (if is_start e then 1 else 0)"
    using o4 done_ [of ClTagResponse] unfolding pend by auto
  have stat: "cl_done_tag e = Some ClTagStatus \<Longrightarrow> pending_count st ClTagStatus = 1 \<and> cl_started st"
    using done_ [of ClTagStatus] i1 by (auto split: if_splits)
  have r: "pending_count st' ClTagRead \<le> (if cl_reading st' \<and> cl_read_status st' = None then 1 else 0)"
    using ok unfolding pend unfolding st' by (simp split: if_splits)
  have s: "pending_count st' ClTagStatus \<le> (if cl_started st' \<and> cl_received_status st' = None then 1 else 0)"
    using i1 i2 o1 o3 o5 stat start unfolding pend by (cases "is_start e"; cases "cl_done_tag e = Some ClTagStatus") (auto split: if_splits)
  have p: "pending_count st' ClTagResponse \<le> (if cl_started st' then 1 else 0)"
    using more i3 o1 start by (cases "is_start e") (auto split: if_splits)
  have sr: "cl_received_status st' \<noteq> None \<longrightarrow> cl_started st'" using i2 o1 o5 stat by metis
  show "cl_inv st'" unfolding cl_inv_def using r s p sr ok unfolding st' by simp
  show "statuses_ok st st' eff" if "cl_done_tag e \<noteq> Some ClTagResponse"
    using ok that unfolding st' statuses_ok_def by simp
  show "pending_count st' ClTagResponse + (if cl_done_tag e = Some ClTagResponse then 1 else 0) \<le>
      pending_count st ClTagResponse + (if is_start e then 1 else 0)" by (rule more)
  show "filter is_callback eff = []" if "cl_done_tag e \<noteq> Some ClTagResponse" using o2 that by simp
  show "cl_started st' \<longleftrightarrow> cl_started st \<or> is_start e" by (rule o1)
  show "cl_kind st' = cl_kind st" using ok unfolding st' by simp
qed

lemma reading_no_response:
  assumes "cl_inv st" and "cl_legal st e" and "cl_reads (cl_kind st)" and "ClTagResponse \<notin> set (cl_pending st)"
    and step: "cl_step env st e = (st', eff)"
  shows "ClTagResponse \<notin> set (cl_pending st')"
proof -
  obtain st1 where h: "cl_handle env st e = (st1, eff)" and st': "st' = cl_record e eff st1"
    using step by (auto simp: cl_step_def Let_def split: prod.splits)
  note ok = cl_handle_ok [OF assms(1,2) h, unfolded cl_handles_def]
  have "ClTagResponse \<notin> set (map snd (cl_batches eff))"
  proof (cases "is_start e")
    case True
    with h assms(3) show ?thesis
      by (cases e) (auto simp: cl_start_def makeServerStreamRequest_def makeBidiStreamRequest_def cl_reads_def Let_def
          split: sum.splits)
  next
    case False
    with ok have "count_list (map snd (cl_batches eff)) ClTagResponse = 0" by simp
    then show ?thesis by (simp add: count_list_0_iff)
  qed
  moreover have "cl_pending st1 = cl_pending st" using ok by simp
  ultimately show ?thesis using assms(4) unfolding st'
    by (auto simp: cl_record_def dest: notin_set_remove1 split: option.splits)
qed

section \<open>The latches\<close>

definition cl_reading_inv :: "'k client_call \<Rightarrow> bool" where
  "cl_reading_inv st \<longleftrightarrow> cl_inv st \<and> cl_reads (cl_kind st) \<and> ClTagResponse \<notin> set (cl_pending st)"

lemma cl_reading_new [simp]: "cl_reads kind \<Longrightarrow> cl_reading_inv (cl_new kind)"
  by (simp add: cl_reading_inv_def) (simp add: cl_new_eq)

lemma cl_reading_step:
  assumes inv: "cl_reading_inv st" and legal: "cl_legal st e" and step: "cl_step env st e = (st', eff)"
  shows "cl_reading_inv st' \<and> statuses_ok st st' eff"
proof -
  from inv have i: "cl_inv st" "cl_reads (cl_kind st)" "ClTagResponse \<notin> set (cl_pending st)" by (auto simp: cl_reading_inv_def)
  have "cl_done_tag e \<noteq> Some ClTagResponse" using legal i(3) by (auto simp: cl_legal_def)
  with cl_step_ok [OF i(1) legal step] reading_no_response [OF i(1) legal i(2,3) step] i
  show ?thesis by (auto simp: cl_reading_inv_def)
qed

interpretation status_latch: latch "cl_step env" cl_legal cl_reading_inv cl_both is_cl_status
  for env :: "('p, 'r) client_env"
proof unfold_locales
  fix st :: "'c client_call" and e :: "('p, 'c) cl_event"
  assume a: "cl_reading_inv st" "cl_legal st e"
  obtain st' eff where step: "cl_step env st e = (st', eff)" by force
  note ok = cl_reading_step [OF a step]
  show "cl_reading_inv (fst (cl_step env st e))" using ok step by simp
  show "cl_both st \<Longrightarrow> cl_both (fst (cl_step env st e))" using ok step by (auto simp: statuses_ok_def cl_both_def)
  show "length (filter is_cl_status (snd (cl_step env st e))) =
      (if \<not> cl_both st \<and> cl_both (fst (cl_step env st e)) then 1 else 0)"
    using ok step by (simp add: statuses_ok_def)
qed

interpretation client_call: machine "cl_step env" cl_legal cl_inv
  for env :: "('p, 'r) client_env"
proof unfold_locales
  fix st :: "'c client_call" and e :: "('p, 'c) cl_event"
  assume a: "cl_inv st" "cl_legal st e"
  obtain st' eff where step: "cl_step env st e = (st', eff)" by force
  show "cl_inv (fst (cl_step env st e))" using cl_step_ok(1) [OF a step] step by simp
qed

section \<open>The callback\<close>

text \<open>The completions of the response batch, with the error and the response the extension passes.\<close>

fun responses :: "('p, 'k) cl_event list \<Rightarrow> (err_obj option \<times> cl_response option) list" where
  "responses [] = []"
| "responses (ClResponseDone err r # es) = (err, r) # responses es"
| "responses (_ # es) = responses es"

lemma responses_Cons: "responses (e # es) = responses [e] @ responses es"
  by (cases e) auto

lemma responses_tag: "length (responses [e]) = (if cl_done_tag e = Some ClTagResponse then 1 else 0)"
  by (cases e) auto

lemma responses_bounded:
  "\<lbrakk>cl_inv st; legal_run (cl_step env) cl_legal st es\<rbrakk> \<Longrightarrow>
   length (responses es) \<le> pending_count st ClTagResponse + (if cl_started st then 0 else 1)"
proof (induction es arbitrary: st)
  case (Cons e es)
  obtain st' eff where step: "cl_step env st e = (st', eff)" by force
  from Cons.prems step have a: "cl_inv st" "cl_legal st e" and l: "legal_run (cl_step env) cl_legal st' es" by auto
  note ok = cl_step_ok [OF a step]
  have "is_start e \<Longrightarrow> \<not> cl_started st" using a(2) by (simp add: cl_legal_def)
  with Cons.IH [OF ok(1) l] ok(3,6) responses_tag [of e] show ?case
    by (cases "is_start e") (auto simp: responses_Cons [of e es] split: if_splits)
qed simp

text \<open>What one completed response calls back: a value if the status is OK and the message parses.\<close>

definition answer_for :: "('p, 'r) client_env \<Rightarrow> err_obj option \<Rightarrow> cl_response \<Rightarrow> err_obj + 'r \<Rightarrow> bool" where
  "answer_for env err r x \<longleftrightarrow>
     (\<forall>v. x = Inr v \<longleftrightarrow> err = None \<and> os_code (rs_status r) = 0 \<and> ce_deserialize env (rs_read r) = Inr v)"

lemma response_callback:
  "filter is_callback (snd (cl_response_done env err None st)) = []"
  "\<exists>x. filter is_callback (snd (cl_response_done env err (Some r) st)) = [ClCallback x] \<and> answer_for env err r x"
  by (auto simp: cl_response_done_def unary_response_done_def stream_response_done_def answer_for_def Let_def
      split: option.split sum.split)

definition callbacks_for :: "('p, 'r) client_env \<Rightarrow> (err_obj option \<times> cl_response option) list \<Rightarrow> ('r, 'k) cl_effect list \<Rightarrow> bool" where
  "callbacks_for env rs eff \<longleftrightarrow>
     (case rs of
        [(err, Some r)] \<Rightarrow> \<exists>x. filter is_callback eff = [ClCallback x] \<and> answer_for env err r x
      | _ \<Rightarrow> filter is_callback eff = [])"

lemma callbacks_step:
  assumes "cl_inv st" "cl_legal st e"
  shows "callbacks_for env (responses [e]) (snd (cl_step env st e))"
proof (cases e)
  case (ClResponseDone err r)
  with response_callback [of env err] show ?thesis
    by (cases r) (auto simp: callbacks_for_def cl_step_def case_prod_beta)
qed (use cl_step_ok(4) [OF assms, of env "fst (cl_step env st e)" "snd (cl_step env st e)"] in
    \<open>simp_all add: callbacks_for_def\<close>)

lemma callbacks_run:
  "\<lbrakk>cl_inv st; legal_run (cl_step env) cl_legal st es; length (responses es) \<le> 1\<rbrakk> \<Longrightarrow>
   callbacks_for env (responses es) (effects (cl_step env) st es)"
proof (induction es arbitrary: st)
  case Nil
  then show ?case by (simp add: callbacks_for_def)
next
  case (Cons e es)
  then have a: "cl_inv st" "cl_legal st e" by auto
  have "cl_inv (fst (cl_step env st e))" by (rule client_call.inv_step [OF a])
  with Cons have ih: "callbacks_for env (responses es) (effects (cl_step env) (fst (cl_step env st e)) es)"
    by (auto simp: responses_Cons [of e es])
  show ?case
  proof (cases "responses [e]")
    case Nil
    with ih callbacks_step [OF a, of env] show ?thesis
      by (auto simp: responses_Cons [of e es] callbacks_for_def split: list.splits option.splits)
  next
    case (Cons x xs)
    with Cons.prems(3) have "responses es = []" "xs = []" by (auto simp: responses_Cons [of e es])
    with ih callbacks_step [OF a, of env] Cons show ?thesis
      by (auto simp: responses_Cons [of e es] callbacks_for_def split: list.splits option.splits)
  qed
qed

section \<open>Which status, and what comes after it\<close>

lemma after_both:
  "\<lbrakk>cl_reading_inv st; legal_run (cl_step env) cl_legal st es; cl_both st\<rbrakk> \<Longrightarrow>
   filter is_cl_status (effects (cl_step env) st es) = [] \<and> filter is_message (effects (cl_step env) st es) = [] \<and>
   chosen_status (final (cl_step env) st es) = chosen_status st"
proof (induction es arbitrary: st)
  case (Cons e es)
  obtain st' eff where step: "cl_step env st e = (st', eff)" by force
  from Cons.prems step have a: "cl_reading_inv st" "cl_legal st e" by auto
  note ok = cl_reading_step [OF a step]
  with Cons.prems have b: "cl_both st'" "chosen_status st' = chosen_status st"
    by (auto simp: statuses_ok_def cl_both_def chosen_status_def)
  with Cons.IH [of st'] ok Cons.prems step show ?case by (auto simp: statuses_ok_def)
qed simp

lemma emitted_status:
  "\<lbrakk>cl_reading_inv st; legal_run (cl_step env) cl_legal st es; \<not> cl_both st\<rbrakk> \<Longrightarrow>
   filter is_cl_status (effects (cl_step env) st es) =
     (case chosen_status (final (cl_step env) st es) of None \<Rightarrow> [] | Some s \<Rightarrow> [ClEmitStatus s])"
proof (induction es arbitrary: st)
  case Nil
  then show ?case by (auto simp: cl_both_def chosen_status_def split: option.splits)
next
  case (Cons e es)
  obtain st' eff where step: "cl_step env st e = (st', eff)" by force
  from Cons.prems step have a: "cl_reading_inv st" "cl_legal st e" and l: "legal_run (cl_step env) cl_legal st' es" by auto
  note ok = cl_reading_step [OF a step]
  show ?case
  proof (cases "cl_both st'")
    case True
    then obtain s where s: "chosen_status st' = Some s" by (auto simp: cl_both_def chosen_status_def split: option.splits)
    with after_both [of st' env es] True ok l Cons.prems step show ?thesis by (auto simp: statuses_ok_def)
  next
    case False
    with Cons.IH [of st'] ok l Cons.prems step show ?thesis by (auto simp: statuses_ok_def)
  qed
qed

section \<open>The messages\<close>

fun cl_messages :: "('r, 'k) cl_effect list \<Rightarrow> 'r list" where
  "cl_messages [] = []"
| "cl_messages (ClPush (Some m) # es) = m # cl_messages es"
| "cl_messages (_ # es) = cl_messages es"

lemma cl_messages_append [simp]: "cl_messages (xs @ ys) = cl_messages xs @ cl_messages ys"
  by (induction xs rule: cl_messages.induct) auto

text \<open>The messages the reads bring that the deserializer accepts.\<close>

fun parsed_messages :: "('p, 'r) client_env \<Rightarrow> ('p, 'k) cl_event list \<Rightarrow> 'r list" where
  "parsed_messages env [] = []"
| "parsed_messages env (ClReadDone (Inr (Some b)) # es) =
     (case ce_deserialize env (Some b) of Inr m \<Rightarrow> m # parsed_messages env es | Inl e \<Rightarrow> parsed_messages env es)"
| "parsed_messages env (_ # es) = parsed_messages env es"

lemma no_messages: "filter is_message xs = [] \<Longrightarrow> cl_messages xs = []"
  by (induction xs rule: cl_messages.induct) (auto split: if_splits)

lemma emitStatusIfDone_messages: "cl_messages (snd (emitStatusIfDone st)) = []"
  by (auto simp: emitStatusIfDone_def Let_def split: option.split)

lemma readsDone_messages: "cl_messages (snd (readsDone s st)) = []"
  by (simp add: readsDone_def Let_def emitStatusIfDone_messages split: prod.split option.split)
    (metis emitStatusIfDone_messages snd_conv)

lemma unary_response_messages: "cl_messages (snd (cl_response_done env err r st)) = []"
  by (auto simp: cl_response_done_def unary_response_done_def stream_response_done_def Let_def
      split: option.split sum.split)

lemma start_messages: "cl_messages (snd (cl_start env a m f st)) = []"
  by (cases "cl_kind st"; cases "ce_serialize env a")
    (simp_all add: cl_start_def makeUnaryRequest_def makeClientStreamRequest_def
      makeServerStreamRequest_def makeBidiStreamRequest_def)

lemma cl_step_messages: "cl_messages (snd (cl_step env st e)) = parsed_messages env [e]"
proof -
  have h: "snd (cl_step env st e) = snd (cl_handle env st e)" by (simp add: cl_step_def Let_def split: prod.split)
  show ?thesis unfolding h
  proof (cases e)
    case (ClReadDone r)
    show "cl_messages (snd (cl_handle env st e)) = parsed_messages env [e]"
    proof (cases r)
      case (Inl x)
      with ClReadDone show ?thesis by (simp add: cl_readCallback_def readsDone_messages)
    next
      case (Inr d)
      show ?thesis
      proof (cases d)
        case None
        with ClReadDone Inr show ?thesis by (simp add: cl_readCallback_def readsDone_messages)
      next
        case (Some b)
        with ClReadDone Inr show ?thesis
          by (cases "ce_deserialize env (Some b)") (auto simp: cl_readCallback_def readsDone_messages Let_def)
      qed
    qed
  next
    case (ClStatusDone r)
    then show "cl_messages (snd (cl_handle env st e)) = parsed_messages env [e]"
      by (cases r) (simp_all add: cl_status_done_def receiveStatus_def emitStatusIfDone_messages)
  next
    case (ClWrite chunk encoding cb)
    then show "cl_messages (snd (cl_handle env st e)) = parsed_messages env [e]"
      by (cases "ce_serialize env chunk") (simp_all add: cl_write_def)
  qed (auto simp: start_messages unary_response_messages cl_metadata_done_def cl_write_done_def cl_finish_def cl_read_def)
qed

lemma parsed_messages_Cons: "parsed_messages env (e # es) = parsed_messages env [e] @ parsed_messages env es"
proof (cases e)
  case (ClReadDone r)
  then show ?thesis by (cases r; (simp; fail)?) (case_tac b, auto split: sum.split)
qed auto

lemma client_messages: "cl_messages (effects (cl_step env) st es) = parsed_messages env es"
proof (induction es arbitrary: st)
  case (Cons e es)
  show ?case
    by (simp only: run_Cons_snd cl_messages_append cl_step_messages Cons.IH parsed_messages_Cons [of env e es])
qed simp

text \<open>The response of a unary request reaches the user as the event metadata, then one call
  of the callback, then the event status: the deserialized message for an OK status,
  an error with the code, details and metadata of a status that is not OK, and an
  INTERNAL error when an OK response does not parse.\<close>

lemma unary_response_is_reported:
  "snd (unary_response_done env None (Some r) st) =
     (let s = (rs_status r)\<lparr>os_metadata := Some (nm_fromCoreRepresentation (os_metadata (rs_status r)))\<rparr>;
          failed = (\<lambda>s. [ClCallback (Inl \<lparr>eo_message = Some (os_details s), eo_code = Some (os_code s), eo_details = None,
             eo_metadata = (case os_metadata s of Some m \<Rightarrow> MdGiven m | None \<Rightarrow> MdUndefined)\<rparr>), ClEmitStatus s])
      in ClEmitMetadata (nm_fromCoreRepresentation (rs_metadata r)) #
         (if os_code s = 0 then
            (case ce_deserialize env (rs_read r) of
               Inr m \<Rightarrow> [ClCallback (Inr m), ClEmitStatus s]
             | Inl e \<Rightarrow> failed \<lparr>os_code = 13, os_details = ''Failed to parse server response'', os_metadata = None\<rparr>)
          else failed s))"
  by (simp add: unary_response_done_def Let_def status_error_def parse_failure_def split: sum.split)

end
