(* ===== verification/ClientObject.thy ===== *)
theory ClientObject
  imports ClientCallFacts Filters
begin

text \<open>
  The rest of \<open>grpc-native-core/src/client.js\<close>: call options, the \<open>Client\<close> constructor,
  \<open>waitForReady\<close>, the wrappers of the deprecated argument order and \<open>makeClientConstructor\<close>. The C++
  channel and call are known by the arguments they are created with.
\<close>

section \<open>Call objects\<close>

record ('call, 'creds) client_options =
  co_deadline :: "deadline option"
  co_host :: "string option"
  co_parent :: "'call option option"
  co_propagate_flags :: "int option"
  co_credentials :: "'creds option"

record ('chan, 'call, 'creds) native_call =
  nc_channel :: 'chan
  nc_method :: string
  nc_deadline :: deadline
  nc_host :: "string option"
  nc_parent :: "'call option"
  nc_propagate_flags :: "int option"
  nc_credentials :: "'creds option"

text \<open>\<open>co_parent\<close> is the option \<open>parent\<close>, an object that may have a \<open>call\<close>; \<open>_.get\<close> of a missing step is
  undefined.\<close>

definition getCall ::
  "'chan \<Rightarrow> string \<Rightarrow> ('call, 'creds) client_options option \<Rightarrow> ('chan, 'call, 'creds) native_call" where
  "getCall channel method options =
     (let (deadline, host, parent, propagate_flags, credentials) =
        (case options of
           Some o' \<Rightarrow> (co_deadline o', co_host o', Option.bind (co_parent o') (\<lambda>p. p), co_propagate_flags o', co_credentials o')
         | None \<Rightarrow> (None, None, None, None, None));
        deadline = (case deadline of Some d \<Rightarrow> d | None \<Rightarrow> Infinite)
      in \<lparr>nc_channel = channel, nc_method = method, nc_deadline = deadline, nc_host = host, nc_parent = parent,
          nc_propagate_flags = propagate_flags, nc_credentials = credentials\<rparr>)"

section \<open>The client\<close>

text \<open>A channel option is a string or a number; \<open>+=\<close> with a string makes a string of it.\<close>

datatype option_value = OptString string | OptNumber int

fun opt_truthy :: "option_value \<Rightarrow> bool" where
  "opt_truthy (OptString s) \<longleftrightarrow> s \<noteq> []"
| "opt_truthy (OptNumber n) \<longleftrightarrow> n \<noteq> 0"

fun opt_text :: "option_value \<Rightarrow> string" where
  "opt_text (OptString s) = s"
| "opt_text (OptNumber n) = int_digits n"

abbreviation user_agent_key :: string where
  "user_agent_key \<equiv> ''grpc.primary_user_agent''"

text \<open>The options the channel is created with. They are the caller's object, which is changed in place.\<close>

definition client_options :: "string \<Rightarrow> option_value obj option \<Rightarrow> option_value obj" where
  "client_options version options0 =
     (let options = (case options0 of None \<Rightarrow> [] | Some o' \<Rightarrow> o');
          prefix = (case map_of options user_agent_key of
                      Some v \<Rightarrow> if opt_truthy v then opt_text v @ '' '' else ''''
                    | None \<Rightarrow> '''')
      in obj_put user_agent_key (OptString (prefix @ ''grpc-node/'' @ version)) options)"

section \<open>Waiting for the channel\<close>

datatype connectivity = ConnIdle | ConnConnecting | ConnReady | ConnTransientFailure | ConnFatalFailure

datatype ready_effect = ReadyCallback "js_exn option" | WatchState connectivity

text \<open>\<open>checkState\<close>, with the state \<open>getConnectivityState\<close> returns.\<close>

definition checkState :: "err_obj option \<Rightarrow> connectivity \<Rightarrow> ready_effect" where
  "checkState err new_state =
     (if err \<noteq> None then ReadyCallback (Some (JsError ''Failed to connect before the deadline''))
      else if new_state = ConnReady then ReadyCallback None
      else if new_state = ConnFatalFailure then ReadyCallback (Some (JsError ''Failed to connect to server''))
      else WatchState new_state)"

text \<open>\<open>waitForReady\<close>: the first check has no error; a later one is the callback of the pending watch.\<close>

datatype ready_state = NotAsked | Watching | Answered

datatype ready_event = AskReady connectivity | WatchDone "err_obj option" connectivity

fun ready_step :: "ready_state \<Rightarrow> ready_event \<Rightarrow> ready_state \<times> ready_effect list" where
  "ready_step s (AskReady c) = (case checkState None c of WatchState c' \<Rightarrow> (Watching, [WatchState c']) | x \<Rightarrow> (Answered, [x]))"
| "ready_step s (WatchDone err c) = (case checkState err c of WatchState c' \<Rightarrow> (Watching, [WatchState c']) | x \<Rightarrow> (Answered, [x]))"

fun ready_legal :: "ready_state \<Rightarrow> ready_event \<Rightarrow> bool" where
  "ready_legal s (AskReady c) \<longleftrightarrow> s = NotAsked"
| "ready_legal s (WatchDone err c) \<longleftrightarrow> s = Watching"

fun is_ready_callback :: "ready_effect \<Rightarrow> bool" where
  "is_ready_callback (ReadyCallback e) \<longleftrightarrow> True"
| "is_ready_callback (WatchState c) \<longleftrightarrow> False"

interpretation ready_latch: latch ready_step ready_legal "\<lambda>_. True" "\<lambda>s. s = Answered" is_ready_callback
proof unfold_locales
  fix s e
  assume "ready_legal s e"
  then show "s = Answered \<Longrightarrow> fst (ready_step s e) = Answered" by (cases e) auto
  show "length (filter is_ready_callback (snd (ready_step s e))) =
      (if s \<noteq> Answered \<and> fst (ready_step s e) = Answered then 1 else 0)"
    using \<open>ready_legal s e\<close> by (cases e) (auto split: ready_effect.split)
qed auto

section \<open>The deprecated argument order\<close>

text \<open>\<open>getDefaultValues\<close>, on the constants \<open>new Metadata()\<close> and \<open>{}\<close> of one type of values.\<close>

definition getDefaultValues :: "'v \<Rightarrow> 'v \<Rightarrow> 'v option \<Rightarrow> 'v option \<Rightarrow> 'v \<times> 'v" where
  "getDefaultValues new_metadata new_object metadata options =
     (case metadata of Some m \<Rightarrow> m | None \<Rightarrow> new_metadata, case options of Some o' \<Rightarrow> o' | None \<Rightarrow> new_object)"

text \<open>The arguments the wrappers pass on.\<close>

definition makeWrappedUnaryRequest ::
  "'v \<Rightarrow> 'v \<Rightarrow> 'v \<Rightarrow> 'v \<Rightarrow> 'v option \<Rightarrow> 'v option \<Rightarrow> 'v list" where
  "makeWrappedUnaryRequest new_metadata new_object argument callback metadata options =
     (let opt_args = getDefaultValues new_metadata new_object metadata metadata
      in [argument, fst opt_args, snd opt_args, callback])"

definition makeWrappedClientStreamRequest ::
  "'v \<Rightarrow> 'v \<Rightarrow> 'v \<Rightarrow> 'v option \<Rightarrow> 'v option \<Rightarrow> 'v list" where
  "makeWrappedClientStreamRequest new_metadata new_object callback metadata options =
     (let opt_args = getDefaultValues new_metadata new_object metadata options
      in [fst opt_args, snd opt_args, callback])"

section \<open>Client constructors\<close>

text \<open>A method of the prototype: the request method of its kind, partially applied, with the attributes
  assigned to it.\<close>

record ('s, 'd) client_method =
  cm_kind :: client_kind
  cm_path :: string
  cm_serialize :: 's
  cm_deserialize :: 'd
  cm_attrs :: "('s, 'd) method_attrs"

definition requester_kind :: "('s, 'd) method_attrs \<Rightarrow> client_kind" where
  "requester_kind attrs =
     (if at_requestStream attrs then (if at_responseStream attrs then ClBidi else ClClientStream)
      else (if at_responseStream attrs then ClServerStream else ClUnary))"

definition client_method_for :: "('s, 'd) method_attrs \<Rightarrow> ('s, 'd) client_method" where
  "client_method_for attrs =
     \<lparr>cm_kind = requester_kind attrs, cm_path = at_path attrs, cm_serialize = at_requestSerialize attrs,
      cm_deserialize = at_responseDeserialize attrs, cm_attrs = attrs\<rparr>"

text \<open>\<open>deprecated_request_wrap\<close> is an object, not a function, so calling it throws.\<close>

definition add_client_method ::
  "bool \<Rightarrow> string \<times> ('s, 'd) method_attrs \<Rightarrow> ('s, 'd) client_method obj \<Rightarrow> js_exn + ('s, 'd) client_method obj" where
  "add_client_method deprecatedArgumentOrder e proto =
     (let (name, attrs) = e in
      if take 1 name = ''$'' then Inl (JsError ''Method names cannot start with $'')
      else
        (let method_func = client_method_for attrs in
         if deprecatedArgumentOrder then Inl (JsTypeError ''deprecated_request_wrap is not a function'')
         else Inr (obj_put name method_func proto)))"

text \<open>The methods of the new class; \<open>class_options\<close> is the flag \<open>deprecatedArgumentOrder\<close>, if given.\<close>

definition makeClientConstructor ::
  "('s, 'd) method_attrs obj \<Rightarrow> bool option \<Rightarrow> js_exn + ('s, 'd) client_method obj" where
  "makeClientConstructor methods class_options =
     fold_res (add_client_method (case class_options of Some b \<Rightarrow> b | None \<Rightarrow> False)) (own_entries methods) []"

lemma add_methods_fold:
  assumes "\<forall>e \<in> set es. take 1 (fst e) \<noteq> ''$''"
  shows "fold_res (add_client_method False) es acc =
    Inr (fold (\<lambda>e acc. obj_put (fst e) (client_method_for (snd e)) acc) es acc)"
  using assms by (intro fold_res_pure) (auto simp: add_client_method_def)

lemma makeClientConstructor_ok:
  assumes "obj_wf methods" and "\<forall>k. has_own methods k \<longrightarrow> take 1 k \<noteq> ''$''" and "opts \<noteq> Some True"
  shows "\<exists>proto. makeClientConstructor methods opts = Inr proto \<and>
    (\<forall>k. map_of proto k = map_option client_method_for (map_of methods k))"
proof -
  have flag: "(case opts of Some b \<Rightarrow> b | None \<Rightarrow> False) = False" using assms(3) by (cases opts) auto
  have "\<forall>e \<in> set (own_entries methods). take 1 (fst e) \<noteq> ''$''"
    using assms(2) by (auto simp: has_own_def map_of_eq_None_iff image_iff)
  then have "makeClientConstructor methods opts =
      Inr (fold (\<lambda>e acc. obj_put (fst e) (client_method_for (snd e)) acc) (own_entries methods) [])"
    unfolding makeClientConstructor_def flag by (rule add_methods_fold)
  moreover have "map_of (fold (\<lambda>e acc. obj_put (fst e) (client_method_for (snd e)) acc) (own_entries methods) []) k =
      map_option client_method_for (map_of methods k)" for k
    using fold_put_map_of [where f = client_method_for and acc = "[]" and es = "own_entries methods"]
      obj_wf_own_entries [OF assms(1)] assms(1)
    by (simp add: obj_wf_def obj_simps split: option.split)
  ultimately show ?thesis by blast
qed

section \<open>Waiting until ready\<close>

lemma ready_run_watching:
  assumes "legal_run ready_step ready_legal s es" and "es \<noteq> []"
  shows "final ready_step s es \<noteq> Answered \<longrightarrow>
    final ready_step s es = Watching \<and> (\<exists>c. last (effects ready_step s es) = WatchState c)"
  using assms
proof (induction es arbitrary: s)
  case (Cons e es)
  have step: "fst (ready_step s e) \<noteq> Answered \<longrightarrow> fst (ready_step s e) = Watching \<and> (\<exists>c. snd (ready_step s e) = [WatchState c])"
    by (cases e) (auto split: ready_effect.split)
  show ?case
  proof (cases es)
    case Nil
    with step show ?thesis by auto
  next
    case (Cons e2 es2)
    have "effects ready_step (fst (ready_step s e)) es \<noteq> []"
      unfolding Cons by (cases e2) (auto split: ready_effect.split)
    with Cons.IH [of "fst (ready_step s e)"] Cons.prems Cons show ?thesis by auto
  qed
qed simp

text \<open>waitForReady of the native client calls its callback at most once, and as long as it
  has not, a watch of the channel's state is outstanding: after the first check the
  wait is either answered, by exactly one call, or watching.\<close>

lemma wait_for_ready_answers_once:
  assumes "legal_run ready_step ready_legal NotAsked es" and "es \<noteq> []"
  shows "length (filter is_ready_callback (effects ready_step NotAsked es)) =
      (if final ready_step NotAsked es = Answered then 1 else 0) \<and>
    (final ready_step NotAsked es \<noteq> Answered \<longrightarrow>
      final ready_step NotAsked es = Watching \<and> (\<exists>c. last (effects ready_step NotAsked es) = WatchState c))"
  using ready_latch.marks_run [of NotAsked es] ready_run_watching [OF assms] assms(1) by simp

end
