(* ===== verification/ServerCall.thy ===== *)
theory ServerCall
  imports Common Machines
begin

text \<open>
  One call on the server, \<open>grpc-native-core/src/server.js\<close> from \<open>handleError\<close> to
  \<open>handleBidiStreaming\<close>: the call object's flag \<open>metadataSent\<close>, and the state of the
  \<open>ServerUnaryCall\<close>, \<open>ServerWritableStream\<close>, \<open>ServerReadableStream\<close> or \<open>ServerDuplexStream\<close> made
  for it (one record; \<open>sc_kind\<close> says which one it is, and a class without a field does not use it).

  Emitting an \<open>error\<close> runs the listener the handler installed: \<open>handleError\<close> for unary and client
  streaming calls, \<open>terminateCall\<close> for the two kinds with a writable stream. Node's stream machinery
  appears as events (\<open>_write\<close>, \<open>_read\<close> and \<open>finish\<close> happen when it decides) and the C++ extension
  as the completions of batches; \<open>sc_pending\<close> mirrors the batches not yet completed, \<open>sc_ended\<close>,
  \<open>sc_finishFired\<close> and \<open>sc_statusSent\<close> what has happened so far.
\<close>

section \<open>State\<close>

datatype call_kind = Unary | ServerStream | ClientStream | Bidi

definition writable_kind :: "call_kind \<Rightarrow> bool" where
  "writable_kind k \<longleftrightarrow> k = ServerStream \<or> k = Bidi"

definition readable_kind :: "call_kind \<Rightarrow> bool" where
  "readable_kind k \<longleftrightarrow> k = ClientStream \<or> k = Bidi"

text \<open>What a batch's callback belongs to.\<close>

datatype 'k sv_tag = TagNone | TagCancel | TagSendMetadata | TagRequest | TagRead | TagWrite 'k

record ('q, 'k) server_call =
  sc_kind :: call_kind
  sc_metadataSent :: bool
  sc_finished :: bool
  sc_reading :: bool
  sc_cancelled :: bool
  sc_request :: "'q option"
  sc_status :: out_status
  sc_started :: bool
  sc_pushes :: nat
  sc_pending :: "'k sv_tag list"
  sc_ended :: bool
  sc_finishFired :: bool
  sc_statusSent :: bool

record ('p, 'q) handler_env =
  he_serialize :: "'p \<Rightarrow> err_obj + bytes"
  he_deserialize :: "bytes option \<Rightarrow> err_obj + 'q"
  he_push :: "nat \<Rightarrow> bool"

datatype ('q, 'k) sv_effect =
    StartBatch batch "'k sv_tag"
  | SvPush "'q option"
  | CallHandler "'q option"
  | WriteDone 'k "err_obj option"
  | WritableEnd
  | DiscardData
  | EmitCancelled
  | SvUncaught js_exn

definition ok_status :: out_status where
  "ok_status = \<lparr>os_code = status_code OK, os_details = ''OK'', os_metadata = Some nm_empty\<rparr>"

text \<open>The constructors. A field a class does not have keeps the value it has in \<open>blank_call\<close>.\<close>

definition blank_call :: "call_kind \<Rightarrow> ('q, 'k) server_call" where
  "blank_call kind =
     \<lparr>sc_kind = kind, sc_metadataSent = False, sc_finished = False, sc_reading = False,
      sc_cancelled = False, sc_request = None, sc_status = ok_status, sc_started = False,
      sc_pushes = 0, sc_pending = [], sc_ended = False, sc_finishFired = False, sc_statusSent = False\<rparr>"

definition setUpWritable :: "('q, 'k) server_call \<Rightarrow> ('q, 'k) server_call" where
  "setUpWritable stream = stream\<lparr>sc_finished := False, sc_status := ok_status\<rparr>"

definition setUpReadable :: "('q, 'k) server_call \<Rightarrow> ('q, 'k) server_call" where
  "setUpReadable stream = stream\<lparr>sc_finished := False, sc_reading := False\<rparr>"

definition ServerUnaryCall :: "('q, 'k) server_call" where
  "ServerUnaryCall = (blank_call Unary)\<lparr>sc_cancelled := False, sc_request := None\<rparr>"

definition ServerWritableStream :: "('q, 'k) server_call" where
  "ServerWritableStream =
     (setUpWritable ((blank_call ServerStream)\<lparr>sc_finished := False\<rparr>))\<lparr>sc_cancelled := False, sc_request := None\<rparr>"

definition ServerReadableStream :: "('q, 'k) server_call" where
  "ServerReadableStream = (setUpReadable (blank_call ClientStream))\<lparr>sc_cancelled := False\<rparr>"

definition ServerDuplexStream :: "('q, 'k) server_call" where
  "ServerDuplexStream = (setUpReadable (setUpWritable (blank_call Bidi)))\<lparr>sc_cancelled := False\<rparr>"

fun sc_new :: "call_kind \<Rightarrow> ('q, 'k) server_call" where
  "sc_new Unary = ServerUnaryCall"
| "sc_new ServerStream = ServerWritableStream"
| "sc_new ClientStream = ServerReadableStream"
| "sc_new Bidi = ServerDuplexStream"

lemma sc_new_blank: "sc_new kind = blank_call kind"
  by (cases kind) (simp_all add: ServerUnaryCall_def ServerWritableStream_def ServerReadableStream_def
    ServerDuplexStream_def setUpReadable_def setUpWritable_def blank_call_def)

declare sc_new.simps [simp del]

lemmas sc_new_eq = sc_new_blank [unfolded blank_call_def]

section \<open>Statuses\<close>

definition meta_not_object :: js_exn where
  "meta_not_object = JsTypeError ''Cannot read property '_getCoreRepresentation' of undefined''"

definition handleError_status :: "err_obj \<Rightarrow> out_status" where
  "handleError_status error =
     (let details = (case eo_message error of Some m \<Rightarrow> m | None \<Rightarrow> ''Unknown Error'');
          (code, details) =
            (case eo_code error of
               Some c \<Rightarrow> (c, case eo_details error of Some d \<Rightarrow> d | None \<Rightarrow> details)
             | None \<Rightarrow> (status_code UNKNOWN, details));
          metadata = (case eo_metadata error of MdAbsent \<Rightarrow> Some nm_empty | MdUndefined \<Rightarrow> None | MdGiven m \<Rightarrow> Some m)
      in \<lparr>os_code = code, os_details = details, os_metadata = metadata\<rparr>)"

definition handleError :: "err_obj \<Rightarrow> ('q, 'k) server_call \<Rightarrow> ('q, 'k) server_call \<times> ('q, 'k) sv_effect list" where
  "handleError error st =
     (let status = handleError_status error in
      case os_metadata status of
        None \<Rightarrow> (st, [SvUncaught meta_not_object])
      | Some m \<Rightarrow>
          (let error_batch =
             no_ops\<lparr>op_send_initial_metadata := (if \<not> sc_metadataSent st then Some nm_empty else None),
                    op_send_status := Some (status\<lparr>os_metadata := Some (nm_getCoreRepresentation m)\<rparr>)\<rparr>
           in (st, [StartBatch error_batch TagNone])))"

definition sendUnaryResponse ::
  "('p, 'q) handler_env \<Rightarrow> 'p \<Rightarrow> metadata option \<Rightarrow> int option \<Rightarrow> ('q, 'k) server_call \<Rightarrow>
   ('q, 'k) server_call \<times> ('q, 'k) sv_effect list" where
  "sendUnaryResponse env value metadata flags st =
     (let statusMetadata = (case metadata of Some m \<Rightarrow> m | None \<Rightarrow> nm_empty) in
      case he_serialize env value of
        Inl e \<Rightarrow> handleError (internal_error e) st
      | Inr message \<Rightarrow>
          (let status = \<lparr>os_code = status_code OK, os_details = ''OK'',
                         os_metadata = Some (nm_getCoreRepresentation statusMetadata)\<rparr>;
               (st1, end_batch) =
                 (if \<not> sc_metadataSent st
                  then (st\<lparr>sc_metadataSent := True\<rparr>, no_ops\<lparr>op_send_initial_metadata := Some nm_empty\<rparr>)
                  else (st, no_ops))
           in (st1, [StartBatch (end_batch\<lparr>op_send_message := Some \<lparr>msg_bytes = message, msg_flags = flags\<rparr>,
                                           op_send_status := Some status\<rparr>) TagNone])))"

section \<open>Writable streams\<close>

definition sendStatus :: "('q, 'k) server_call \<Rightarrow> ('q, 'k) server_call \<times> ('q, 'k) sv_effect list" where
  "sendStatus st =
     (let (st1, b) =
        (if \<not> sc_metadataSent st
         then (st\<lparr>sc_metadataSent := True\<rparr>, no_ops\<lparr>op_send_initial_metadata := Some nm_empty\<rparr>)
         else (st, no_ops));
        status = (sc_status st1)\<lparr>os_metadata := map_option nm_getCoreRepresentation (os_metadata (sc_status st1))\<rparr>
      in (st1\<lparr>sc_status := status\<rparr>, [StartBatch (b\<lparr>op_send_status := Some status\<rparr>) TagNone]))"

definition setStatus :: "err_obj \<Rightarrow> ('q, 'k) server_call \<Rightarrow> ('q, 'k) server_call" where
  "setStatus err st =
     (let code = status_code UNKNOWN;
          details = ''Unknown Error'';
          metadata = Some nm_empty;
          details = (case eo_message err of Some m \<Rightarrow> m | None \<Rightarrow> details);
          (code, details) =
            (case eo_code err of
               Some c \<Rightarrow> (c, case eo_details err of Some d \<Rightarrow> d | None \<Rightarrow> details)
             | None \<Rightarrow> (code, details));
          metadata = (case eo_metadata err of MdAbsent \<Rightarrow> metadata | MdUndefined \<Rightarrow> None | MdGiven m \<Rightarrow> Some m)
      in st\<lparr>sc_status := \<lparr>os_code = code, os_details = details, os_metadata = metadata\<rparr>\<rparr>)"

definition stream_end :: "metadata option \<Rightarrow> ('q, 'k) server_call \<Rightarrow> ('q, 'k) server_call \<times> ('q, 'k) sv_effect list" where
  "stream_end metadata st =
     (let st1 = (case metadata of
                   Some m \<Rightarrow> st\<lparr>sc_status := (sc_status st)\<lparr>os_metadata := Some m\<rparr>\<rparr>
                 | None \<Rightarrow> st)
      in (st1\<lparr>sc_ended := True\<rparr>, [WritableEnd]))"

definition terminateCall :: "err_obj \<Rightarrow> ('q, 'k) server_call \<Rightarrow> ('q, 'k) server_call \<times> ('q, 'k) sv_effect list" where
  "terminateCall err st = stream_end None (setStatus err st)"

definition emit_error :: "err_obj \<Rightarrow> ('q, 'k) server_call \<Rightarrow> ('q, 'k) server_call \<times> ('q, 'k) sv_effect list" where
  "emit_error err st = (if writable_kind (sc_kind st) then terminateCall err st else handleError err st)"

datatype write_encoding = EncodingName string | EncodingFlags int

fun finite_flags :: "write_encoding \<Rightarrow> int option" where
  "finite_flags (EncodingFlags n) = Some n"
| "finite_flags (EncodingName s) = None"

text \<open>The chunk is not null: Node refuses to write null.\<close>

definition sv_write ::
  "('p, 'q) handler_env \<Rightarrow> 'p \<Rightarrow> write_encoding \<Rightarrow> 'k \<Rightarrow> ('q, 'k) server_call \<Rightarrow>
   ('q, 'k) server_call \<times> ('q, 'k) sv_effect list" where
  "sv_write env chunk encoding cb st =
     (case wrapIgnoreNull (he_serialize env) (Some chunk) of
        Inl e \<Rightarrow> (st, [WriteDone cb (Some (internal_error e))])
      | Inr None \<Rightarrow> (st, [])
      | Inr (Some message) \<Rightarrow>
          (let (st1, b) =
             (if \<not> sc_metadataSent st
              then (st\<lparr>sc_metadataSent := True\<rparr>, no_ops\<lparr>op_send_initial_metadata := Some nm_empty\<rparr>)
              else (st, no_ops))
           in (st1, [StartBatch (b\<lparr>op_send_message := Some \<lparr>msg_bytes = message, msg_flags = finite_flags encoding\<rparr>\<rparr>)
                       (TagWrite cb)])))"

definition sv_write_done ::
  "'k \<Rightarrow> err_obj option \<Rightarrow> ('q, 'k) server_call \<Rightarrow> ('q, 'k) server_call \<times> ('q, 'k) sv_effect list" where
  "sv_write_done cb err st =
     (case err of Some e \<Rightarrow> emit_error e st | None \<Rightarrow> (st, [WriteDone cb None]))"

section \<open>Readable streams\<close>

definition terminate :: "('q, 'k) server_call \<Rightarrow> ('q, 'k) server_call \<times> ('q, 'k) sv_effect list" where
  "terminate st = (st\<lparr>sc_finished := True\<rparr>, [DiscardData])"

abbreviation recv_message :: batch where
  "recv_message \<equiv> no_ops\<lparr>op_recv_message := True\<rparr>"

definition sv_readCallback ::
  "('p, 'q) handler_env \<Rightarrow> err_obj + bytes option \<Rightarrow> ('q, 'k) server_call \<Rightarrow>
   ('q, 'k) server_call \<times> ('q, 'k) sv_effect list" where
  "sv_readCallback env event st =
     (case event of
        Inl err \<Rightarrow> terminate st
      | Inr data \<Rightarrow>
          if sc_finished st then (st\<lparr>sc_pushes := Suc (sc_pushes st)\<rparr>, [SvPush None])
          else
            (case wrapIgnoreNull (\<lambda>b. he_deserialize env (Some b)) data of
               Inl e \<Rightarrow> emit_error (internal_error e) st
             | Inr deserialized \<Rightarrow>
                 (let more = he_push env (sc_pushes st);
                      st1 = st\<lparr>sc_pushes := Suc (sc_pushes st)\<rparr>
                  in if more \<and> data \<noteq> None
                     then (st1, [SvPush deserialized, StartBatch recv_message TagRead])
                     else (st1\<lparr>sc_reading := False\<rparr>, [SvPush deserialized]))))"

definition sv_read :: "('q, 'k) server_call \<Rightarrow> ('q, 'k) server_call \<times> ('q, 'k) sv_effect list" where
  "sv_read st =
     (if sc_finished st then (st\<lparr>sc_pushes := Suc (sc_pushes st)\<rparr>, [SvPush None])
      else if \<not> sc_reading st then (st\<lparr>sc_reading := True\<rparr>, [StartBatch recv_message TagRead])
      else (st, []))"

section \<open>Metadata and cancellation\<close>

definition sv_sendMetadata :: "metadata \<Rightarrow> ('q, 'k) server_call \<Rightarrow> ('q, 'k) server_call \<times> ('q, 'k) sv_effect list" where
  "sv_sendMetadata responseMetadata st =
     (if \<not> sc_metadataSent st then
        (st\<lparr>sc_metadataSent := True\<rparr>,
         [StartBatch (no_ops\<lparr>op_send_initial_metadata := Some (nm_getCoreRepresentation responseMetadata)\<rparr>)
            TagSendMetadata])
      else (st, []))"

definition waitForCancel :: "('q, 'k) server_call \<Rightarrow> ('q, 'k) server_call \<times> ('q, 'k) sv_effect list" where
  "waitForCancel st = (st, [StartBatch (no_ops\<lparr>op_recv_close := True\<rparr>) TagCancel])"

text \<open>The completion of the cancel batch. Readable streams terminate when \<open>cancelled\<close> is emitted. After
  a failure the result is undefined, and reading its property throws.\<close>

definition sv_cancel_done ::
  "err_obj + bool \<Rightarrow> ('q, 'k) server_call \<Rightarrow> ('q, 'k) server_call \<times> ('q, 'k) sv_effect list" where
  "sv_cancel_done r st =
     (case r of
        Inl err \<Rightarrow>
          (let (st1, eff) = emit_error err st
           in (st1, eff @ [SvUncaught (JsTypeError ''Cannot read property 'cancelled' of undefined'')]))
      | Inr cancelled \<Rightarrow>
          if cancelled then
            (let st1 = st\<lparr>sc_cancelled := True\<rparr> in
             if readable_kind (sc_kind st1)
             then (let (st2, eff) = terminate st1 in (st2, EmitCancelled # eff))
             else (st1, [EmitCancelled]))
          else (st, []))"

section \<open>The four kinds of calls\<close>

text \<open>\<open>handleUnary\<close> and \<open>handleServerStreaming\<close> ask for the request; the other two call the handler.\<close>

definition handleUnary :: "('q, 'k) server_call \<Rightarrow> ('q, 'k) server_call \<times> ('q, 'k) sv_effect list" where
  "handleUnary st = (let (st1, eff) = waitForCancel st in (st1, eff @ [StartBatch recv_message TagRequest]))"

definition handleServerStreaming :: "('q, 'k) server_call \<Rightarrow> ('q, 'k) server_call \<times> ('q, 'k) sv_effect list" where
  "handleServerStreaming st = (let (st1, eff) = waitForCancel st in (st1, eff @ [StartBatch recv_message TagRequest]))"

definition handleClientStreaming :: "('q, 'k) server_call \<Rightarrow> ('q, 'k) server_call \<times> ('q, 'k) sv_effect list" where
  "handleClientStreaming st = (let (st1, eff) = waitForCancel st in (st1, eff @ [CallHandler None]))"

definition handleBidiStreaming :: "('q, 'k) server_call \<Rightarrow> ('q, 'k) server_call \<times> ('q, 'k) sv_effect list" where
  "handleBidiStreaming st = (let (st1, eff) = waitForCancel st in (st1, eff @ [CallHandler None]))"

definition sv_start :: "('q, 'k) server_call \<Rightarrow> ('q, 'k) server_call \<times> ('q, 'k) sv_effect list" where
  "sv_start st =
     (let st1 = st\<lparr>sc_started := True\<rparr> in
      case sc_kind st of
        Unary \<Rightarrow> handleUnary st1
      | ServerStream \<Rightarrow> handleServerStreaming st1
      | ClientStream \<Rightarrow> handleClientStreaming st1
      | Bidi \<Rightarrow> handleBidiStreaming st1)"

lemma sv_start_eq:
  "sv_start st =
     (let (st1, eff) = waitForCancel (st\<lparr>sc_started := True\<rparr>) in
      (st1, eff @ [if readable_kind (sc_kind st) then CallHandler None else StartBatch recv_message TagRequest]))"
  by (cases "sc_kind st")
    (simp_all add: sv_start_def handleUnary_def handleServerStreaming_def handleClientStreaming_def
      handleBidiStreaming_def readable_kind_def)

text \<open>The callbacks of the batches that receive the request.\<close>

definition handleUnary_received ::
  "('p, 'q) handler_env \<Rightarrow> err_obj + bytes option \<Rightarrow> ('q, 'k) server_call \<Rightarrow>
   ('q, 'k) server_call \<times> ('q, 'k) sv_effect list" where
  "handleUnary_received env r st =
     (case r of
        Inl err \<Rightarrow> handleError err st
      | Inr data \<Rightarrow>
          (case he_deserialize env data of
             Inl e \<Rightarrow> handleError (internal_error e) st
           | Inr request \<Rightarrow>
               (let st1 = st\<lparr>sc_request := Some request\<rparr> in
                if sc_cancelled st1 then (st1, []) else (st1, [CallHandler (Some request)]))))"

definition handleServerStreaming_received ::
  "('p, 'q) handler_env \<Rightarrow> err_obj + bytes option \<Rightarrow> ('q, 'k) server_call \<Rightarrow>
   ('q, 'k) server_call \<times> ('q, 'k) sv_effect list" where
  "handleServerStreaming_received env r st =
     (case r of
        Inl err \<Rightarrow> emit_error err st
      | Inr data \<Rightarrow>
          (case he_deserialize env data of
             Inl e \<Rightarrow> emit_error (internal_error e) st
           | Inr request \<Rightarrow> (st\<lparr>sc_request := Some request\<rparr>, [CallHandler (Some request)])))"

definition sv_request_done ::
  "('p, 'q) handler_env \<Rightarrow> err_obj + bytes option \<Rightarrow> ('q, 'k) server_call \<Rightarrow>
   ('q, 'k) server_call \<times> ('q, 'k) sv_effect list" where
  "sv_request_done env r st =
     (if sc_kind st = Unary then handleUnary_received env r st else handleServerStreaming_received env r st)"

lemma sv_request_done_eq:
  "sv_request_done env r st =
     (case r of
        Inl err \<Rightarrow> emit_error err st
      | Inr data \<Rightarrow>
          (case he_deserialize env data of
             Inl e \<Rightarrow> emit_error (internal_error e) st
           | Inr request \<Rightarrow>
               (st\<lparr>sc_request := Some request\<rparr>,
                if sc_kind st = Unary \<and> sc_cancelled st then [] else [CallHandler (Some request)])))"
  by (simp add: sv_request_done_def handleUnary_received_def handleServerStreaming_received_def emit_error_def
      writable_kind_def split: sum.split)

text \<open>The callbacks the handlers of unary and client streaming calls are given.\<close>

definition handleUnary_respond ::
  "('p, 'q) handler_env \<Rightarrow> err_obj option \<Rightarrow> 'p \<Rightarrow> metadata option \<Rightarrow> int option \<Rightarrow>
   ('q, 'k) server_call \<Rightarrow> ('q, 'k) server_call \<times> ('q, 'k) sv_effect list" where
  "handleUnary_respond env err value trailer flags st =
     (case err of
        Some e \<Rightarrow> handleError (case trailer of Some m \<Rightarrow> e\<lparr>eo_metadata := MdGiven m\<rparr> | None \<Rightarrow> e) st
      | None \<Rightarrow> sendUnaryResponse env value trailer flags st)"

definition handleClientStreaming_respond ::
  "('p, 'q) handler_env \<Rightarrow> err_obj option \<Rightarrow> 'p \<Rightarrow> metadata option \<Rightarrow> int option \<Rightarrow>
   ('q, 'k) server_call \<Rightarrow> ('q, 'k) server_call \<times> ('q, 'k) sv_effect list" where
  "handleClientStreaming_respond env err value trailer flags st =
     (let (st1, eff) = terminate st;
          (st2, eff2) =
            (case err of
               Some e \<Rightarrow> handleError (case trailer of Some m \<Rightarrow> e\<lparr>eo_metadata := MdGiven m\<rparr> | None \<Rightarrow> e) st1
             | None \<Rightarrow> sendUnaryResponse env value trailer flags st1)
      in (st2, eff @ eff2))"

definition sendUnaryData ::
  "('p, 'q) handler_env \<Rightarrow> err_obj option \<Rightarrow> 'p \<Rightarrow> metadata option \<Rightarrow> int option \<Rightarrow>
   ('q, 'k) server_call \<Rightarrow> ('q, 'k) server_call \<times> ('q, 'k) sv_effect list" where
  "sendUnaryData env err value trailer flags st =
     (if sc_kind st = ClientStream then handleClientStreaming_respond env err value trailer flags st
      else handleUnary_respond env err value trailer flags st)"

lemma sendUnaryData_eq:
  "sendUnaryData env err value trailer flags st =
     (let (st1, eff) = (if sc_kind st = ClientStream then terminate st else (st, []));
          (st2, eff2) =
            (case err of
               Some e \<Rightarrow> handleError (case trailer of Some m \<Rightarrow> e\<lparr>eo_metadata := MdGiven m\<rparr> | None \<Rightarrow> e) st1
             | None \<Rightarrow> sendUnaryResponse env value trailer flags st1)
      in (st2, eff @ eff2))"
  by (simp add: sendUnaryData_def handleClientStreaming_respond_def handleUnary_respond_def Let_def split: option.split)

section \<open>The state machine\<close>

datatype ('p, 'k) sv_event =
    Start
  | CancelDone "err_obj + bool"
  | RequestDone "err_obj + bytes option"
  | ReadDone "err_obj + bytes option"
  | WriteBatchDone 'k "err_obj option"
  | SendMetadataDone "err_obj option"
  | SendMetadata metadata
  | Write 'p write_encoding 'k
  | End "metadata option"
  | Finish
  | Read
  | EmitError err_obj
  | Respond "err_obj option" 'p "metadata option" "int option"
  | Terminate

fun sv_handle ::
  "('p, 'q) handler_env \<Rightarrow> ('q, 'k) server_call \<Rightarrow> ('p, 'k) sv_event \<Rightarrow>
   ('q, 'k) server_call \<times> ('q, 'k) sv_effect list" where
  "sv_handle env st Start = sv_start st"
| "sv_handle env st (CancelDone r) = sv_cancel_done r st"
| "sv_handle env st (RequestDone r) = sv_request_done env r st"
| "sv_handle env st (ReadDone r) = sv_readCallback env r st"
| "sv_handle env st (WriteBatchDone cb err) = sv_write_done cb err st"
| "sv_handle env st (SendMetadataDone err) =
     (case err of Some e \<Rightarrow> emit_error e st | None \<Rightarrow> (st, []))"
| "sv_handle env st (SendMetadata m) = sv_sendMetadata m st"
| "sv_handle env st (Write chunk encoding cb) = sv_write env chunk encoding cb st"
| "sv_handle env st (End m) = stream_end m st"
| "sv_handle env st Finish = sendStatus (st\<lparr>sc_finishFired := True\<rparr>)"
| "sv_handle env st Read = sv_read st"
| "sv_handle env st (EmitError e) = emit_error e st"
| "sv_handle env st (Respond err value trailer flags) = sendUnaryData env err value trailer flags st"
| "sv_handle env st Terminate = terminate st"

text \<open>The runtime's part of a step: completed batches leave \<open>sc_pending\<close>, started ones join it.\<close>

fun done_tag :: "('p, 'k) sv_event \<Rightarrow> 'k sv_tag option" where
  "done_tag (CancelDone r) = Some TagCancel"
| "done_tag (RequestDone r) = Some TagRequest"
| "done_tag (ReadDone r) = Some TagRead"
| "done_tag (WriteBatchDone cb err) = Some (TagWrite cb)"
| "done_tag (SendMetadataDone err) = Some TagSendMetadata"
| "done_tag _ = None"

fun batches :: "('q, 'k) sv_effect list \<Rightarrow> (batch \<times> 'k sv_tag) list" where
  "batches [] = []"
| "batches (StartBatch b t # es) = (b, t) # batches es"
| "batches (_ # es) = batches es"

definition sv_record :: "('p, 'k) sv_event \<Rightarrow> ('q, 'k) sv_effect list \<Rightarrow> ('q, 'k) server_call \<Rightarrow> ('q, 'k) server_call" where
  "sv_record e eff st =
     st\<lparr>sc_pending := (case done_tag e of Some t \<Rightarrow> remove1 t (sc_pending st) | None \<Rightarrow> sc_pending st) @
                        map snd (batches eff),
        sc_statusSent := (sc_statusSent st \<or> (\<exists>b \<in> set (batches eff). op_send_status (fst b) \<noteq> None))\<rparr>"

definition sv_step ::
  "('p, 'q) handler_env \<Rightarrow> ('q, 'k) server_call \<Rightarrow> ('p, 'k) sv_event \<Rightarrow>
   ('q, 'k) server_call \<times> ('q, 'k) sv_effect list" where
  "sv_step env st e = (let (st1, eff) = sv_handle env st e in (sv_record e eff st1, eff))"

text \<open>What the runtime promises: a call starts once and first; only started batches complete; Node calls
  \<open>_write\<close> only before \<open>finish\<close>, and emits \<open>finish\<close> once, after \<open>end\<close>.\<close>

definition sv_legal :: "('q, 'k) server_call \<Rightarrow> ('p, 'k) sv_event \<Rightarrow> bool" where
  "sv_legal st e \<longleftrightarrow>
     (sc_started st \<longleftrightarrow> e \<noteq> Start) \<and>
     (case done_tag e of Some t \<Rightarrow> t \<in> set (sc_pending st) | None \<Rightarrow> True) \<and>
     (case e of
        Write chunk encoding cb \<Rightarrow> writable_kind (sc_kind st) \<and> \<not> sc_finishFired st
      | End m \<Rightarrow> writable_kind (sc_kind st)
      | Finish \<Rightarrow> writable_kind (sc_kind st) \<and> sc_ended st \<and> \<not> sc_finishFired st
      | Read \<Rightarrow> readable_kind (sc_kind st)
      | Terminate \<Rightarrow> readable_kind (sc_kind st)
      | Respond err value trailer flags \<Rightarrow> \<not> writable_kind (sc_kind st)
      | _ \<Rightarrow> True)"

end
