(* ===== verification/ServerCallFacts.thy ===== *)
theory ServerCallFacts
  imports ServerCall
begin

text \<open>
  What a server call does to the C++ call object. \<open>call_protocol\<close> is the protocol of the sending
  operations: initial metadata once and before any message or status, one status, nothing sent after
  it. An interpretation of \<open>monitored\<close> shows that every legal run follows it; an interpretation of
  \<open>machine\<close> shows that at most one read is outstanding, whatever became of the status.
\<close>

section \<open>The sending protocol\<close>

fun call_protocol :: "bool \<times> bool \<Rightarrow> ('q, 'k) sv_effect \<Rightarrow> (bool \<times> bool) option" where
  "call_protocol (metadataSent, statusSent) (StartBatch b t) =
     (let first = op_send_initial_metadata b \<noteq> None;
          sends = op_send_message b \<noteq> None \<or> op_send_status b \<noteq> None
      in if first \<and> metadataSent \<or> sends \<and> (statusSent \<or> \<not> (metadataSent \<or> first)) then None
         else Some (metadataSent \<or> first, statusSent \<or> op_send_status b \<noteq> None))"
| "call_protocol s _ = Some s"

definition sv_phase :: "('q, 'k) server_call \<Rightarrow> bool \<times> bool" where
  "sv_phase st = (sc_metadataSent st \<or> sc_statusSent st, sc_statusSent st)"

definition sv_inv :: "('q, 'k) server_call \<Rightarrow> bool" where
  "sv_inv st \<longleftrightarrow> count_list (sc_pending st) TagRead \<le> (if sc_reading st then 1 else 0) \<and>
     (writable_kind (sc_kind st) \<longrightarrow>
        (sc_statusSent st \<longleftrightarrow> sc_finishFired st) \<and> (sc_statusSent st \<longrightarrow> sc_metadataSent st))"

text \<open>The unary and client streaming kinds, whose \<open>handleError\<close> does not record that the metadata is
  sent, are followed until their status is sent.\<close>

definition sv_legal_open :: "('q, 'k) server_call \<Rightarrow> ('p, 'k) sv_event \<Rightarrow> bool" where
  "sv_legal_open st e \<longleftrightarrow> sv_legal st e \<and> (\<not> writable_kind (sc_kind st) \<longrightarrow> \<not> sc_statusSent st)"

lemma sv_inv_new [simp]: "sv_inv (sc_new kind)"
  by (simp add: sv_inv_def sc_new_eq)

text \<open>One handler: the sending protocol, and the reads it starts.\<close>

definition reads_of :: "('q, 'k) sv_effect list \<Rightarrow> nat" where
  "reads_of eff = count_list (map snd (batches eff)) TagRead"

lemma batches_append [simp]: "batches (xs @ ys) = batches xs @ batches ys"
  by (induction xs rule: batches.induct) auto

definition sent_status :: "('q, 'k) sv_effect list \<Rightarrow> bool" where
  "sent_status eff \<longleftrightarrow> (\<exists>b \<in> set (batches eff). op_send_status (fst b) \<noteq> None)"

lemmas sv_effects = sv_phase_def reads_of_def sent_status_def

text \<open>\<open>follows st st' eff\<close>: a handler that went from \<open>st\<close> to \<open>st'\<close> kept the sending protocol.\<close>

definition follows :: "('q, 'k) server_call \<Rightarrow> ('q, 'k) server_call \<Rightarrow> ('q, 'k) sv_effect list \<Rightarrow> bool" where
  "follows st st' eff \<longleftrightarrow>
     accepts call_protocol (sv_phase st) eff =
       Some (sc_metadataSent st' \<or> sc_statusSent st \<or> sent_status eff, sc_statusSent st \<or> sent_status eff) \<and>
     sc_kind st' = sc_kind st \<and> sc_statusSent st' = sc_statusSent st \<and> sc_pending st' = sc_pending st \<and>
     (sc_metadataSent st \<longrightarrow> sc_metadataSent st')"

lemma handleError_follows:
  assumes "handleError e st = (st', eff)" and "\<not> sc_statusSent st"
  shows "follows st st' eff" and "reads_of eff = 0" and "st' = st"
  using assms by (auto simp: handleError_def Let_def follows_def sv_effects split: option.splits)

lemma terminateCall_follows:
  assumes "terminateCall e st = (st', eff)"
  shows "follows st st' eff" and "reads_of eff = 0" and "\<not> sent_status eff" and "sc_reading st' = sc_reading st"
    and "sc_finishFired st' = sc_finishFired st" and "sc_metadataSent st' = sc_metadataSent st"
    and "sc_finished st' = sc_finished st" and "sc_started st' = sc_started st"
  using assms
  by (auto simp: terminateCall_def setStatus_def stream_end_def Let_def follows_def sv_effects split: option.splits)

lemma emit_error_follows:
  assumes "emit_error e st = (st', eff)" and "\<not> writable_kind (sc_kind st) \<longrightarrow> \<not> sc_statusSent st"
  shows "follows st st' eff" and "reads_of eff = 0" and "sc_reading st' = sc_reading st"
    and "sc_finishFired st' = sc_finishFired st" and "writable_kind (sc_kind st) \<longrightarrow> \<not> sent_status eff"
    and "sc_metadataSent st' = sc_metadataSent st"
  using assms terminateCall_follows [of e st st' eff] handleError_follows [of e st st' eff]
  by (auto simp: emit_error_def split: if_splits)

lemma sendUnaryResponse_follows:
  assumes "sendUnaryResponse env v md flags st = (st', eff)" and "\<not> sc_statusSent st"
  shows "follows st st' eff" and "reads_of eff = 0" and "sc_reading st' = sc_reading st"
proof -
  have "follows st st' eff \<and> reads_of eff = 0 \<and> sc_reading st' = sc_reading st"
  proof (cases "he_serialize env v")
    case (Inl e)
    with assms have "handleError (internal_error e) st = (st', eff)" by (simp add: sendUnaryResponse_def)
    from handleError_follows [OF this assms(2)] show ?thesis by simp
  next
    case (Inr m)
    with assms show ?thesis
      by (auto simp: sendUnaryResponse_def Let_def follows_def sv_effects split: if_splits)
  qed
  then show "follows st st' eff" "reads_of eff = 0" "sc_reading st' = sc_reading st" by auto
qed

text \<open>The contract of every handler.\<close>

definition handles :: "('q, 'k) server_call \<Rightarrow> ('p, 'k) sv_event \<Rightarrow> ('q, 'k) server_call \<Rightarrow> ('q, 'k) sv_effect list \<Rightarrow> bool" where
  "handles st e st' eff \<longleftrightarrow> follows st st' eff \<and>
     (let before = count_list (sc_pending st) TagRead - (if done_tag e = Some TagRead then 1 else 0)
      in before + reads_of eff \<le> (if sc_reading st' then 1 else 0)) \<and>
     (writable_kind (sc_kind st) \<longrightarrow> (sent_status eff \<longleftrightarrow> e = Finish) \<and> (e = Finish \<longrightarrow> sc_metadataSent st') \<and>
        sc_finishFired st' = (sc_finishFired st \<or> e = Finish))"

lemma follows_refl [simp]: "follows st st []"
  by (auto simp: follows_def sv_effects)

lemmas handles_simps = sv_inv_def handles_def follows_def sv_effects Let_def

lemma emit_error_handles:
  assumes "emit_error x st = (st', eff)" and "e \<noteq> Finish" and "sv_inv st"
    and "\<not> writable_kind (sc_kind st) \<longrightarrow> \<not> sc_statusSent st"
  shows "handles st e st' eff"
  using emit_error_follows [OF assms(1,4)] assms(2,3) by (auto simp: handles_def sv_inv_def Let_def)

lemma maybe_error_handles:
  assumes "(case err of None \<Rightarrow> (st, eff0) | Some x \<Rightarrow> emit_error x st) = (st', eff)" and "eff0 = [] \<or> (\<exists>cb. eff0 = [WriteDone cb None])"
    and "e \<noteq> Finish" and inv: "sv_inv st" and st: "\<not> writable_kind (sc_kind st) \<longrightarrow> \<not> sc_statusSent st"
  shows "handles st e st' eff"
proof (cases err)
  case None
  with assms show ?thesis by (auto simp: handles_simps)
next
  case (Some x)
  with assms show ?thesis by (intro emit_error_handles) auto
qed

lemma start_handles:
  assumes "sv_inv st" and "sv_start st = (st', eff)"
  shows "handles st Start st' eff"
  using assms by (cases "sc_kind st") (auto simp: handles_simps sv_start_eq waitForCancel_def writable_kind_def readable_kind_def)

lemma cancel_done_handles:
  assumes inv: "sv_inv st" and st: "\<not> writable_kind (sc_kind st) \<longrightarrow> \<not> sc_statusSent st"
    and step: "sv_cancel_done r st = (st', eff)"
  shows "handles st (CancelDone r) st' eff"
proof (cases r)
  case (Inl err)
  obtain st1 eff1 where e1: "emit_error err st = (st1, eff1)" by force
  with step Inl have "st' = st1" "eff = eff1 @ [SvUncaught (JsTypeError ''Cannot read property 'cancelled' of undefined'')]"
    by (auto simp: sv_cancel_done_def)
  with emit_error_follows [OF e1 st] inv show ?thesis
    by (auto simp: handles_def follows_def sv_inv_def Let_def accepts_append reads_of_def sent_status_def)
next
  case (Inr c)
  with step inv show ?thesis
    by (auto simp: handles_simps sv_cancel_done_def terminate_def split: if_splits)
qed

lemma request_done_handles:
  assumes inv: "sv_inv st" and st: "\<not> writable_kind (sc_kind st) \<longrightarrow> \<not> sc_statusSent st"
    and step: "sv_request_done env r st = (st', eff)"
  shows "handles st (RequestDone r) st' eff"
proof -
  from step consider (err) x where "emit_error x st = (st', eff)"
    | (ok) q where "st' = st\<lparr>sc_request := Some q\<rparr>" "batches eff = []" "eff = [] \<or> eff = [CallHandler (Some q)]"
    by (auto simp: sv_request_done_eq split: sum.splits if_splits)
  then show ?thesis
  proof cases
    case err
    with emit_error_handles inv st show ?thesis by blast
  next
    case ok
    with inv show ?thesis by (auto simp: handles_simps)
  qed
qed

lemma read_done_handles:
  assumes inv: "sv_inv st" and st: "\<not> writable_kind (sc_kind st) \<longrightarrow> \<not> sc_statusSent st"
    and pend: "TagRead \<in> set (sc_pending st)" and step: "sv_readCallback env r st = (st', eff)"
  shows "handles st (ReadDone r) st' eff"
proof -
  from pend have "0 < count_list (sc_pending st) TagRead" by (rule count_list_mem)
  with inv have one: "count_list (sc_pending st) TagRead = 1" "sc_reading st" by (auto simp: sv_inv_def split: if_splits)
  from step consider (err) x where "emit_error x st = (st', eff)"
    | (fin) "terminate st = (st', eff)"
    | (push) d where "st' = st\<lparr>sc_pushes := Suc (sc_pushes st)\<rparr>" "eff = [SvPush d]"
    | (more) d where "st' = st\<lparr>sc_pushes := Suc (sc_pushes st)\<rparr>" "eff = [SvPush d, StartBatch recv_message TagRead]"
    | (stop) d where "st' = st\<lparr>sc_pushes := Suc (sc_pushes st), sc_reading := False\<rparr>" "eff = [SvPush d]"
    by (auto simp: sv_readCallback_def Let_def split: sum.splits if_splits)
  then show ?thesis
  proof cases
    case err
    with emit_error_handles inv st show ?thesis by blast
  next
    case fin
    with one show ?thesis by (auto simp: handles_simps terminate_def)
  qed (use one in \<open>auto simp: handles_simps\<close>)
qed

lemma respond_handles:
  assumes inv: "sv_inv st" and nw: "\<not> writable_kind (sc_kind st)" and ns: "\<not> sc_statusSent st"
    and step: "sendUnaryData env err v trailer flags st = (st', eff)"
  shows "handles st (Respond err v trailer flags) st' eff"
proof -
  let ?p = "if sc_kind st = ClientStream then terminate st else (st, [])"
  obtain st1 eff1 where p: "?p = (st1, eff1)" by force
  then have s1: "st1 = st \<or> st1 = st\<lparr>sc_finished := True\<rparr>" "eff1 = [] \<or> eff1 = [DiscardData]"
    by (auto simp: terminate_def split: if_splits)
  with ns have ns1: "\<not> sc_statusSent st1" by auto
  obtain st2 eff2 where q: "(case err of
        Some e \<Rightarrow> handleError (case trailer of Some m \<Rightarrow> e\<lparr>eo_metadata := MdGiven m\<rparr> | None \<Rightarrow> e) st1
      | None \<Rightarrow> sendUnaryResponse env v trailer flags st1) = (st2, eff2)" by force
  then have f: "follows st1 st2 eff2 \<and> reads_of eff2 = 0 \<and> sc_reading st2 = sc_reading st1"
    using ns1 by (auto dest: handleError_follows sendUnaryResponse_follows split: option.splits)
  have "st' = st2" "eff = eff1 @ eff2" using step p q by (auto simp: sendUnaryData_eq split: option.splits)
  with f s1 nw inv show ?thesis
    by (auto simp: handles_def follows_def sv_inv_def Let_def sv_phase_def reads_of_def sent_status_def)
qed

lemma sv_handle_ok:
  assumes inv: "sv_inv st" and legal: "sv_legal_open st e" and step: "sv_handle env st e = (st', eff)"
  shows "handles st e st' eff"
proof -
  have st: "\<not> writable_kind (sc_kind st) \<longrightarrow> \<not> sc_statusSent st" and l: "sv_legal st e"
    using legal by (auto simp: sv_legal_open_def)
  note error = emit_error_handles [OF _ _ inv st]
  show ?thesis
  proof (cases e)
    case (ReadDone r)
    with l step show ?thesis using read_done_handles [OF inv st] by (simp add: sv_legal_def)
  next
    case (WriteBatchDone cb err)
    with step show ?thesis by (intro maybe_error_handles [OF _ _ _ inv st]) (auto simp: sv_write_done_def)
  next
    case (SendMetadataDone err)
    with step show ?thesis by (intro maybe_error_handles [OF _ _ _ inv st]) auto
  next
    case (SendMetadata m)
    with step inv st show ?thesis by (auto simp: handles_simps sv_sendMetadata_def split: if_splits)
  next
    case (Write chunk encoding cb)
    with l have "\<not> sc_statusSent st" "writable_kind (sc_kind st)" using inv by (auto simp: sv_legal_def sv_inv_def)
    with step Write inv show ?thesis
      by (cases "he_serialize env chunk") (auto simp: handles_simps sv_write_def split: if_splits)
  next
    case Finish
    with l have "\<not> sc_statusSent st" using inv by (auto simp: sv_legal_def sv_inv_def)
    with step Finish inv show ?thesis by (auto simp: handles_simps sendStatus_def split: if_splits)
  next
    case (EmitError x)
    with step show ?thesis by (intro error) auto
  next
    case (Respond err v trailer flags)
    with l have "\<not> writable_kind (sc_kind st)" by (simp add: sv_legal_def)
    with Respond st step respond_handles [OF inv] show ?thesis by simp
  next
    case (End m)
    with step inv show ?thesis by (auto simp: handles_simps stream_end_def split: option.splits)
  next
    case Read
    with step inv show ?thesis by (auto simp: handles_simps sv_read_def split: if_splits)
  next
    case Terminate
    with step inv show ?thesis by (auto simp: handles_simps terminate_def)
  qed (use step inv st in \<open>simp_all add: start_handles cancel_done_handles request_done_handles\<close>)
qed

lemma sv_step_ok:
  assumes inv: "sv_inv st" and legal: "sv_legal_open st e" and step: "sv_step env st e = (st', eff)"
  shows "sv_inv st' \<and> accepts call_protocol (sv_phase st) eff = Some (sv_phase st')"
proof -
  obtain st1 where h: "sv_handle env st e = (st1, eff)" and st': "st' = sv_record e eff st1"
    using step by (auto simp: sv_step_def Let_def split: prod.splits)
  note ok = sv_handle_ok [OF inv legal h]
  have "count_list (sc_pending st') TagRead \<le> (if sc_reading st' then 1 else 0)"
    using ok unfolding st'
    by (auto simp: sv_record_def handles_def follows_def reads_of_def Let_def count_list_remove1 split: option.splits if_splits)
  with ok inv show ?thesis unfolding st'
    by (auto simp: sv_inv_def handles_def follows_def sv_record_def sv_phase_def sent_status_def Let_def)
qed

interpretation server_call: monitored "sv_step env" sv_legal_open sv_inv call_protocol sv_phase
  for env :: "('p, 'q) handler_env"
proof unfold_locales
  fix st :: "('q, 'c) server_call" and e :: "('p, 'c) sv_event"
  assume a: "sv_inv st" "sv_legal_open st e"
  obtain st' eff where step: "sv_step env st e = (st', eff)" by force
  note ok = sv_step_ok [OF a step]
  show "sv_inv (fst (sv_step env st e))" using ok step by simp
  show "accepts call_protocol (sv_phase st) (snd (sv_step env st e)) = Some (sv_phase (fst (sv_step env st e)))"
    using ok step by simp
qed

section \<open>One read outstanding\<close>

text \<open>At most one read is outstanding, and only while \<open>reading\<close> is set. This needs nothing of the status.\<close>

definition read_inv :: "('q, 'k) server_call \<Rightarrow> bool" where
  "read_inv st \<longleftrightarrow> count_list (sc_pending st) TagRead \<le> (if sc_reading st then 1 else 0)"

lemma read_inv_new [simp]: "read_inv (sc_new kind)"
  by (simp add: read_inv_def sc_new_eq)

definition no_reads :: "('q, 'k) server_call \<Rightarrow> ('q, 'k) server_call \<Rightarrow> ('q, 'k) sv_effect list \<Rightarrow> bool" where
  "no_reads st st' eff \<longleftrightarrow> sc_pending st' = sc_pending st \<and> sc_reading st' = sc_reading st \<and> reads_of eff = 0"

lemma handleError_no_reads: "handleError e st = (st', eff) \<Longrightarrow> no_reads st st' eff"
  by (auto simp: handleError_def no_reads_def reads_of_def Let_def split: option.splits)

lemma setStatus_reading [simp]: "sc_reading (setStatus e st) = sc_reading st" "sc_pending (setStatus e st) = sc_pending st"
  by (simp_all add: setStatus_def Let_def split: option.split)

lemma emit_error_no_reads: "emit_error e st = (st', eff) \<Longrightarrow> no_reads st st' eff"
  by (auto simp: emit_error_def terminateCall_def stream_end_def no_reads_def reads_of_def Let_def
      split: if_splits dest!: handleError_no_reads)

lemma sendUnaryData_no_reads:
  fixes env :: "('p, 'q) handler_env" and st st' :: "('q, 'k) server_call"
  assumes "sendUnaryData env err v trailer flags st = (st', eff)"
  shows "no_reads st st' eff"
proof -
  have send: "no_reads s s' out" if "sendUnaryResponse env v trailer flags s = (s', out)" for s s' :: "('q, 'k) server_call" and out
    using that by (auto simp: sendUnaryResponse_def no_reads_def reads_of_def Let_def split: sum.splits if_splits
        dest!: handleError_no_reads)
  let ?answer = "\<lambda>s. case err of
      Some e \<Rightarrow> handleError (case trailer of Some m \<Rightarrow> e\<lparr>eo_metadata := MdGiven m\<rparr> | None \<Rightarrow> e) s
    | None \<Rightarrow> sendUnaryResponse env v trailer flags s"
  have answer: "no_reads s (fst (?answer s)) (snd (?answer s))" for s :: "('q, 'k) server_call"
    by (cases err) (auto intro: handleError_no_reads send simp: prod_eq_iff)
  show ?thesis
  proof (cases "sc_kind st = ClientStream")
    case True
    with assms have "st' = fst (?answer (st\<lparr>sc_finished := True\<rparr>))" "eff = DiscardData # snd (?answer (st\<lparr>sc_finished := True\<rparr>))"
      by (cases err; auto simp: sendUnaryData_eq terminate_def case_prod_beta)+
    with answer [of "st\<lparr>sc_finished := True\<rparr>"] show ?thesis by (simp add: no_reads_def reads_of_def)
  next
    case False
    with assms have "(st', eff) = ?answer st" by (cases err) (simp_all add: sendUnaryData_eq case_prod_beta)
    with answer [of st] show ?thesis by (metis fst_conv snd_conv)
  qed
qed

lemma sv_handle_reads:
  assumes inv: "read_inv st" and legal: "sv_legal st e" and step: "sv_handle env st e = (st', eff)"
  shows "sc_pending st' = sc_pending st \<and>
    count_list (sc_pending st) TagRead - (if done_tag e = Some TagRead then 1 else 0) + reads_of eff \<le>
      (if sc_reading st' then 1 else 0)"
proof -
  have quiet: ?thesis if "no_reads st st' eff" using that inv by (simp add: no_reads_def read_inv_def)
  show ?thesis
  proof (cases e)
    case (ReadDone r)
    with legal have "0 < count_list (sc_pending st) TagRead" by (simp add: sv_legal_def count_list_mem)
    with inv have one: "count_list (sc_pending st) TagRead = 1" "sc_reading st" by (auto simp: read_inv_def split: if_splits)
    from step ReadDone consider (err) x where "emit_error x st = (st', eff)"
      | (fin) "terminate st = (st', eff)"
      | (push) d where "st' = st\<lparr>sc_pushes := Suc (sc_pushes st)\<rparr>" "eff = [SvPush d]"
      | (more) d where "st' = st\<lparr>sc_pushes := Suc (sc_pushes st)\<rparr>" "eff = [SvPush d, StartBatch recv_message TagRead]"
      | (stop) d where "st' = st\<lparr>sc_pushes := Suc (sc_pushes st), sc_reading := False\<rparr>" "eff = [SvPush d]"
      by (auto simp: sv_readCallback_def Let_def split: sum.splits if_splits)
    then show ?thesis
    proof cases
      case err
      then show ?thesis by (intro quiet emit_error_no_reads)
    qed (use one ReadDone in \<open>auto simp: reads_of_def terminate_def\<close>)
  next
    case Read
    with step inv show ?thesis by (auto simp: sv_read_def read_inv_def reads_of_def split: if_splits)
  next
    case Start
    with step show ?thesis by (intro quiet) (auto simp: sv_start_eq waitForCancel_def no_reads_def reads_of_def)
  next
    case (CancelDone r)
    have *: "no_reads st (fst (emit_error x st)) (snd (emit_error x st))" for x by (rule emit_error_no_reads) simp
    with CancelDone step show ?thesis
      by (intro quiet) (auto simp: sv_cancel_done_def terminate_def no_reads_def reads_of_def case_prod_beta Let_def
        split: sum.splits if_splits)
  next
    case (RequestDone r)
    with step show ?thesis
      by (intro quiet) (auto simp: sv_request_done_eq no_reads_def reads_of_def split: sum.splits if_splits
        dest!: emit_error_no_reads)
  next
    case (WriteBatchDone cb err)
    with step show ?thesis
      by (intro quiet) (auto simp: sv_write_done_def no_reads_def reads_of_def split: option.splits dest!: emit_error_no_reads)
  next
    case (SendMetadataDone err)
    with step show ?thesis
      by (intro quiet) (auto simp: no_reads_def reads_of_def split: option.splits dest!: emit_error_no_reads)
  next
    case (SendMetadata m)
    with step show ?thesis by (intro quiet) (auto simp: sv_sendMetadata_def no_reads_def reads_of_def split: if_splits)
  next
    case (Write chunk encoding cb)
    with step show ?thesis
      by (intro quiet; cases "he_serialize env chunk") (auto simp: sv_write_def no_reads_def reads_of_def Let_def split: if_splits)
  next
    case (End m)
    with step show ?thesis by (intro quiet) (auto simp: stream_end_def no_reads_def reads_of_def Let_def split: option.splits)
  next
    case Finish
    with step show ?thesis by (intro quiet) (auto simp: sendStatus_def no_reads_def reads_of_def Let_def split: if_splits)
  next
    case (EmitError x)
    with step show ?thesis by (intro quiet emit_error_no_reads) simp
  next
    case (Respond err v trailer flags)
    with step show ?thesis by (intro quiet sendUnaryData_no_reads) simp
  next
    case Terminate
    with step show ?thesis by (intro quiet) (auto simp: terminate_def no_reads_def reads_of_def)
  qed
qed

interpretation server_reads: machine "sv_step env" sv_legal read_inv
  for env :: "('p, 'q) handler_env"
proof unfold_locales
  fix st :: "('q, 'c) server_call" and e :: "('p, 'c) sv_event"
  assume a: "read_inv st" "sv_legal st e"
  obtain st1 eff where h: "sv_handle env st e = (st1, eff)" by force
  have "count_list (sc_pending (sv_record e eff st1)) TagRead =
      count_list (sc_pending st) TagRead - (if done_tag e = Some TagRead then 1 else 0) + reads_of eff"
    using sv_handle_reads [OF a h] by (simp add: sv_record_def reads_of_def count_list_remove1 split: option.split)
  moreover have "sc_reading (sv_record e eff st1) = sc_reading st1" by (simp add: sv_record_def)
  ultimately show "read_inv (fst (sv_step env st e))"
    using sv_handle_reads [OF a h] h by (simp only: read_inv_def sv_step_def Let_def split_conv fst_conv)
qed

section \<open>Messages reach the reader in order\<close>

fun sv_pushes :: "('q, 'k) sv_effect list \<Rightarrow> 'q option list" where
  "sv_pushes [] = []"
| "sv_pushes (SvPush d # es) = d # sv_pushes es"
| "sv_pushes (_ # es) = sv_pushes es"

lemma sv_pushes_append [simp]: "sv_pushes (xs @ ys) = sv_pushes xs @ sv_pushes ys"
  by (induction xs rule: sv_pushes.induct) auto

fun read_results :: "('p, 'k) sv_event list \<Rightarrow> bytes option list" where
  "read_results [] = []"
| "read_results (ReadDone (Inr d) # es) = d # read_results es"
| "read_results (_ # es) = read_results es"

lemma setStatus_finished [simp]: "sc_finished (setStatus e st) = sc_finished st"
  by (simp add: setStatus_def Let_def split: option.split)

lemma emit_error_quiet:
  "emit_error e st = (st', eff) \<Longrightarrow> sc_finished st' = sc_finished st \<and> sv_pushes eff = []"
  by (auto simp: emit_error_def terminateCall_def stream_end_def handleError_def Let_def split: if_splits option.splits)

lemma handleError_quiet:
  "handleError e st = (st', eff) \<Longrightarrow> sc_finished st' = sc_finished st \<and> sv_pushes eff = []"
  by (auto simp: handleError_def Let_def split: option.splits)

lemma sendUnaryData_quiet:
  "sendUnaryData env err v trailer flags st = (st', eff) \<Longrightarrow> (sc_finished st \<longrightarrow> sc_finished st') \<and> sv_pushes eff = []"
  by (fastforce simp: sendUnaryData_eq sendUnaryResponse_def terminate_def Let_def
      split: option.splits if_splits sum.splits prod.splits dest: handleError_quiet)

lemma sv_step_reads:
  assumes step: "sv_step env st e = (st', eff)" and open_: "\<not> sc_finished st'"
    and des: "\<forall>b. Some b \<in> set (read_results [e]) \<longrightarrow> he_deserialize env (Some b) = Inr (g b)"
  shows "\<not> sc_finished st \<and> sv_pushes eff = map (map_option g) (read_results [e])"
proof -
  obtain st1 where h: "sv_handle env st e = (st1, eff)" and "st' = sv_record e eff st1"
    using step by (auto simp: sv_step_def Let_def split: prod.splits)
  with open_ have o1: "\<not> sc_finished st1" by (simp add: sv_record_def)
  show ?thesis
  proof (cases e)
    case Start
    with h o1 show ?thesis by (auto simp: sv_start_eq waitForCancel_def)
  next
    case (CancelDone r)
    with h o1 show ?thesis
      by (auto simp: sv_cancel_done_def terminate_def Let_def split: sum.splits if_splits prod.splits dest: emit_error_quiet)
  next
    case (RequestDone r)
    with h o1 show ?thesis
      by (auto simp: sv_request_done_eq Let_def split: sum.splits if_splits dest: emit_error_quiet)
  next
    case (ReadDone r)
    show ?thesis
    proof (cases r)
      case (Inl x)
      with ReadDone h o1 show ?thesis by (auto simp: sv_readCallback_def terminate_def)
    next
      case (Inr d)
      with ReadDone h o1 des show ?thesis
        by (cases d) (auto simp: sv_readCallback_def Let_def split: if_splits)
    qed
  next
    case (WriteBatchDone cb err)
    with h o1 show ?thesis by (auto simp: sv_write_done_def split: option.splits dest: emit_error_quiet)
  next
    case (SendMetadataDone err)
    with h o1 show ?thesis by (auto split: option.splits dest: emit_error_quiet)
  next
    case (SendMetadata m)
    with h o1 show ?thesis by (auto simp: sv_sendMetadata_def split: if_splits)
  next
    case (Write chunk encoding cb)
    with h o1 show ?thesis
      by (cases "he_serialize env chunk") (auto simp: sv_write_def Let_def split: if_splits)
  next
    case (End m)
    with h o1 show ?thesis by (auto simp: stream_end_def Let_def split: option.splits)
  next
    case Finish
    with h o1 show ?thesis by (auto simp: sendStatus_def Let_def split: if_splits)
  next
    case Read
    with h o1 show ?thesis by (auto simp: sv_read_def split: if_splits)
  next
    case (EmitError x)
    with h o1 show ?thesis by (auto dest: emit_error_quiet)
  next
    case (Respond err v trailer flags)
    with h o1 show ?thesis using sendUnaryData_quiet [of env err v trailer flags st st1 eff] by auto
  next
    case Terminate
    with h o1 show ?thesis by (auto simp: terminate_def)
  qed
qed

lemma read_results_Cons: "read_results (e # es) = read_results [e] @ read_results es"
  by (cases e rule: sv_event.exhaust) (auto split: sum.splits, (case_tac x4, auto))

lemma reads_in_order:
  "\<lbrakk>\<not> sc_finished (final (sv_step env) st es);
    \<forall>b. Some b \<in> set (read_results es) \<longrightarrow> he_deserialize env (Some b) = Inr (g b)\<rbrakk> \<Longrightarrow>
   sv_pushes (effects (sv_step env) st es) = map (map_option g) (read_results es) \<and> \<not> sc_finished st"
proof (induction es arbitrary: st)
  case Nil
  then show ?case by simp
next
  case (Cons e es)
  obtain st' eff where step: "sv_step env st e = (st', eff)" by force
  have ih: "sv_pushes (effects (sv_step env) st' es) = map (map_option g) (read_results es) \<and> \<not> sc_finished st'"
    using Cons step by (auto simp: read_results_Cons [of e es])
  have "\<not> sc_finished st \<and> sv_pushes eff = map (map_option g) (read_results [e])"
    using ih Cons.prems(2) by (intro sv_step_reads [OF step]) (auto simp: read_results_Cons [of e es])
  with ih step show ?case by (simp add: read_results_Cons [of e es])
qed

section \<open>Whole calls\<close>

text \<open>The default handlers of a service whose implementation lacks the method.\<close>

lemma handleError_batch:
  assumes "eo_metadata e \<noteq> MdUndefined"
  shows "\<exists>s. handleError e st = (st, [StartBatch (no_ops\<lparr>op_send_initial_metadata :=
        (if sc_metadataSent st then None else Some []), op_send_status := Some s\<rparr>) TagNone]) \<and>
      os_code s = (case eo_code e of Some c \<Rightarrow> c | None \<Rightarrow> status_code UNKNOWN)"
  using assms by (auto simp: handleError_def handleError_status_def Let_def nm_empty_def split: option.splits md_slot.splits)

section \<open>The answer to an error\<close>

lemma handleError_metadata:
  "os_metadata (handleError_status e) = (case eo_metadata e of MdAbsent \<Rightarrow> Some nm_empty | MdUndefined \<Rightarrow> None | MdGiven m \<Rightarrow> Some m)"
  by (simp add: handleError_status_def case_prod_beta Let_def)

lemma setStatus_frame: "setStatus e st = st\<lparr>sc_status := handleError_status e\<rparr>"
  by (simp add: setStatus_def handleError_status_def case_prod_beta Let_def split: option.split)

lemma handleError_alike:
  assumes "eo_metadata e \<noteq> MdUndefined"
  shows "\<exists>b. handleError e st = (st, [StartBatch b TagNone]) \<and> op_send_status b = Some (handleError_status e) \<and>
    op_send_initial_metadata b = (if sc_metadataSent st then None else Some []) \<and> op_send_message b = None"
proof -
  obtain m where m: "os_metadata (handleError_status e) = Some m"
    using assms by (cases "eo_metadata e") (auto simp: handleError_metadata)
  then have "(handleError_status e)\<lparr>os_metadata := Some m\<rparr> = handleError_status e" by (cases "handleError_status e") simp
  with m show ?thesis by (simp add: handleError_def nm_getCoreRepresentation_def nm_empty_def)
qed

lemma sendStatus_alike:
  assumes "sc_status st = handleError_status e" and "eo_metadata e \<noteq> MdUndefined"
  shows "\<exists>st' b. sendStatus st = (st', [StartBatch b TagNone]) \<and> op_send_status b = Some (handleError_status e) \<and>
    op_send_initial_metadata b = (if sc_metadataSent st then None else Some []) \<and> op_send_message b = None"
proof -
  have "map_option nm_getCoreRepresentation x = x" for x by (cases x) (simp_all add: nm_getCoreRepresentation_def)
  with assms(1) show ?thesis by (simp add: sendStatus_def Let_def nm_empty_def)
qed

lemma error_batch_alike:
  assumes "eo_metadata e \<noteq> MdUndefined"
  shows "\<exists>b. batches (effects (sv_step env) st (EmitError e # (if writable_kind (sc_kind st) then [Finish] else []))) = [(b, TagNone)] \<and>
    op_send_status b = Some (handleError_status e) \<and>
    op_send_initial_metadata b = (if sc_metadataSent st then None else Some []) \<and> op_send_message b = None"
proof (cases "writable_kind (sc_kind st)")
  case True
  let ?st = "(fst (sv_step env st (EmitError e)))\<lparr>sc_finishFired := True\<rparr>"
  have "sc_status ?st = handleError_status e" "sc_metadataSent ?st = sc_metadataSent st"
    "batches (snd (sv_step env st (EmitError e))) = []"
    using True by (simp_all add: sv_step_def emit_error_def terminateCall_def stream_end_def setStatus_frame sv_record_def)
  moreover from sendStatus_alike [OF this(1) assms] obtain st' b where
    "sendStatus ?st = (st', [StartBatch b TagNone])" "op_send_status b = Some (handleError_status e)"
    "op_send_initial_metadata b = (if sc_metadataSent ?st then None else Some [])" "op_send_message b = None" by blast
  ultimately show ?thesis using True by (intro exI [of _ b]) (simp add: sv_step_def case_prod_beta)
next
  case False
  with handleError_alike [OF assms, of st] show ?thesis
    by (auto simp: sv_step_def emit_error_def)
qed

text \<open>A unary call whose request arrives and deserializes, and whose handler answers without
  error, runs the handler on the deserialized request and sends one batch with the
  initial metadata, the serialized response with its flags, and an OK status with the
  trailer.\<close>

lemma unary_call_is_answered:
  assumes "he_deserialize env data = Inr request" and "he_serialize env v = Inr bytes"
  shows "effects (sv_step env) (sc_new Unary) [Start, RequestDone (Inr data), Respond None v trailer flags] =
    [StartBatch (no_ops\<lparr>op_recv_close := True\<rparr>) TagCancel, StartBatch recv_message TagRequest,
     CallHandler (Some request),
     StartBatch (no_ops\<lparr>op_send_initial_metadata := Some [],
         op_send_message := Some \<lparr>msg_bytes = bytes, msg_flags = flags\<rparr>,
         op_send_status := Some \<lparr>os_code = 0, os_details = ''OK'',
           os_metadata = Some (case trailer of Some m \<Rightarrow> m | None \<Rightarrow> [])\<rparr>\<rparr>) TagNone]"
  using assms
  by (cases trailer)
    (simp_all add: sv_step_def sv_start_eq waitForCancel_def sv_request_done_eq sendUnaryData_eq sendUnaryResponse_def
      sc_new_eq sv_record_def nm_empty_def nm_getCoreRepresentation_def readable_kind_def)

end
