(* ===== verification/ServerObject.thy ===== *)
theory ServerObject
  imports ServerCallFacts
begin

text \<open>
  The \<open>Server\<close> class of \<open>grpc-native-core/src/server.js\<close>: the table of handlers, registration, the
  accept loop and the dispatch of calls. The C++ server is known by the calls made to it
  (\<open>srv_effect\<close>). An implementation object is read by property name, through its prototype, so it is
  a function; method paths contain a slash, so none is the name of a property of the table itself.
\<close>

section \<open>State\<close>

text \<open>A handler function: a property of the implementation bound to it, or a default handler.\<close>

datatype 'h handler_func = Bound 'h | DefaultHandler string

record ('h, 's, 'd) handler_entry =
  hd_func :: "'h handler_func"
  hd_serialize :: 's
  hd_deserialize :: 'd
  hd_type :: string

record ('h, 's, 'd) server =
  srv_handlers :: "('h, 's, 'd) handler_entry obj"
  srv_started :: bool
  srv_requests :: nat

datatype ('h, 's, 'd, 'call) srv_effect =
    NativeStart
  | RequestCall
  | NativeTryShutdown
  | NativeForceShutdown
  | AddHttp2Port string
  | LogError string
  | CallBatch 'call batch
  | HandleCall call_kind 'call "('h, 's, 'd) handler_entry" metadata
  | SrvUncaught js_exn

definition server_new :: "('h, 's, 'd) server" where
  "server_new = \<lparr>srv_handlers = [], srv_started = False, srv_requests = 0\<rparr>"

section \<open>Registration\<close>

definition register ::
  "string \<Rightarrow> 'h handler_func \<Rightarrow> 's \<Rightarrow> 'd \<Rightarrow> string \<Rightarrow> ('h, 's, 'd) server \<Rightarrow> bool \<times> ('h, 's, 'd) server" where
  "register name handler serialize deserialize type srv =
     (if has_own (srv_handlers srv) name then (False, srv)
      else (True, srv\<lparr>srv_handlers := obj_put name
              \<lparr>hd_func = handler, hd_serialize = serialize, hd_deserialize = deserialize, hd_type = type\<rparr>
              (srv_handlers srv)\<rparr>))"

definition method_type :: "('s, 'd) method_attrs \<Rightarrow> string" where
  "method_type attrs =
     (if at_requestStream attrs then (if at_responseStream attrs then ''bidi'' else ''client_stream'')
      else (if at_responseStream attrs then ''server_stream'' else ''unary''))"

definition original_key :: "('s, 'd) method_attrs \<Rightarrow> string" where
  "original_key attrs = (case at_originalName attrs of Some n \<Rightarrow> n | None \<Rightarrow> ''undefined'')"

text \<open>The implementation of a method, and what is logged when there is none.\<close>

definition find_impl ::
  "int \<Rightarrow> (string \<Rightarrow> 'h option) \<Rightarrow> string \<Rightarrow> ('s, 'd) method_attrs \<Rightarrow> 'h handler_func \<times> string list" where
  "find_impl verbosity implementation name attrs =
     (case implementation name of
        Some f \<Rightarrow> (Bound f, [])
      | None \<Rightarrow>
          (case implementation (original_key attrs) of
             Some f \<Rightarrow> (Bound f, [])
           | None \<Rightarrow> (DefaultHandler (method_type attrs),
               common_log verbosity 2
                 (''Method handler '' @ name @ '' for '' @ at_path attrs @ '' expected but not provided''))))"

fun add_methods ::
  "int \<Rightarrow> (string \<Rightarrow> 'h option) \<Rightarrow> (string \<times> ('s, 'd) method_attrs) list \<Rightarrow> ('h, 's, 'd) server \<Rightarrow>
   ('h, 's, 'd) server \<times> ('h, 's, 'd, 'call) srv_effect list \<times> js_exn option" where
  "add_methods verbosity implementation [] srv = (srv, [], None)"
| "add_methods verbosity implementation ((name, attrs) # rest) srv =
     (let (impl, msgs) = find_impl verbosity implementation name attrs;
          (ok, srv1) = register (at_path attrs) impl (at_responseSerialize attrs) (at_requestDeserialize attrs)
                         (method_type attrs) srv
      in if \<not> ok then
           (srv1, map LogError msgs,
            Some (JsError (''Method handler for '' @ at_path attrs @ '' already provided.'')))
         else
           (let (srv2, eff, e) = add_methods verbosity implementation rest srv1
            in (srv2, map LogError msgs @ eff, e)))"

text \<open>An argument that is not an object is \<open>None\<close>.\<close>

definition addService ::
  "int \<Rightarrow> ('s, 'd) method_attrs obj option \<Rightarrow> (string \<Rightarrow> 'h option) option \<Rightarrow> ('h, 's, 'd) server \<Rightarrow>
   ('h, 's, 'd) server \<times> ('h, 's, 'd, 'call) srv_effect list \<times> js_exn option" where
  "addService verbosity service implementation srv =
     (case (service, implementation) of
        (Some svc, Some impl) \<Rightarrow>
          if own_entries svc = [] then (srv, [], Some (JsError ''Cannot add an empty service to a server''))
          else if srv_started srv then (srv, [], Some (JsError ''Can't add a service to a started server.''))
          else add_methods verbosity impl (own_entries svc) srv
      | _ \<Rightarrow> (srv, [], Some (JsError ''addService requires two objects as arguments'')))"

section \<open>The default handlers\<close>

definition unimplementedStatusResponse :: err_obj where
  "unimplementedStatusResponse =
     \<lparr>eo_message = None, eo_code = Some (status_code UNIMPLEMENTED),
      eo_details = Some ''The server does not implement this method'', eo_metadata = MdAbsent\<rparr>"

text \<open>What a default handler does with the call it is given: it calls the callback, or emits an error.\<close>

definition defaultHandler :: "call_kind \<Rightarrow> 'p \<Rightarrow> ('p, 'k) sv_event" where
  "defaultHandler kind undef =
     (case kind of
        Unary \<Rightarrow> Respond (Some unimplementedStatusResponse) undef None None
      | ClientStream \<Rightarrow> Respond (Some unimplementedStatusResponse) undef None None
      | ServerStream \<Rightarrow> EmitError unimplementedStatusResponse
      | Bidi \<Rightarrow> EmitError unimplementedStatusResponse)"

section \<open>Running\<close>

definition streamHandlers :: "string \<Rightarrow> call_kind option" where
  "streamHandlers type =
     map_of [(''unary'', Unary), (''server_stream'', ServerStream), (''client_stream'', ClientStream), (''bidi'', Bidi)] type"

definition unimplemented_batch :: batch where
  "unimplemented_batch = no_ops\<lparr>op_send_initial_metadata := Some nm_empty,
     op_send_status := Some \<lparr>os_code = status_code UNIMPLEMENTED, os_details = '''', os_metadata = Some []\<rparr>,
     op_recv_close := True\<rparr>"

definition request_call :: "('h, 's, 'd) server \<Rightarrow> ('h, 's, 'd) server \<times> ('h, 's, 'd, 'call) srv_effect list" where
  "request_call srv = (srv\<lparr>srv_requests := Suc (srv_requests srv)\<rparr>, [RequestCall])"

definition server_start ::
  "('h, 's, 'd) server \<Rightarrow> ('h, 's, 'd) server \<times> ('h, 's, 'd, 'call) srv_effect list \<times> js_exn option" where
  "server_start srv =
     (if srv_started srv then (srv, [], Some (JsError ''Server is already running''))
      else
        (let (srv1, eff) = request_call (srv\<lparr>srv_started := True\<rparr>)
         in (srv1, NativeStart # eff, None)))"

text \<open>The event of a new call: its call object, its method (null when the server shuts down) and its
  metadata.\<close>

definition handleNewCall ::
  "err_obj + 'call \<times> string option \<times> metadata option \<Rightarrow> ('h, 's, 'd) server \<Rightarrow>
   ('h, 's, 'd) server \<times> ('h, 's, 'd, 'call) srv_effect list" where
  "handleNewCall event srv =
     (case event of
        Inl err \<Rightarrow> (srv, [])
      | Inr (call, method, md) \<Rightarrow>
          (let metadata = nm_fromCoreRepresentation md in
           case method of
             None \<Rightarrow> (srv, [])
           | Some name \<Rightarrow>
               (let (srv1, eff) = request_call srv in
                case map_of (srv_handlers srv1) name of
                  None \<Rightarrow> (srv1, eff @ [CallBatch call unimplemented_batch])
                | Some handler \<Rightarrow>
                    (case streamHandlers (hd_type handler) of
                       Some kind \<Rightarrow> (srv1, eff @ [HandleCall kind call handler metadata])
                     | None \<Rightarrow> (srv1, eff @ [SrvUncaught (JsTypeError ''streamHandlers[handler.type] is not a function'')])))))"

definition server_bind ::
  "string \<Rightarrow> ('h, 's, 'd) server \<Rightarrow> ('h, 's, 'd) server \<times> ('h, 's, 'd, 'call) srv_effect list \<times> js_exn option" where
  "server_bind port srv =
     (if srv_started srv then (srv, [], Some (JsError ''Can't bind an already running server to an address''))
      else (srv, [AddHttp2Port port], None))"

definition tryShutdown :: "('h, 's, 'd) server \<Rightarrow> ('h, 's, 'd) server \<times> ('h, 's, 'd, 'call) srv_effect list" where
  "tryShutdown srv = (srv, [NativeTryShutdown])"

definition forceShutdown :: "('h, 's, 'd) server \<Rightarrow> ('h, 's, 'd) server \<times> ('h, 's, 'd, 'call) srv_effect list" where
  "forceShutdown srv = (srv, [NativeForceShutdown])"

section \<open>The server as a state machine\<close>

datatype ('h, 's, 'd, 'call) srv_event =
    StartServer
  | NewCall "err_obj + 'call \<times> string option \<times> metadata option"
  | AddService "('s, 'd) method_attrs obj option" "(string \<Rightarrow> 'h option) option"
  | Register string "'h handler_func" 's 'd string
  | BindPort string
  | TryShutdown
  | ForceShutdown

fun srv_step ::
  "int \<Rightarrow> ('h, 's, 'd) server \<Rightarrow> ('h, 's, 'd, 'call) srv_event \<Rightarrow>
   ('h, 's, 'd) server \<times> ('h, 's, 'd, 'call) srv_effect list" where
  "srv_step verbosity srv StartServer = (let (s, eff, e) = server_start srv in (s, eff))"
| "srv_step verbosity srv (NewCall event) =
     handleNewCall event (srv\<lparr>srv_requests := srv_requests srv - 1\<rparr>)"
| "srv_step verbosity srv (AddService service implementation) =
     (let (s, eff, e) = addService verbosity service implementation srv in (s, eff))"
| "srv_step verbosity srv (Register name handler serialize deserialize type) =
     (snd (register name handler serialize deserialize type srv), [])"
| "srv_step verbosity srv (BindPort port) = (let (s, eff, e) = server_bind port srv in (s, eff))"
| "srv_step verbosity srv TryShutdown = tryShutdown srv"
| "srv_step verbosity srv ForceShutdown = forceShutdown srv"

text \<open>The C++ server completes only requests that were made.\<close>

fun srv_legal :: "('h, 's, 'd) server \<Rightarrow> ('h, 's, 'd, 'call) srv_event \<Rightarrow> bool" where
  "srv_legal srv (NewCall event) \<longleftrightarrow> 0 < srv_requests srv"
| "srv_legal srv _ \<longleftrightarrow> True"

section \<open>Registration never overwrites\<close>

definition entry_for :: "(string \<Rightarrow> 'h option) \<Rightarrow> string \<Rightarrow> ('s, 'd) method_attrs \<Rightarrow> ('h, 's, 'd) handler_entry" where
  "entry_for implementation name attrs =
     \<lparr>hd_func = fst (find_impl 0 implementation name attrs), hd_serialize = at_responseSerialize attrs,
      hd_deserialize = at_requestDeserialize attrs, hd_type = method_type attrs\<rparr>"

lemma find_impl_fst: "fst (find_impl v implementation name attrs) = fst (find_impl 0 implementation name attrs)"
  by (simp add: find_impl_def split: option.split)

lemma register_keeps:
  "register name h s d t srv = (ok, srv') \<Longrightarrow> map_of (srv_handlers srv) p = Some x \<Longrightarrow> map_of (srv_handlers srv') p = Some x"
  by (auto simp: register_def has_own_def obj_put_def update_conv' split: if_splits)

lemma add_methods_keeps:
  "add_methods v impl es srv = (srv', eff, e) \<Longrightarrow> map_of (srv_handlers srv) p = Some x \<Longrightarrow>
   map_of (srv_handlers srv') p = Some x"
proof (induction es arbitrary: srv srv' eff e)
  case Nil
  then show ?case by simp
next
  case (Cons en es)
  obtain name attrs where en: "en = (name, attrs)" by force
  obtain i msgs where f: "find_impl v impl name attrs = (i, msgs)" by force
  obtain ok srv1 where r: "register (at_path attrs) i (at_responseSerialize attrs) (at_requestDeserialize attrs)
      (method_type attrs) srv = (ok, srv1)" by force
  from register_keeps [OF r Cons.prems(2)] have "map_of (srv_handlers srv1) p = Some x" .
  then show ?case using Cons.prems(1) en f r Cons.IH [of srv1]
    by (auto simp: Let_def split: if_splits prod.splits)
qed

lemma addService_keeps:
  "addService v service impl srv = (srv', eff, e) \<Longrightarrow> map_of (srv_handlers srv) p = Some x \<Longrightarrow>
   map_of (srv_handlers srv') p = Some x"
  by (auto simp: addService_def split: option.splits if_splits dest: add_methods_keeps)

lemma srv_step_keeps:
  assumes "map_of (srv_handlers srv) p = Some x"
  shows "map_of (srv_handlers (fst (srv_step v srv e))) p = Some x"
proof (cases e)
  case (AddService service impl)
  with assms show ?thesis
    using addService_keeps [of v service impl srv] by (auto split: prod.split)
next
  case (Register name h s d t)
  with assms show ?thesis
    using register_keeps [of name h s d t srv] by (auto simp: prod_eq_iff)
qed (use assms in \<open>auto simp: server_start_def request_call_def handleNewCall_def server_bind_def tryShutdown_def
      forceShutdown_def Let_def split: sum.splits option.splits\<close>)

section \<open>What a service registers\<close>

lemma add_methods_ok:
  fixes srv :: "('h, 's, 'd) server"
  assumes "distinct (map (at_path \<circ> snd) es)" and "\<forall>e \<in> set es. \<not> has_own (srv_handlers srv) (at_path (snd e))"
    and "\<forall>e \<in> set es. at_path (snd e) \<noteq> ''__proto__''"
  shows "\<exists>srv' eff. add_methods v impl es srv = (srv', eff :: ('h, 's, 'd, 'call) srv_effect list, None) \<and> srv_started srv' = srv_started srv \<and>
    (\<forall>e \<in> set es. map_of (srv_handlers srv') (at_path (snd e)) = Some (entry_for impl (fst e) (snd e))) \<and>
    (\<forall>p. p \<notin> at_path ` snd ` set es \<longrightarrow> map_of (srv_handlers srv') p = map_of (srv_handlers srv) p)"
  using assms
proof (induction es arbitrary: srv)
  case Nil
  then show ?case by simp
next
  case (Cons en es)
  obtain name attrs where en: "en = (name, attrs)" by force
  let ?srv1 = "srv\<lparr>srv_handlers := obj_put (at_path attrs) (entry_for impl name attrs) (srv_handlers srv)\<rparr>"
  have r: "register (at_path attrs) (fst (find_impl v impl name attrs)) (at_responseSerialize attrs)
      (at_requestDeserialize attrs) (method_type attrs) srv = (True, ?srv1)"
    using Cons.prems(2) en by (simp add: register_def entry_for_def find_impl_fst [of v])
  have np: "at_path attrs \<noteq> ''__proto__''" using Cons.prems(3) en by simp
  have fresh: "\<forall>e \<in> set es. \<not> has_own (srv_handlers ?srv1) (at_path (snd e))"
  proof
    fix e assume e: "e \<in> set es"
    then have "at_path (snd e) \<noteq> at_path attrs" using Cons.prems(1) en by (force simp: image_iff)
    with e Cons.prems(2) np show "\<not> has_own (srv_handlers ?srv1) (at_path (snd e))"
      by (auto simp: has_own_def obj_simps)
  qed
  have d: "distinct (map (at_path \<circ> snd) es)" and n: "\<forall>e \<in> set es. at_path (snd e) \<noteq> ''__proto__''"
    using Cons.prems by (auto simp: comp_def)
  from Cons.IH [OF d fresh n] obtain srv' and eff :: "('h, 's, 'd, 'call) srv_effect list" where a: "add_methods v impl es ?srv1 = (srv', eff, None)"
      "srv_started srv' = srv_started ?srv1"
      "\<forall>e \<in> set es. map_of (srv_handlers srv') (at_path (snd e)) = Some (entry_for impl (fst e) (snd e))"
      "\<forall>p. p \<notin> at_path ` snd ` set es \<longrightarrow> map_of (srv_handlers srv') p = map_of (srv_handlers ?srv1) p" by blast
  have "at_path attrs \<notin> at_path ` snd ` set es" using Cons.prems(1) en by auto
  then have "map_of (srv_handlers srv') (at_path attrs) = Some (entry_for impl name attrs)"
    using a(4) np by (auto simp: obj_simps)
  moreover have "\<forall>p. p \<notin> at_path ` snd ` set (en # es) \<longrightarrow> map_of (srv_handlers srv') p = map_of (srv_handlers srv) p"
    using a(4) en by (auto simp: obj_simps)
  moreover have "\<exists>eff' :: ('h, 's, 'd, 'call) srv_effect list. add_methods v impl (en # es) srv = (srv', eff', None)"
    using a(1) r en by (cases "find_impl v impl name attrs") (simp add: Let_def)
  ultimately show ?case using a(2,3) en by auto
qed

section \<open>The accept loop\<close>

definition srv_inv :: "('h, 's, 'd) server \<Rightarrow> bool" where
  "srv_inv srv \<longleftrightarrow> srv_requests srv \<le> (if srv_started srv then 1 else 0)"

lemma add_methods_frame:
  "add_methods v impl es srv = (srv', eff, e) \<Longrightarrow> srv_requests srv' = srv_requests srv \<and> srv_started srv' = srv_started srv"
proof (induction es arbitrary: srv srv' eff e)
  case (Cons en es)
  obtain name attrs where en: "en = (name, attrs)" by force
  obtain i msgs where f: "find_impl v impl name attrs = (i, msgs)" by force
  obtain ok srv1 where r: "register (at_path attrs) i (at_responseSerialize attrs) (at_requestDeserialize attrs)
      (method_type attrs) srv = (ok, srv1)" by force
  then have "srv_requests srv1 = srv_requests srv \<and> srv_started srv1 = srv_started srv"
    by (auto simp: register_def split: if_splits)
  then show ?case using Cons.prems en f r Cons.IH [of srv1]
    by (auto simp: Let_def split: if_splits prod.splits)
qed simp

lemma addService_frame:
  "addService v s impl srv = (srv', eff, e) \<Longrightarrow> srv_requests srv' = srv_requests srv \<and> srv_started srv' = srv_started srv"
  by (auto simp: addService_def split: option.splits if_splits dest: add_methods_frame)

interpretation accept_loop: machine "srv_step v" srv_legal srv_inv
  for v :: int
proof unfold_locales
  fix srv :: "('a, 'b, 'c) server" and e :: "('a, 'b, 'c, 'd) srv_event"
  assume "srv_inv srv" and "srv_legal srv e"
  then show "srv_inv (fst (srv_step v srv e))"
    by (cases e)
      (auto simp: srv_inv_def server_start_def request_call_def handleNewCall_def server_bind_def tryShutdown_def
        forceShutdown_def register_def Let_def dest: addService_frame split: sum.split option.split if_splits prod.split)
qed

text \<open>While calls keep arriving with a method, a started server always has one request outstanding.\<close>

fun live_event :: "('h, 's, 'd, 'call) srv_event \<Rightarrow> bool" where
  "live_event (NewCall (Inr (call, Some m, md))) \<longleftrightarrow> True"
| "live_event (NewCall _) \<longleftrightarrow> False"
| "live_event _ \<longleftrightarrow> True"

lemma srv_step_live:
  assumes "srv_started srv" and "srv_requests srv = 1" and "live_event e"
  shows "srv_started (fst (srv_step v srv e)) \<and> srv_requests (fst (srv_step v srv e)) = 1"
  using assms
  by (cases e rule: live_event.cases)
    (auto simp: server_start_def request_call_def handleNewCall_def server_bind_def tryShutdown_def
      forceShutdown_def register_def Let_def dest: addService_frame split: option.split prod.split)

lemma srv_run_live:
  "\<lbrakk>srv_started srv; srv_requests srv = 1; list_all live_event es\<rbrakk> \<Longrightarrow>
   srv_started (final (srv_step v) srv es) \<and> srv_requests (final (srv_step v) srv es) = 1"
proof (induction es arbitrary: srv)
  case (Cons e es)
  with srv_step_live [of srv e v] show ?case by simp
qed simp

section \<open>A path that is taken\<close>

lemma register_grows: "register name h s d t srv = (ok, srv') \<Longrightarrow> has_own (srv_handlers srv) p \<Longrightarrow> has_own (srv_handlers srv') p"
  using register_keeps [of name h s d t srv ok srv' p] by (auto simp: has_own_def)

lemma add_methods_taken:
  assumes "\<exists>e \<in> set es. has_own (srv_handlers srv) (at_path (snd e))"
  shows "\<exists>srv' eff p. add_methods v impl es srv = (srv', eff :: ('h, 's, 'd, 'call) srv_effect list,
      Some (JsError (''Method handler for '' @ p @ '' already provided.'')))"
  using assms
proof (induction es arbitrary: srv)
  case (Cons en es)
  obtain name attrs where en: "en = (name, attrs)" by force
  obtain i msgs where f: "find_impl v impl name attrs = (i, msgs)" by force
  obtain ok srv1 where r: "register (at_path attrs) i (at_responseSerialize attrs) (at_requestDeserialize attrs)
      (method_type attrs) srv = (ok, srv1)" by force
  show ?case
  proof (cases ok)
    case True
    then have "\<not> has_own (srv_handlers srv) (at_path attrs)" using r by (auto simp: register_def split: if_splits)
    with Cons.prems en obtain e where "e \<in> set es" "has_own (srv_handlers srv) (at_path (snd e))" by auto
    with register_grows [OF r] have "\<exists>e \<in> set es. has_own (srv_handlers srv1) (at_path (snd e))" by blast
    from Cons.IH [OF this] obtain srv' and eff :: "('h, 's, 'd, 'call) srv_effect list" and p where
      "add_methods v impl es srv1 = (srv', eff, Some (JsError (''Method handler for '' @ p @ '' already provided.'')))" by blast
    with True en f r show ?thesis by (simp add: Let_def)
  next
    case False
    with en f r show ?thesis by (simp add: Let_def)
  qed
qed simp

section \<open>The dispatch of a call\<close>

lemma calls_are_dispatched_by_path:
  "snd (handleNewCall (Inr (call, Some name, md)) srv) =
     RequestCall # (case map_of (srv_handlers srv) name of
        None \<Rightarrow> [CallBatch call unimplemented_batch]
      | Some handler \<Rightarrow>
          (case streamHandlers (hd_type handler) of
             Some kind \<Rightarrow> [HandleCall kind call handler (nm_fromCoreRepresentation md)]
           | None \<Rightarrow> [SrvUncaught (JsTypeError ''streamHandlers[handler.type] is not a function'')])) \<and>
   op_send_status unimplemented_batch = Some \<lparr>os_code = 12, os_details = [], os_metadata = Some []\<rparr>"
  by (auto simp: handleNewCall_def request_call_def Let_def unimplemented_batch_def split: option.split)

end
