(* ===== verification/Protobuf.thy ===== *)
theory Protobuf
  imports ClientObject ServerObject
begin

text \<open>
  Loading services from protobuf.js reflection objects: \<open>grpc-native-core/src/protobuf_js_5_common.js\<close>,
  \<open>protobuf_js_6_common.js\<close>, and \<open>loadObject\<close> and \<open>load\<close> of \<open>index.js\<close>; \<open>addProtoService\<close> of \<open>server.js\<close>.
  The message classes are protobuf.js objects: they are known by their operations, the fields of
  \<open>pb5_class\<close> and \<open>pb6_class\<close>. \<open>_.camelCase\<close> is the parameter \<open>camel\<close>.
\<close>

section \<open>Options\<close>

datatype pb_version = Detect | Version int | VersionString string

text \<open>An option that is not given is \<open>None\<close>.\<close>

record load_options =
  lo_convertFieldsToCamelCase :: "bool option"
  lo_binaryAsBase64 :: "bool option"
  lo_longsAsStrings :: "bool option"
  lo_enumsAsStrings :: "bool option"
  lo_deprecatedArgumentOrder :: "bool option"
  lo_protobufjsVersion :: "pb_version option"

definition no_options :: load_options where
  "no_options = \<lparr>lo_convertFieldsToCamelCase = None, lo_binaryAsBase64 = None, lo_longsAsStrings = None,
     lo_enumsAsStrings = None, lo_deprecatedArgumentOrder = None, lo_protobufjsVersion = None\<rparr>"

definition defaultGrpcOptions :: load_options where
  "defaultGrpcOptions = \<lparr>lo_convertFieldsToCamelCase = Some False, lo_binaryAsBase64 = Some False,
     lo_longsAsStrings = Some True, lo_enumsAsStrings = Some True, lo_deprecatedArgumentOrder = Some False,
     lo_protobufjsVersion = None\<rparr>"

fun first_given :: "'a option \<Rightarrow> 'a option \<Rightarrow> 'a option" where
  "first_given (Some a) b = Some a"
| "first_given None b = b"

text \<open>\<open>_.defaults\<close>: each undefined option takes the value of the defaults.\<close>

definition with_defaults :: "load_options option \<Rightarrow> load_options \<Rightarrow> load_options" where
  "with_defaults options defaults =
     (let o' = (case options of Some x \<Rightarrow> x | None \<Rightarrow> no_options) in
      \<lparr>lo_convertFieldsToCamelCase = first_given (lo_convertFieldsToCamelCase o') (lo_convertFieldsToCamelCase defaults),
       lo_binaryAsBase64 = first_given (lo_binaryAsBase64 o') (lo_binaryAsBase64 defaults),
       lo_longsAsStrings = first_given (lo_longsAsStrings o') (lo_longsAsStrings defaults),
       lo_enumsAsStrings = first_given (lo_enumsAsStrings o') (lo_enumsAsStrings defaults),
       lo_deprecatedArgumentOrder = first_given (lo_deprecatedArgumentOrder o') (lo_deprecatedArgumentOrder defaults),
       lo_protobufjsVersion = first_given (lo_protobufjsVersion o') (lo_protobufjsVersion defaults)\<rparr>)"

section \<open>Serializers\<close>

text \<open>A deserializer made without options fails when it reads them.\<close>

definition no_options_error :: js_exn where
  "no_options_error = JsTypeError ''Cannot read property 'binaryAsBase64' of undefined''"

record ('m, 'raw) pb5_class =
  p5_encode :: "'m \<Rightarrow> js_exn + bytes"
  p5_decode :: "bytes \<Rightarrow> js_exn + 'raw"
  p5_toRaw :: "'raw \<Rightarrow> bool option \<Rightarrow> bool option \<Rightarrow> 'm"

definition serializeCls5 :: "('m, 'raw) pb5_class \<Rightarrow> 'm \<Rightarrow> js_exn + bytes" where
  "serializeCls5 Cls arg = p5_encode Cls arg"

definition deserializeCls5 :: "('m, 'raw) pb5_class \<Rightarrow> load_options option \<Rightarrow> bytes \<Rightarrow> js_exn + 'm" where
  "deserializeCls5 cls options arg_buf =
     and_then (p5_decode cls arg_buf) (\<lambda>raw.
       case options of None \<Rightarrow> Inl no_options_error
       | Some o' \<Rightarrow> Inr (p5_toRaw cls raw (lo_binaryAsBase64 o') (lo_longsAsStrings o')))"

record conversion_options =
  cv_defaults :: bool
  cv_bytes_as_string :: bool
  cv_longs_as_string :: bool
  cv_enums_as_string :: bool
  cv_oneofs :: bool

record ('m, 'raw) pb6_class =
  p6_fromObject :: "'m \<Rightarrow> js_exn + 'raw"
  p6_encode :: "'raw \<Rightarrow> js_exn + bytes"
  p6_decode :: "bytes \<Rightarrow> js_exn + 'raw"
  p6_toObject :: "'raw \<Rightarrow> conversion_options \<Rightarrow> 'm"

definition serializeCls6 :: "('m, 'raw) pb6_class \<Rightarrow> 'm \<Rightarrow> js_exn + bytes" where
  "serializeCls6 cls arg = and_then (p6_fromObject cls arg) (p6_encode cls)"

definition deserializeCls6 :: "('m, 'raw) pb6_class \<Rightarrow> load_options \<Rightarrow> bytes \<Rightarrow> js_exn + 'm" where
  "deserializeCls6 cls options arg_buf =
     (let conversion_options =
        \<lparr>cv_defaults = True, cv_bytes_as_string = (lo_binaryAsBase64 options = Some True),
         cv_longs_as_string = (lo_longsAsStrings options = Some True),
         cv_enums_as_string = (lo_enumsAsStrings options = Some True), cv_oneofs = True\<rparr>
      in and_then (p6_decode cls arg_buf) (\<lambda>raw. Inr (p6_toObject cls raw conversion_options)))"

section \<open>Names\<close>

text \<open>A reflection object as its chain of parents; \<open>PbNone\<close> is null or undefined.\<close>

datatype pb_ref = PbNone | PbNamed string pb_ref

fun fullyQualifiedName :: "pb_ref \<Rightarrow> string" where
  "fullyQualifiedName PbNone = ''''"
| "fullyQualifiedName (PbNamed name parent) =
     (let parent_name = fullyQualifiedName parent
      in if parent_name \<noteq> '''' then parent_name @ ''.'' @ name else name)"

text \<open>The adapter of protobuf.js 6 has a copy of the function.\<close>

fun fullyQualifiedName6 :: "pb_ref \<Rightarrow> string" where
  "fullyQualifiedName6 PbNone = ''''"
| "fullyQualifiedName6 (PbNamed name parent) =
     (let parent_fqn = fullyQualifiedName6 parent
      in if parent_fqn \<noteq> '''' then parent_fqn @ ''.'' @ name else name)"

lemma fullyQualifiedName6_eq [simp]: "fullyQualifiedName6 r = fullyQualifiedName r"
  by (induction r) (simp_all add: Let_def)

section \<open>Services\<close>

record 'cls pb_method =
  pm_name :: string
  pm_requestStream :: bool
  pm_responseStream :: bool
  pm_requestType :: 'cls
  pm_responseType :: 'cls

record 'cls pb_service =
  ps_ref :: pb_ref
  ps_methods :: "'cls pb_method list"

definition method_prefix :: "'cls pb_service \<Rightarrow> string" where
  "method_prefix service = ''/'' @ fullyQualifiedName (ps_ref service) @ ''/''"

text \<open>\<open>_.zipObject\<close> of the camel case names and the attributes. The serializers are made by \<open>ser\<close> and
  \<open>des\<close>, which stand for \<open>serializeCls\<close> and \<open>deserializeCls\<close> with the options.\<close>

definition method_entry :: "string \<Rightarrow> ('cls \<Rightarrow> 's) \<Rightarrow> ('cls \<Rightarrow> 'd) \<Rightarrow> 'cls pb_method \<Rightarrow> ('s, 'd) method_attrs" where
  "method_entry prefix ser des method =
     \<lparr>at_path = prefix @ pm_name method, at_originalName = Some (pm_name method),
      at_requestStream = pm_requestStream method, at_responseStream = pm_responseStream method,
      at_requestSerialize = ser (pm_requestType method), at_responseSerialize = ser (pm_responseType method),
      at_requestDeserialize = des (pm_requestType method), at_responseDeserialize = des (pm_responseType method)\<rparr>"

definition service_attrs ::
  "(string \<Rightarrow> string) \<Rightarrow> ('cls \<Rightarrow> 's) \<Rightarrow> ('cls \<Rightarrow> 'd) \<Rightarrow> 'cls pb_service \<Rightarrow> ('s, 'd) method_attrs obj" where
  "service_attrs camel ser des service =
     (let prefix = method_prefix service in
      fold (\<lambda>method acc. obj_put (camel (pm_name method)) (method_entry prefix ser des method) acc)
        (ps_methods service) [])"

definition getProtobufServiceAttrs5 ::
  "(string \<Rightarrow> string) \<Rightarrow> ('m, 'raw) pb5_class pb_service \<Rightarrow> load_options option \<Rightarrow>
   ('m \<Rightarrow> js_exn + bytes, bytes \<Rightarrow> js_exn + 'm) method_attrs obj" where
  "getProtobufServiceAttrs5 camel service options =
     service_attrs camel serializeCls5 (\<lambda>cls. deserializeCls5 cls options) service"

definition getProtobufServiceAttrs6 ::
  "(string \<Rightarrow> string) \<Rightarrow> ('m, 'raw) pb6_class pb_service \<Rightarrow> load_options \<Rightarrow>
   ('m \<Rightarrow> js_exn + bytes, bytes \<Rightarrow> js_exn + 'm) method_attrs obj" where
  "getProtobufServiceAttrs6 camel service options =
     service_attrs camel serializeCls6 (\<lambda>cls. deserializeCls6 cls options) service"

section \<open>Loading objects\<close>

datatype ('m, 'x) grpc_object =
    GNamespace "(string \<times> ('m, 'x) grpc_object) list"
  | GClient "(('m \<Rightarrow> js_exn + bytes), (bytes \<Rightarrow> js_exn + 'm)) client_method obj"
  | GBuilt 'x
  | GValue 'x
  | GFalsy

text \<open>A protobuf.js 5 object: a builder with a namespace \<open>ns\<close>, a namespace, a service, a message or an enum
  (\<open>build\<close> gives the value), anything else, or a falsy value.\<close>

datatype ('m, 'raw, 'x) pb5_object =
    Pb5Builder "('m, 'raw, 'x) pb5_object"
  | Pb5Namespace "(string \<times> ('m, 'raw, 'x) pb5_object) list"
  | Pb5Service "('m, 'raw) pb5_class pb_service"
  | Pb5Type 'x
  | Pb5Other 'x
  | Pb5Falsy

text \<open>The third argument of \<open>makeClientConstructor\<close> is missing: the options are passed as its second
  (the name of the service).\<close>

fun loadObject5 ::
  "(string \<Rightarrow> string) \<Rightarrow> load_options \<Rightarrow> ('m, 'raw, 'x) pb5_object \<Rightarrow> js_exn + ('m, 'x) grpc_object"
  and loadChildren5 ::
  "(string \<Rightarrow> string) \<Rightarrow> load_options \<Rightarrow> (string \<times> ('m, 'raw, 'x) pb5_object) list \<Rightarrow>
   (string \<times> ('m, 'x) grpc_object) list \<Rightarrow> js_exn + (string \<times> ('m, 'x) grpc_object) list" where
  "loadObject5 camel options Pb5Falsy = Inr GFalsy"
| "loadObject5 camel options (Pb5Builder ns) = loadObject5 camel options ns"
| "loadObject5 camel options (Pb5Namespace children) =
     map_sum id GNamespace (loadChildren5 camel options children [])"
| "loadObject5 camel options (Pb5Service service) =
     map_sum id GClient (makeClientConstructor (getProtobufServiceAttrs5 camel service (Some options)) None)"
| "loadObject5 camel options (Pb5Type x) = Inr (GBuilt x)"
| "loadObject5 camel options (Pb5Other x) = Inr (GValue x)"
| "loadChildren5 camel options [] result = Inr result"
| "loadChildren5 camel options ((name, child) # children) result =
     and_then (loadObject5 camel options child) (\<lambda>v. loadChildren5 camel options children (obj_put name v result))"

text \<open>A protobuf.js 6 object: one with \<open>methods\<close>, one with \<open>nested\<close> objects, anything else, or falsy.\<close>

datatype ('m, 'raw, 'x) pb6_object =
    Pb6Service "('m, 'raw) pb6_class pb_service"
  | Pb6Nested "(string \<times> ('m, 'raw, 'x) pb6_object) list"
  | Pb6Other 'x
  | Pb6Falsy

fun loadObject6 ::
  "(string \<Rightarrow> string) \<Rightarrow> load_options \<Rightarrow> ('m, 'raw, 'x) pb6_object \<Rightarrow> js_exn + ('m, 'x) grpc_object"
  and loadNested6 ::
  "(string \<Rightarrow> string) \<Rightarrow> load_options \<Rightarrow> (string \<times> ('m, 'raw, 'x) pb6_object) list \<Rightarrow>
   (string \<times> ('m, 'x) grpc_object) list \<Rightarrow> js_exn + (string \<times> ('m, 'x) grpc_object) list" where
  "loadObject6 camel options Pb6Falsy = Inr GFalsy"
| "loadObject6 camel options (Pb6Service service) =
     map_sum id GClient (makeClientConstructor (getProtobufServiceAttrs6 camel service options) None)"
| "loadObject6 camel options (Pb6Nested children) =
     map_sum id GNamespace (loadNested6 camel options children [])"
| "loadObject6 camel options (Pb6Other x) = Inr (GValue x)"
| "loadNested6 camel options [] result = Inr result"
| "loadNested6 camel options ((name, child) # children) result =
     and_then (loadObject6 camel options child) (\<lambda>v. loadNested6 camel options children (obj_put name v result))"

text \<open>The properties the version heuristics look at.\<close>

record pb_shape =
  sh_root_is_object :: bool
  sh_resolve_is_function :: bool
  sh_children_is_array :: bool
  sh_build_is_function :: bool

definition isProbablyProtobufJs5 :: "pb_shape \<Rightarrow> bool" where
  "isProbablyProtobufJs5 sh \<longleftrightarrow> sh_children_is_array sh \<and> sh_build_is_function sh"

definition isProbablyProtobufJs6 :: "pb_shape \<Rightarrow> bool" where
  "isProbablyProtobufJs6 sh \<longleftrightarrow> sh_root_is_object sh \<and> sh_resolve_is_function sh"

text \<open>\<open>loadObject\<close> of \<open>index.js\<close>; \<open>load5\<close> and \<open>load6\<close> are the two loaders applied to the value.\<close>

definition index_loadObject ::
  "(load_options \<Rightarrow> js_exn + 'g) \<Rightarrow> (load_options \<Rightarrow> js_exn + 'g) \<Rightarrow> pb_shape \<Rightarrow> load_options option \<Rightarrow> js_exn + 'g" where
  "index_loadObject load5 load6 shape options0 =
     (let options = with_defaults options0 defaultGrpcOptions;
          options = with_defaults (Some options) (no_options\<lparr>lo_protobufjsVersion := Some Detect\<rparr>)
      in and_then
           (if lo_protobufjsVersion options = Some Detect then
              (if isProbablyProtobufJs6 shape then Inr (Version 6)
               else if isProbablyProtobufJs5 shape then Inr (Version 5)
               else Inl (JsError (''Could not detect ProtoBuf.js version. Please '' @
                      ''specify the version number with the \"protobufjs_version\" option'')))
            else Inr (the (lo_protobufjsVersion options)))
           (\<lambda>version.
              if version = Version 6 then load6 options
              else if version = Version 5 then load5 options
              else Inl (JsError ''Unrecognized protobufjsVersion'')))"

text \<open>\<open>load\<close>: the loader of protobuf.js runs with its global flag \<open>convertFieldsToCamelCase\<close> set to the
  option; the result comes with the value the flag has afterwards.\<close>

definition index_load ::
  "(bool \<Rightarrow> string \<Rightarrow> js_exn + 'b) \<Rightarrow> (bool \<Rightarrow> string \<Rightarrow> js_exn + 'b) \<Rightarrow> ('b \<Rightarrow> load_options \<Rightarrow> js_exn + 'g) \<Rightarrow>
   bool \<Rightarrow> string \<Rightarrow> string option \<Rightarrow> load_options option \<Rightarrow> bool \<times> (js_exn + 'g)" where
  "index_load loadProtoFile loadJsonFile loadNs flag filename format0 options0 =
     (let options = (with_defaults options0 defaultGrpcOptions)\<lparr>lo_protobufjsVersion := Some (Version 5)\<rparr>;
          format = (case format0 of Some f \<Rightarrow> if f = '''' then ''proto'' else f | None \<Rightarrow> ''proto'');
          convertFieldsToCamelCaseOriginal = flag;
          flag1 = (case lo_convertFieldsToCamelCase options of Some b \<Rightarrow> b | None \<Rightarrow> flag);
          builder = (if format = ''proto'' then loadProtoFile flag1 filename
                     else if format = ''json'' then loadJsonFile flag1 filename
                     else Inl (JsError (''Unrecognized format \"'' @ format @ ''\"'')))
      in (convertFieldsToCamelCaseOriginal, and_then builder (\<lambda>b. loadNs b options)))"

section \<open>Adding a proto service to a server\<close>

datatype ('m, 'raw) proto_service =
    Proto5 "('m, 'raw) pb5_class pb_service" "load_options option"
  | Proto6 "('m, 'raw) pb6_class pb_service" "load_options option"
  | ProtoAttrs "('m \<Rightarrow> js_exn + bytes, bytes \<Rightarrow> js_exn + 'm) method_attrs obj option"

definition addProtoService ::
  "(string \<Rightarrow> string) \<Rightarrow> int \<Rightarrow> ('m, 'raw) proto_service \<Rightarrow> (string \<Rightarrow> 'h option) option \<Rightarrow>
   ('h, 'm \<Rightarrow> js_exn + bytes, bytes \<Rightarrow> js_exn + 'm) server \<Rightarrow>
   ('h, 'm \<Rightarrow> js_exn + bytes, bytes \<Rightarrow> js_exn + 'm) server \<times>
   ('h, 'm \<Rightarrow> js_exn + bytes, bytes \<Rightarrow> js_exn + 'm, 'call) srv_effect list \<times> js_exn option" where
  "addProtoService camel verbosity service implementation srv =
     (case service of
        Proto5 s grpc_options \<Rightarrow>
          addService verbosity
            (Some (getProtobufServiceAttrs5 camel s (Some (with_defaults grpc_options defaultGrpcOptions)))) implementation srv
      | Proto6 s grpc_options \<Rightarrow>
          addService verbosity
            (Some (getProtobufServiceAttrs6 camel s (with_defaults grpc_options defaultGrpcOptions))) implementation srv
      | ProtoAttrs attrs \<Rightarrow> addService verbosity attrs implementation srv)"

section \<open>Properties\<close>

text \<open>The names from the root to the object; the root of protobuf.js has an empty name.\<close>

fun ref_names :: "pb_ref \<Rightarrow> string list" where
  "ref_names PbNone = []"
| "ref_names (PbNamed name parent) = ref_names parent @ (if name = '''' then [] else [name])"

fun join_dots :: "string list \<Rightarrow> string" where
  "join_dots [] = ''''"
| "join_dots [n] = n"
| "join_dots (n # m # ns) = n @ ''.'' @ join_dots (m # ns)"

fun only_root_unnamed :: "pb_ref \<Rightarrow> bool" where
  "only_root_unnamed PbNone \<longleftrightarrow> True"
| "only_root_unnamed (PbNamed name PbNone) \<longleftrightarrow> True"
| "only_root_unnamed (PbNamed name parent) \<longleftrightarrow> name \<noteq> '''' \<and> only_root_unnamed parent"

lemma join_dots_snoc: "ns \<noteq> [] \<Longrightarrow> join_dots (ns @ [n]) = join_dots ns @ ''.'' @ n"
  by (induction ns rule: join_dots.induct) auto

lemma join_dots_empty: "\<forall>n \<in> set ns. n \<noteq> '''' \<Longrightarrow> join_dots ns = '''' \<longleftrightarrow> ns = []"
  by (cases ns rule: join_dots.cases) auto

lemma ref_names_nonempty: "n \<in> set (ref_names r) \<Longrightarrow> n \<noteq> ''''"
  by (induction r) (auto split: if_splits)

lemma fullyQualifiedName_join: "only_root_unnamed r \<Longrightarrow> fullyQualifiedName r = join_dots (ref_names r)"
proof (induction r rule: only_root_unnamed.induct)
  case (3 name n p)
  let ?parent = "PbNamed n p"
  have ih: "fullyQualifiedName ?parent = join_dots (ref_names ?parent)" and name: "name \<noteq> ''''" using 3 by auto
  have "fullyQualifiedName (PbNamed name ?parent) =
      (if fullyQualifiedName ?parent \<noteq> '''' then fullyQualifiedName ?parent @ ''.'' @ name else name)"
    by (simp only: fullyQualifiedName.simps(2) [of name] Let_def)
  also have "\<dots> = join_dots (ref_names ?parent @ [name])"
  proof (cases "ref_names ?parent = []")
    case True
    then show ?thesis unfolding ih by simp
  next
    case False
    then have "join_dots (ref_names ?parent) \<noteq> ''''"
      using join_dots_empty [of "ref_names ?parent"] ref_names_nonempty by blast
    then show ?thesis unfolding ih join_dots_snoc [OF False] by simp
  qed
  also have "ref_names ?parent @ [name] = ref_names (PbNamed name ?parent)" using name by simp
  finally show ?case .
qed simp_all

lemma service_attrs_fold:
  assumes "distinct (map (camel \<circ> pm_name) ms)" and "\<forall>m \<in> set ms. camel (pm_name m) \<noteq> ''__proto__''" and "m \<in> set ms"
  shows "map_of (fold (\<lambda>m acc. obj_put (camel (pm_name m)) (f m) acc) ms acc) (camel (pm_name m)) = Some (f m)"
  using assms
proof (induction ms arbitrary: acc)
  case (Cons x ms)
  have other: "map_of (fold (\<lambda>m acc. obj_put (camel (pm_name m)) (f m) acc) ms acc') k = map_of acc' k"
    if "k \<notin> (camel \<circ> pm_name) ` set ms" for acc' k
    using that by (induction ms arbitrary: acc') (auto simp: obj_simps)
  show ?case
  proof (cases "m = x")
    case True
    with Cons.prems other [of "camel (pm_name x)"] show ?thesis by (auto simp: obj_simps)
  next
    case False
    with Cons show ?thesis by auto
  qed
qed simp

lemma service_attrs_path:
  assumes "distinct (map (camel \<circ> pm_name) (ps_methods service))"
    and "\<forall>m \<in> set (ps_methods service). camel (pm_name m) \<noteq> ''__proto__''" and "m \<in> set (ps_methods service)"
  shows "\<exists>attrs. map_of (service_attrs camel ser des service) (camel (pm_name m)) = Some attrs \<and>
    at_path attrs = ''/'' @ fullyQualifiedName (ps_ref service) @ ''/'' @ pm_name m \<and>
    at_requestStream attrs = pm_requestStream m \<and> at_responseStream attrs = pm_responseStream m"
  using service_attrs_fold [OF assms, where f = "method_entry (method_prefix service) ser des" and acc = "[]"]
  by (simp add: service_attrs_def method_prefix_def Let_def method_entry_def)

end
