(* ===== verification/Health.thy ===== *)
theory Health
  imports ServerObject
begin

text \<open>
  \<open>grpc-health-check/health.js\<close>: the status map of the health service and the lookup of its \<open>check\<close>
  method; \<open>HealthMessages\<close> has the generated message classes. \<open>_.get\<close> of lodash with the default null
  is the parameter \<open>lodash_get\<close>, from the map and a path to the value there, if any. What is used of it
  is that an own property of the map is found under its name (\<open>gets_own\<close>); other paths may resolve,
  too: \<open>constructor\<close> to a function the map inherits, \<open>constructor.length\<close> to a number.
\<close>

text \<open>The values of message fields and what a path may resolve to: a function is known by its \<open>length\<close>.\<close>

datatype js_val = VString string | VNum int | VFunction nat

type_synonym health_map = "int obj"

type_synonym path_get = "health_map \<Rightarrow> js_val \<Rightarrow> js_val option"

definition health_new :: "health_map \<Rightarrow> health_map" where
  "health_new statusMap = statusMap"

definition setStatus_health :: "string \<Rightarrow> int \<Rightarrow> health_map \<Rightarrow> health_map" where
  "setStatus_health service status m = obj_put service status m"

text \<open>The lookup of \<open>check\<close>: the error given to the callback, or the status of the response.\<close>

definition health_check :: "path_get \<Rightarrow> js_val \<Rightarrow> health_map \<Rightarrow> err_obj + js_val" where
  "health_check lodash_get service m =
     (case lodash_get m service of
        None \<Rightarrow> Inl \<lparr>eo_message = None, eo_code = Some (status_code NOT_FOUND), eo_details = None, eo_metadata = MdAbsent\<rparr>
      | Some status \<Rightarrow> Inr status)"

definition gets_own :: "path_get \<Rightarrow> bool" where
  "gets_own lodash_get \<longleftrightarrow> (\<forall>m service status. map_of m service = Some status \<longrightarrow> lodash_get m (VString service) = Some (VNum status))"

text \<open>The map holds the status last set, and the initial one where none was.\<close>

lemma health_statuses:
  assumes "service \<noteq> ''__proto__''"
  shows "map_of (fold (\<lambda>(s, status). setStatus_health s status) updates (health_new m)) service =
    (case map_of (rev updates) service of Some status \<Rightarrow> Some status | None \<Rightarrow> map_of m service)"
proof (induction updates rule: rev_induct)
  case (snoc u us)
  then show ?case using assms by (cases u) (auto simp: setStatus_health_def obj_simps)
qed (simp add: health_new_def)

end
