(* ===== verification/Endpoints.thy ===== *)
theory Endpoints
  imports CoreClient Protobuf Health
begin

text \<open>
  Compositions: a client and a server made from one service definition, or from one protobuf service;
  the readable call object fed by the call stream.
\<close>

section \<open>One service definition on both ends\<close>

fun handled_as :: "client_kind \<Rightarrow> call_kind" where
  "handled_as ClUnary = Unary"
| "handled_as ClClientStream = ClientStream"
| "handled_as ClServerStream = ServerStream"
| "handled_as ClBidi = Bidi"

lemma handled_as_type: "streamHandlers (method_type attrs) = Some (handled_as (requester_kind attrs))"
  by (simp add: method_type_def requester_kind_def streamHandlers_def)

lemma own_entries_paths:
  assumes "distinct (map fst svc)" and "distinct (map (at_path \<circ> snd) svc)"
  shows "distinct (map (at_path \<circ> snd) (own_entries svc))"
  using assms distinct_own_entries [OF assms(1)] by (simp add: distinct_map)

lemma addService_new:
  fixes impl :: "string \<Rightarrow> 'h option" and svc :: "('s, 'd) method_attrs obj"
  assumes "obj_wf svc" and "svc \<noteq> []" and "distinct (map (at_path \<circ> snd) svc)"
    and "\<forall>e \<in> set svc. at_path (snd e) \<noteq> ''__proto__''"
  shows "\<exists>srv' eff. addService v (Some svc) (Some impl) server_new = (srv', eff :: ('h, 's, 'd, 'call) srv_effect list, None) \<and>
    (\<forall>e \<in> set svc. map_of (srv_handlers srv') (at_path (snd e)) = Some (entry_for impl (fst e) (snd e)))"
proof -
  have d: "distinct (map (at_path \<circ> snd) (own_entries svc))"
    using assms(1,3) by (intro own_entries_paths) (simp_all add: obj_wf_def)
  obtain srv' and eff :: "('h, 's, 'd, 'call) srv_effect list"
    where a: "add_methods v impl (own_entries svc) server_new = (srv', eff, None)"
      "\<forall>e \<in> set svc. map_of (srv_handlers srv') (at_path (snd e)) = Some (entry_for impl (fst e) (snd e))"
    using add_methods_ok [OF d, of server_new v impl] assms(4) by (auto simp: server_new_def has_own_def)
  have "own_entries svc \<noteq> []" using assms(2) by (metis set_empty set_own_entries)
  with a(1) have "addService v (Some svc) (Some impl) server_new = (srv', eff, None)"
    by (simp add: addService_def) (simp add: server_new_def)
  with a(2) show ?thesis by blast
qed

lemma new_call_handled:
  assumes "map_of (srv_handlers srv) path = Some h" and "streamHandlers (hd_type h) = Some kind"
  shows "snd (handleNewCall (Inr (call, Some path, md)) srv) =
    [RequestCall, HandleCall kind call h (nm_fromCoreRepresentation md)]"
  using assms by (simp add: handleNewCall_def request_call_def Let_def)

lemma entry_for_type [simp]: "hd_type (entry_for impl name attrs) = method_type attrs"
  by (simp add: entry_for_def)

lemma both_ends:
  fixes impl :: "string \<Rightarrow> 'h option" and svc :: "('s, 'd) method_attrs obj"
  assumes "obj_wf svc" and "\<forall>k. has_own svc k \<longrightarrow> take 1 k \<noteq> ''$''" and "(name, attrs) \<in> set svc"
    and "distinct (map (at_path \<circ> snd) svc)" and "\<forall>e \<in> set svc. at_path (snd e) \<noteq> ''__proto__''"
  shows "\<exists>proto srv' eff. makeClientConstructor svc None = Inr proto \<and> map_of proto name = Some (client_method_for attrs) \<and>
    addService v (Some svc) (Some impl) server_new = (srv', eff :: ('h, 's, 'd, 'call) srv_effect list, None) \<and>
    snd (handleNewCall (Inr (call, Some (at_path attrs), md)) srv') =
      [RequestCall, HandleCall (handled_as (requester_kind attrs)) call (entry_for impl name attrs)
        (nm_fromCoreRepresentation md)]"
proof -
  from makeClientConstructor_ok [OF assms(1,2), of None] obtain proto where proto: "makeClientConstructor svc None = Inr proto"
    "\<forall>k. map_of proto k = map_option client_method_for (map_of svc k)" by auto
  have "svc \<noteq> []" using assms(3) by auto
  from addService_new [OF assms(1) this assms(4,5), of v impl] obtain srv' and eff :: "('h, 's, 'd, 'call) srv_effect list"
    where s: "addService v (Some svc) (Some impl) server_new = (srv', eff, None)"
      "\<forall>e \<in> set svc. map_of (srv_handlers srv') (at_path (snd e)) = Some (entry_for impl (fst e) (snd e))" by blast
  have "map_of (srv_handlers srv') (at_path attrs) = Some (entry_for impl name attrs)" using s(2) assms(3) by force
  moreover have "map_of proto name = Some (client_method_for attrs)" using proto(2) assms(1,3) by (simp add: obj_wf_def)
  ultimately show ?thesis using proto(1) s(1) new_call_handled by (metis entry_for_type handled_as_type)
qed

section \<open>One protobuf service on both ends\<close>

lemma fold_put_append:
  assumes "distinct (map key ms)" and "\<forall>m \<in> set ms. key m \<noteq> ''__proto__'' \<and> key m \<notin> set (map fst acc)"
  shows "fold (\<lambda>m acc. obj_put (key m) (f m) acc) ms acc = acc @ map (\<lambda>m. (key m, f m)) ms"
  using assms
proof (induction ms arbitrary: acc)
  case (Cons m ms)
  have "AList.update (key m) (f m) al = al @ [(key m, f m)]" if "key m \<notin> set (map fst al)" for al
    using that by (induction al) auto
  with Cons.prems have "obj_put (key m) (f m) acc = acc @ [(key m, f m)]" by (simp add: obj_put_def)
  moreover have "fold (\<lambda>m acc. obj_put (key m) (f m) acc) ms (acc @ [(key m, f m)]) =
      (acc @ [(key m, f m)]) @ map (\<lambda>m. (key m, f m)) ms"
    using Cons.prems by (intro Cons.IH) (force simp: image_iff)+
  ultimately show ?case by simp
qed simp

lemma service_attrs_list:
  assumes "distinct (map (camel \<circ> pm_name) (ps_methods service))"
    and "\<forall>m \<in> set (ps_methods service). camel (pm_name m) \<noteq> ''__proto__''"
  shows "service_attrs camel ser des service =
    map (\<lambda>m. (camel (pm_name m), method_entry (method_prefix service) ser des m)) (ps_methods service)"
  using fold_put_append [where key = "camel \<circ> pm_name" and acc = "[]" and ms = "ps_methods service"] assms
  by (simp add: service_attrs_def Let_def)

definition loadable_service :: "(string \<Rightarrow> string) \<Rightarrow> 'cls pb_service \<Rightarrow> bool" where
  "loadable_service camel service \<longleftrightarrow> distinct (map (camel \<circ> pm_name) (ps_methods service)) \<and>
     (\<forall>m \<in> set (ps_methods service). camel (pm_name m) \<noteq> ''__proto__'' \<and> take 1 (camel (pm_name m)) \<noteq> ''$'')"

lemma service_attrs_good:
  fixes ser :: "'cls \<Rightarrow> 's" and des :: "'cls \<Rightarrow> 'd"
  assumes "loadable_service camel service"
  defines "svc \<equiv> service_attrs camel ser des service"
  shows "obj_wf svc" and "\<forall>k. has_own svc k \<longrightarrow> take 1 k \<noteq> ''$''"
    and "distinct (map (at_path \<circ> snd) svc)" and "\<forall>e \<in> set svc. at_path (snd e) \<noteq> ''__proto__''"
    and "m \<in> set (ps_methods service) \<Longrightarrow>
      (camel (pm_name m), method_entry (method_prefix service) ser des m) \<in> set svc"
proof -
  have svc: "svc = map (\<lambda>m. (camel (pm_name m), method_entry (method_prefix service) ser des m)) (ps_methods service)"
    unfolding svc_def using assms(1) by (intro service_attrs_list) (auto simp: loadable_service_def)
  have d: "distinct (map (camel \<circ> pm_name) (ps_methods service))" using assms(1) by (simp add: loadable_service_def)
  then show "obj_wf svc" using assms(1) by (auto simp: svc obj_wf_def comp_def loadable_service_def)
  show "\<forall>k. has_own svc k \<longrightarrow> take 1 k \<noteq> ''$''"
    using assms(1) by (auto simp: svc has_own_def loadable_service_def dest!: map_of_SomeD)
  from d have "distinct (map pm_name (ps_methods service))"
    by (metis distinct_map map_map)
  then have "distinct (map (\<lambda>m. method_prefix service @ pm_name m) (ps_methods service))"
    by (simp add: distinct_map inj_on_def)
  then show "distinct (map (at_path \<circ> snd) svc)" by (simp add: svc comp_def method_entry_def)
  show "\<forall>e \<in> set svc. at_path (snd e) \<noteq> ''__proto__''"
    by (auto simp: svc method_entry_def method_prefix_def)
  show "m \<in> set (ps_methods service) \<Longrightarrow>
      (camel (pm_name m), method_entry (method_prefix service) ser des m) \<in> set svc"
    by (auto simp: svc)
qed

section \<open>The readable call object over the call stream\<close>

text \<open>The events of the call stream that its effects are.\<close>

fun reader_events :: "'c cs_effect list \<Rightarrow> rs_event list" where
  "reader_events [] = []"
| "reader_events (Push (Some b) # es) = RsData b # reader_events es"
| "reader_events (Push None # es) = RsEnd # reader_events es"
| "reader_events (EmitStatus s # es) = RsStatus s # reader_events es"
| "reader_events (_ # es) = reader_events es"

fun parse_item :: "('p, 'r) core_env \<Rightarrow> bytes option \<Rightarrow> 'r option list" where
  "parse_item env None = [None]"
| "parse_item env (Some b) = (case cv_deserialize env b of Inr m \<Rightarrow> [Some m] | Inl e \<Rightarrow> [])"

lemma reader_events_parsed: "rs_parsed env (reader_events eff) = concat (map (parse_item env) (pushed eff))"
  by (induction eff rule: reader_events.induct) (auto split: sum.split)

lemma parse_serialized:
  assumes "list_all2 (\<lambda>m b. cv_serialize env m = Inr b) ms bs"
    and "\<forall>m \<in> set ms. \<forall>b. cv_serialize env m = Inr b \<longrightarrow> cv_deserialize env b = Inr m"
  shows "concat (map (parse_item env) (map Some bs)) = map Some ms"
  using assms by (induction rule: list_all2_induct) auto

section \<open>Registering a service\<close>

text \<open>Adding a service with distinct unregistered paths to a server that has not started
  succeeds; afterwards every method's path has the entry made from its implementation,
  serializers and streaming kind, and the entries of other paths are unchanged.\<close>

lemma service_methods_are_registered:
  fixes srv :: "('h, 's, 'd) server"
  assumes "own_entries svc \<noteq> []" and "\<not> srv_started srv" and "distinct (map (at_path \<circ> snd) svc)"
    and "\<forall>e \<in> set svc. \<not> has_own (srv_handlers srv) (at_path (snd e)) \<and> at_path (snd e) \<noteq> ''__proto__''"
    and "distinct (map fst svc)"
  shows "\<exists>srv' eff. addService v (Some svc) (Some impl) srv =
      (srv', eff :: ('h, 's, 'd, 'call) srv_effect list, None) \<and>
    (\<forall>e \<in> set svc. map_of (srv_handlers srv') (at_path (snd e)) = Some (entry_for impl (fst e) (snd e))) \<and>
    (\<forall>p. p \<notin> at_path ` snd ` set svc \<longrightarrow> map_of (srv_handlers srv') p = map_of (srv_handlers srv) p)"
proof -
  have "distinct (own_entries svc)" using distinct_own_entries [OF assms(5)] by (simp add: distinct_map)
  moreover have "inj_on (at_path \<circ> snd) (set svc)" using assms(3) by (simp add: distinct_map)
  ultimately have d: "distinct (map (at_path \<circ> snd) (own_entries svc))" by (simp add: distinct_map)
  have "addService v (Some svc) (Some impl) srv =
      (add_methods v impl (own_entries svc) srv :: _ \<times> ('h, 's, 'd, 'call) srv_effect list \<times> _)"
    using assms(1,2) by (simp add: addService_def)
  moreover obtain srv' and eff :: "('h, 's, 'd, 'call) srv_effect list"
    where "add_methods v impl (own_entries svc) srv = (srv', eff, None)"
      "\<forall>e \<in> set svc. map_of (srv_handlers srv') (at_path (snd e)) = Some (entry_for impl (fst e) (snd e))"
      "\<forall>p. p \<notin> at_path ` snd ` set svc \<longrightarrow> map_of (srv_handlers srv') p = map_of (srv_handlers srv) p"
    using add_methods_ok [OF d, of srv v impl, where ?'call = 'call] assms(4) unfolding set_own_entries by blast
  ultimately show ?thesis by (intro exI [of _ srv'] exI [of _ eff]) simp
qed

end
