(* ===== verification/RoundTrips.thy ===== *)
theory RoundTrips
  imports ServerCallFacts ClientCallFacts
begin

text \<open>
  Whole native calls: a client call and a server call joined by the transport of the C++ extension.
  What the transport does is a parameter: \<open>deliver\<close> makes the client's response of the batch in which
  the server sends the status, and the reads of a stream get the messages of the other end in order.
\<close>

section \<open>What crosses the transport\<close>

definition sv_sent :: "('q, 'k) sv_effect list \<Rightarrow> bytes list" where
  "sv_sent eff = map msg_bytes (List.map_filter (\<lambda>(b, t). op_send_message b) (batches eff))"

definition cl_sent :: "('r, 'k) cl_effect list \<Rightarrow> bytes list" where
  "cl_sent eff = map msg_bytes (List.map_filter (\<lambda>(b, t). op_send_message b) (cl_batches eff))"

lemma sv_sent_append [simp]: "sv_sent (xs @ ys) = sv_sent xs @ sv_sent ys"
  by (simp add: sv_sent_def map_filter_def)

lemma cl_sent_append [simp]: "cl_sent (xs @ ys) = cl_sent xs @ cl_sent ys"
  by (simp add: cl_sent_def map_filter_def)

lemmas sent_simps = sv_sent_def cl_sent_def map_filter_def

text \<open>The codec of one direction: what one end serializes the other end reads as \<open>f\<close> of it.\<close>

definition carries :: "('a \<Rightarrow> err_obj + bytes) \<Rightarrow> (bytes option \<Rightarrow> err_obj + 'b) \<Rightarrow> ('a \<Rightarrow> 'b) \<Rightarrow> bool" where
  "carries ser des f \<longleftrightarrow> (\<forall>x b. ser x = Inr b \<longrightarrow> des (Some b) = Inr (f x))"

text \<open>The client receives the code and the details of the status the server sends, and with an OK
  status the message.\<close>

definition faithful_transport :: "(batch \<Rightarrow> cl_response) \<Rightarrow> bool" where
  "faithful_transport deliver \<longleftrightarrow>
     (\<forall>b status. op_send_status b = Some status \<and> 0 \<le> os_code status \<and> os_code status \<le> 16 \<longrightarrow>
        os_code (rs_status (deliver b)) = os_code status \<and>
        os_details (rs_status (deliver b)) = os_details status \<and>
        (os_code status = status_code OK \<longrightarrow> rs_read (deliver b) = map_option msg_bytes (op_send_message b)))"

section \<open>A unary call as a function call\<close>

fun handler_calls :: "('q, 'k) sv_effect list \<Rightarrow> 'q list" where
  "handler_calls [] = []"
| "handler_calls (CallHandler (Some q) # es) = q # handler_calls es"
| "handler_calls (_ # es) = handler_calls es"

fun callbacks :: "('r, 'k) cl_effect list \<Rightarrow> (err_obj + 'r) list" where
  "callbacks [] = []"
| "callbacks (ClCallback r # es) = r # callbacks es"
| "callbacks (_ # es) = callbacks es"

type_synonym ('p, 'q) unary_handler = "'q \<Rightarrow> err_obj option \<times> 'p \<times> metadata option \<times> int option"

definition respond_event :: "err_obj option \<times> 'p \<times> metadata option \<times> int option \<Rightarrow> ('p, 'k) sv_event" where
  "respond_event = (\<lambda>(err, v, trailer, flags). Respond err v trailer flags)"

text \<open>The batches with a status that a unary call on the server sends for a request.\<close>

definition unary_answers :: "('p, 'q) handler_env \<Rightarrow> ('p, 'q) unary_handler \<Rightarrow> bytes option \<Rightarrow> batch list" where
  "unary_answers env handler data =
     (let es = [Start, RequestDone (Inr data)];
          qs = handler_calls (effects (sv_step env) (sc_new Unary :: ('q, unit) server_call) es);
          eff = effects (sv_step env) (sc_new Unary) (es @ map (respond_event \<circ> handler) qs)
      in filter (\<lambda>b. op_send_status b \<noteq> None) (map fst (batches eff)))"

text \<open>What the client of the call does from its start to the arrival of the answer.\<close>

definition unary_exchange ::
  "('a, 'r) client_env \<Rightarrow> ('p, 'q) handler_env \<Rightarrow> (batch \<Rightarrow> cl_response) \<Rightarrow> ('p, 'q) unary_handler \<Rightarrow>
   'a \<Rightarrow> metadata \<Rightarrow> int option \<Rightarrow> ('r, unit) cl_effect list" where
  "unary_exchange cenv senv deliver handler argument md flags =
     (let start = ClStart argument md flags;
          requests = cl_sent (snd (cl_step cenv (cl_new ClUnary :: unit client_call) start));
          answers = concat (map (unary_answers senv handler \<circ> Some) requests)
      in effects (cl_step cenv) (cl_new ClUnary)
           (start # map (\<lambda>b. ClResponseDone None (Some (deliver b))) answers))"

text \<open>The abstract call: the value of the handler, or what the caller sees of an error.\<close>

definition error_seen :: "err_obj \<Rightarrow> int option \<times> string option" where
  "error_seen e = (Some (os_code (handleError_status e)), Some (os_details (handleError_status e)))"

fun outcome :: "err_obj + 'r \<Rightarrow> (int option \<times> string option) + 'r" where
  "outcome (Inl e) = Inl (eo_code e, eo_message e)"
| "outcome (Inr v) = Inr v"

definition answerable :: "err_obj \<Rightarrow> bool" where
  "answerable e \<longleftrightarrow> eo_metadata e \<noteq> MdUndefined \<and> 0 < os_code (handleError_status e) \<and> os_code (handleError_status e) \<le> 16"

definition remote_result ::
  "('p \<Rightarrow> err_obj + bytes) \<Rightarrow> ('p \<Rightarrow> 'r) \<Rightarrow> err_obj option \<times> 'p \<times> metadata option \<times> int option \<Rightarrow>
   (int option \<times> string option) + 'r" where
  "remote_result ser f = (\<lambda>(err, v, trailer, flags).
     case err of
       Some e \<Rightarrow> Inl (error_seen e)
     | None \<Rightarrow> (case ser v of Inl e \<Rightarrow> Inl (error_seen (internal_error e)) | Inr b \<Rightarrow> Inr (f v)))"

lemma handleError_status_trailer [simp]:
  "os_code (handleError_status (e\<lparr>eo_metadata := m\<rparr>)) = os_code (handleError_status e)"
  "os_details (handleError_status (e\<lparr>eo_metadata := m\<rparr>)) = os_details (handleError_status e)"
  by (simp_all add: handleError_status_def case_prod_beta Let_def split: option.split)

text \<open>The answer to a request that deserializes.\<close>

lemma unary_answer:
  fixes env :: "('p, 'q) handler_env"
  assumes "he_deserialize env data = Inr q" and "handler q = (err, v, trailer, flags)"
    and "\<forall>e. err = Some e \<longrightarrow> answerable e" and "\<forall>e. he_serialize env v = Inl e \<longrightarrow> answerable (internal_error e)"
  shows "\<exists>b s. unary_answers env handler data = [b] \<and> op_send_status b = Some s \<and>
    (case (err, he_serialize env v) of
       (Some e, _) \<Rightarrow> (Some (os_code s), Some (os_details s)) = error_seen e \<and> 0 < os_code s \<and> os_code s \<le> 16
     | (None, Inl e) \<Rightarrow> (Some (os_code s), Some (os_details s)) = error_seen (internal_error e) \<and> 0 < os_code s \<and> os_code s \<le> 16
     | (None, Inr m) \<Rightarrow> os_code s = 0 \<and> map_option msg_bytes (op_send_message b) = Some m)"
proof -
  let ?st = "\<lambda>st :: ('q, unit) server_call. sc_metadataSent st = False \<and> sc_kind st = Unary"
  have started: "handler_calls (effects (sv_step env) (sc_new Unary :: ('q, unit) server_call) [Start, RequestDone (Inr data)]) = [q]"
    and quiet: "filter (\<lambda>b. op_send_status b \<noteq> None) (map fst (batches (effects (sv_step env) (sc_new Unary :: ('q, unit) server_call) [Start, RequestDone (Inr data)]))) = []"
    and st: "?st (final (sv_step env) (sc_new Unary) [Start, RequestDone (Inr data)])"
    using assms(1)
    by (simp_all add: sv_step_def sv_start_eq waitForCancel_def sv_request_done_eq sc_new_eq sv_record_def readable_kind_def)
  define st1 where "st1 = final (sv_step env) (sc_new Unary :: ('q, unit) server_call) [Start, RequestDone (Inr data)]"
  have st1: "\<not> sc_metadataSent st1" "sc_kind st1 = Unary" using st unfolding st1_def by auto
  have eq: "unary_answers env handler data =
      filter (\<lambda>b. op_send_status b \<noteq> None) (map fst (batches (snd (sendUnaryData env err v trailer flags st1))))"
    unfolding unary_answers_def Let_def started run_append_snd batches_append map_append filter_append quiet st1_def [symmetric]
    by (simp add: respond_event_def assms(2) sv_step_def case_prod_beta)
  have un: "\<exists>b s. filter (\<lambda>b. op_send_status b \<noteq> None) (map fst (batches (snd (handleError e st1)))) = [b] \<and>
      op_send_status b = Some s \<and> (Some (os_code s), Some (os_details s)) = error_seen e'"
    if "eo_metadata e \<noteq> MdUndefined" "error_seen e = error_seen e'" for e e'
  proof -
    from handleError_alike [OF that(1), of st1] obtain b where "handleError e st1 = (st1, [StartBatch b TagNone])"
      "op_send_status b = Some (handleError_status e)" by blast
    with that(2) show ?thesis by (simp add: error_seen_def)
  qed
  show ?thesis
  proof (cases err)
    case (Some e)
    let ?e = "case trailer of Some m \<Rightarrow> e\<lparr>eo_metadata := MdGiven m\<rparr> | None \<Rightarrow> e"
    have a: "answerable e" using assms(3) Some by simp
    have "eo_metadata ?e \<noteq> MdUndefined" "error_seen ?e = error_seen e"
      using a by (auto simp: answerable_def error_seen_def split: option.split)
    from un [OF this] obtain b s where "unary_answers env handler data = [b]" "op_send_status b = Some s"
      "(Some (os_code s), Some (os_details s)) = error_seen e"
      using st1 unfolding eq by (auto simp: sendUnaryData_eq Some case_prod_beta)
    with a Some show ?thesis by (auto simp: answerable_def error_seen_def)
  next
    case None
    show ?thesis
    proof (cases "he_serialize env v")
      case (Inl e)
      with assms(4) have a: "answerable (internal_error e)" by simp
      then have "eo_metadata (internal_error e) \<noteq> MdUndefined" by (simp add: answerable_def)
      from un [OF this refl] obtain b s where "unary_answers env handler data = [b]" "op_send_status b = Some s"
        "(Some (os_code s), Some (os_details s)) = error_seen (internal_error e)"
        using st1 None Inl unfolding eq by (auto simp: sendUnaryData_eq sendUnaryResponse_def case_prod_beta)
      with a None Inl show ?thesis by (auto simp: answerable_def error_seen_def)
    next
      case (Inr m)
      with None st1 show ?thesis unfolding eq
        by (auto simp: sendUnaryData_eq sendUnaryResponse_def Let_def case_prod_beta)
    qed
  qed
qed

lemma unary_reported:
  assumes "ce_serialize env argument = Inr b"
  shows "map outcome (callbacks (effects (cl_step env) (cl_new ClUnary)
      [ClStart argument md flags, ClResponseDone None (Some r)])) =
    [if os_code (rs_status r) = 0 then
       (case ce_deserialize env (rs_read r) of
          Inr v \<Rightarrow> Inr v
        | Inl e \<Rightarrow> Inl (Some 13, Some ''Failed to parse server response''))
     else Inl (Some (os_code (rs_status r)), Some (os_details (rs_status r)))]"
  using assms
  by (auto simp: cl_step_def cl_start_def makeUnaryRequest_def cl_response_done_def unary_response_done_def cl_new_eq cl_record_def
      status_error_def parse_failure_def Let_def split: sum.split)

lemma unary_exchange_result:
  fixes cenv :: "('a, 'r) client_env" and senv :: "('p, 'q) handler_env"
  assumes transport: "faithful_transport deliver"
    and "carries (ce_serialize cenv) (he_deserialize senv) req" and "carries (he_serialize senv) (ce_deserialize cenv) resp"
    and "\<forall>v e. he_serialize senv v = Inl e \<longrightarrow> answerable (internal_error e)"
    and "\<forall>e. fst (handler (req argument)) = Some e \<longrightarrow> answerable e"
  shows "map outcome (callbacks (unary_exchange cenv senv deliver handler argument md flags)) =
    (case ce_serialize cenv argument of
       Inl e \<Rightarrow> []
     | Inr m \<Rightarrow> [remote_result (he_serialize senv) resp (handler (req argument))])"
proof (cases "ce_serialize cenv argument")
  case (Inl e)
  then show ?thesis
    by (simp add: unary_exchange_def cl_step_def cl_start_def makeUnaryRequest_def cl_new_eq sent_simps)
next
  case (Inr m)
  obtain err v trailer fl where h: "handler (req argument) = (err, v, trailer, fl)" by (metis prod_cases4)
  have "he_deserialize senv (Some m) = Inr (req argument)" using assms(2) Inr by (simp add: carries_def)
  from unary_answer [where handler = handler, OF this h] assms(4,5) h obtain b s
    where b: "unary_answers senv handler (Some m) = [b]" "op_send_status b = Some s" and
      s: "case (err, he_serialize senv v) of
       (Some e, _) \<Rightarrow> (Some (os_code s), Some (os_details s)) = error_seen e \<and> 0 < os_code s \<and> os_code s \<le> 16
     | (None, Inl e) \<Rightarrow> (Some (os_code s), Some (os_details s)) = error_seen (internal_error e) \<and> 0 < os_code s \<and> os_code s \<le> 16
     | (None, Inr m) \<Rightarrow> os_code s = 0 \<and> map_option msg_bytes (op_send_message b) = Some m" by auto
  have range: "0 \<le> os_code s \<and> os_code s \<le> 16" using s by (auto split: option.splits sum.splits)
  have r: "os_code (rs_status (deliver b)) = os_code s" "os_details (rs_status (deliver b)) = os_details s"
    "os_code s = 0 \<longrightarrow> rs_read (deliver b) = map_option msg_bytes (op_send_message b)"
    using transport b(2) range unfolding faithful_transport_def by (simp_all del: split_paired_All)
  have "cl_sent (snd (cl_step cenv (cl_new ClUnary :: unit client_call) (ClStart argument md flags))) = [m]"
    using Inr by (simp add: cl_step_def cl_start_def makeUnaryRequest_def cl_new_eq sent_simps)
  then have "unary_exchange cenv senv deliver handler argument md flags =
      effects (cl_step cenv) (cl_new ClUnary) [ClStart argument md flags, ClResponseDone None (Some (deliver b))]"
    using b(1) by (simp add: unary_exchange_def Let_def)
  then have "map outcome (callbacks (unary_exchange cenv senv deliver handler argument md flags)) =
      [if os_code s = 0 then
         (case ce_deserialize cenv (rs_read (deliver b)) of
            Inr v \<Rightarrow> Inr v
          | Inl e \<Rightarrow> Inl (Some 13, Some ''Failed to parse server response''))
       else Inl (Some (os_code s), Some (os_details s))]"
    by (simp only: unary_reported [OF Inr] r(1,2))
  with r(3) s assms(3) Inr h show ?thesis
    by (auto simp: remote_result_def carries_def error_seen_def split: option.splits sum.splits)
qed

section \<open>Streams\<close>

lemma sc_kind_new [simp]: "sc_kind (sc_new kind) = kind"
  by (simp add: sc_new_eq)

lemma cl_kind_new [simp]: "cl_kind (cl_new kind) = kind"
  by (simp add: cl_new_eq)

text \<open>The bytes of the chunks written to a server call and to a client call.\<close>

fun sv_written :: "('p, 'q) handler_env \<Rightarrow> ('p, 'k) sv_event list \<Rightarrow> ('p \<times> bytes) list" where
  "sv_written env [] = []"
| "sv_written env (Write chunk encoding cb # es) =
     (case he_serialize env chunk of Inr b \<Rightarrow> (chunk, b) # sv_written env es | Inl e \<Rightarrow> sv_written env es)"
| "sv_written env (_ # es) = sv_written env es"

fun cl_written :: "('p, 'r) client_env \<Rightarrow> ('p, 'k) cl_event list \<Rightarrow> ('p \<times> bytes) list" where
  "cl_written env [] = []"
| "cl_written env (ClWrite chunk encoding cb # es) =
     (case ce_serialize env chunk of Inr b \<Rightarrow> (chunk, b) # cl_written env es | Inl e \<Rightarrow> cl_written env es)"
| "cl_written env (_ # es) = cl_written env es"

lemma sv_written_Cons: "sv_written env (e # es) = sv_written env [e] @ sv_written env es"
  by (cases e) (auto split: sum.split)

lemma cl_written_Cons: "cl_written env (e # es) = cl_written env [e] @ cl_written env es"
  by (cases e) (auto split: sum.split)

lemma emit_error_unsent: "sv_sent (snd (emit_error e st)) = []"
  by (simp add: emit_error_def terminateCall_def stream_end_def handleError_def sent_simps Let_def split: option.split)

lemma unsent_effects [simp]:
  "sv_sent (WriteDone cb x # eff) = sv_sent eff" "sv_sent (SvPush d # eff) = sv_sent eff"
  "sv_sent (CallHandler q # eff) = sv_sent eff" "sv_sent (EmitCancelled # eff) = sv_sent eff"
  "sv_sent (DiscardData # eff) = sv_sent eff" "sv_sent (SvUncaught exn # eff) = sv_sent eff"
  "sv_sent (WritableEnd # eff) = sv_sent eff" "sv_sent [] = []"
  "op_send_message b = None \<Longrightarrow> sv_sent (StartBatch b t # eff) = sv_sent eff"
  by (simp_all add: sent_simps)

lemma sv_step_sent:
  assumes "writable_kind (sc_kind st)" and "sv_legal st e"
  shows "sv_sent (snd (sv_step env st e)) = map snd (sv_written env [e])"
proof -
  have h: "snd (sv_step env st e) = snd (sv_handle env st e)" by (simp add: sv_step_def Let_def split: prod.split)
  show ?thesis unfolding h
  proof (cases e)
    case (Write chunk encoding cb)
    then show "sv_sent (snd (sv_handle env st e)) = map snd (sv_written env [e])"
      by (cases "he_serialize env chunk") (simp_all add: sv_write_def sent_simps Let_def)
  next
    case (Respond err v trailer flags)
    with assms show "sv_sent (snd (sv_handle env st e)) = map snd (sv_written env [e])" by (simp add: sv_legal_def)
  qed (auto simp: sv_start_eq waitForCancel_def sv_cancel_done_def terminate_def sv_request_done_eq sv_readCallback_def
      sv_write_done_def sv_sendMetadata_def stream_end_def sendStatus_def sv_read_def Let_def emit_error_unsent
      case_prod_beta split: sum.split option.split)
qed

lemma sv_step_kind:
  assumes "sv_inv st" and "sv_legal_open st e"
  shows "sc_kind (fst (sv_step env st e)) = sc_kind st"
proof -
  obtain st' eff where h: "sv_handle env st e = (st', eff)" by force
  from sv_handle_ok [OF assms h] h show ?thesis
    by (simp add: sv_step_def sv_record_def handles_def follows_def)
qed

lemma server_stream_sent:
  "\<lbrakk>sv_inv st; writable_kind (sc_kind st); legal_run (sv_step env) sv_legal st es\<rbrakk> \<Longrightarrow>
   sv_sent (effects (sv_step env) st es) = map snd (sv_written env es)"
proof (induction es arbitrary: st)
  case (Cons e es)
  have l: "sv_legal_open st e" "sv_legal st e" using Cons.prems by (auto simp: sv_legal_open_def)
  have "sv_inv (fst (sv_step env st e))" using sv_step_ok [OF Cons.prems(1) l(1)] by (metis prod.collapse)
  with Cons.IH Cons.prems sv_step_kind [OF Cons.prems(1) l(1)]
  have "sv_sent (effects (sv_step env) (fst (sv_step env st e)) es) = map snd (sv_written env es)" by simp
  with sv_step_sent [OF Cons.prems(2) l(2)] show ?case by (simp add: sv_written_Cons [of env e es])
qed simp

lemma carried_messages:
  "carries (he_serialize env) des f \<Longrightarrow> (c, b) \<in> set (sv_written env es) \<Longrightarrow> des (Some b) = Inr (f c)"
  by (induction env es rule: sv_written.induct) (auto simp: carries_def split: sum.splits)

lemma carried_requests:
  "carries (ce_serialize env) des f \<Longrightarrow> (c, b) \<in> set (cl_written env es) \<Longrightarrow> des (Some b) = Inr (f c)"
  by (induction env es rule: cl_written.induct) (auto simp: carries_def split: sum.splits)

text \<open>The messages the reads of a client bring.\<close>

fun cl_reads_of :: "('p, 'k) cl_event list \<Rightarrow> bytes list" where
  "cl_reads_of [] = []"
| "cl_reads_of (ClReadDone (Inr (Some b)) # es) = b # cl_reads_of es"
| "cl_reads_of (_ # es) = cl_reads_of es"

lemma parsed_reads:
  "list_all2 (\<lambda>b m. ce_deserialize env (Some b) = Inr m) (cl_reads_of es) ms \<Longrightarrow> parsed_messages env es = ms"
  by (induction es arbitrary: ms rule: cl_reads_of.induct) (auto simp: list_all2_Cons1)

text \<open>The writes of a client whose batches succeed.\<close>

lemma unsent_cl_effects [simp]:
  "cl_sent (ClPush d # eff) = cl_sent eff" "cl_sent (ClEmitMetadata m # eff) = cl_sent eff"
  "cl_sent (ClEmitStatus s # eff) = cl_sent eff" "cl_sent (ClEmitError x # eff) = cl_sent eff"
  "cl_sent (ClCallback r # eff) = cl_sent eff" "cl_sent (ClThrow x # eff) = cl_sent eff"
  "cl_sent (ClCancelWithStatus c txt # eff) = cl_sent eff" "cl_sent (ClCancel # eff) = cl_sent eff"
  "cl_sent (ClWriteDone cb y # eff) = cl_sent eff" "cl_sent (ClWriteSkipped cb # eff) = cl_sent eff"
  "cl_sent [] = []" "op_send_message b = None \<Longrightarrow> cl_sent (ClBatch b t # eff) = cl_sent eff"
  by (simp_all add: sent_simps)

lemma emitStatusIfDone_unsent: "cl_sent (snd (emitStatusIfDone st)) = []"
  by (simp add: emitStatusIfDone_def Let_def split: option.split)

lemma readsDone_unsent: "cl_sent (snd (readsDone s st)) = []"
  by (simp add: readsDone_def Let_def case_prod_beta emitStatusIfDone_unsent)

lemma emitStatusIfDone_frame [simp]:
  "cl_writeFailed (fst (emitStatusIfDone st)) = cl_writeFailed st" "cl_kind (fst (emitStatusIfDone st)) = cl_kind st"
  by (simp_all add: emitStatusIfDone_def Let_def split: option.split)

lemma readsDone_frame [simp]:
  "cl_writeFailed (fst (readsDone s st)) = cl_writeFailed st" "cl_kind (fst (readsDone s st)) = cl_kind st"
  by (simp_all add: readsDone_def Let_def case_prod_beta)

lemmas cl_handlers = cl_start_def makeUnaryRequest_def makeClientStreamRequest_def makeServerStreamRequest_def
  makeBidiStreamRequest_def cl_metadata_done_def cl_response_done_def unary_response_done_def stream_response_done_def
  cl_status_done_def receiveStatus_def cl_readCallback_def cl_write_done_def cl_write_def cl_finish_def cl_read_def

lemma cl_step_kind: "cl_kind (fst (cl_step env st e)) = cl_kind st"
  by (cases e) (auto simp: cl_step_def case_prod_beta cl_handlers Let_def split: sum.split option.split client_kind.split)

lemma cl_step_failed: "cl_writeFailed st \<Longrightarrow> cl_writeFailed (fst (cl_step env st e))"
  by (cases e) (auto simp: cl_step_def cl_record_def case_prod_beta cl_handlers Let_def split: sum.split option.split client_kind.split)

lemma cl_run_failed: "cl_writeFailed st \<Longrightarrow> cl_writeFailed (final (cl_step env) st es)"
  by (induction es arbitrary: st) (simp_all add: cl_step_failed)

lemma cl_step_sent:
  assumes "cl_writes (cl_kind st)" and "\<not> cl_writeFailed st"
  shows "cl_sent (snd (cl_step env st e)) = map snd (cl_written env [e])"
proof -
  have h: "snd (cl_step env st e) = snd (cl_handle env st e)" by (simp add: cl_step_def Let_def split: prod.split)
  show ?thesis unfolding h
  proof (cases e)
    case (ClWrite chunk encoding cb)
    with assms(2) show "cl_sent (snd (cl_handle env st e)) = map snd (cl_written env [e])"
      by (cases "ce_serialize env chunk") (simp_all add: cl_write_def sent_simps)
  next
    case (ClStart argument md flags)
    with assms(1) show "cl_sent (snd (cl_handle env st e)) = map snd (cl_written env [e])"
      by (auto simp: cl_handlers cl_writes_def Let_def)
  qed (auto simp: cl_handlers Let_def emitStatusIfDone_unsent readsDone_unsent split: sum.split option.split)
qed

lemma client_stream_sent:
  "\<lbrakk>cl_writes (cl_kind st); \<not> cl_writeFailed (final (cl_step env) st es)\<rbrakk> \<Longrightarrow>
   cl_sent (effects (cl_step env) st es) = map snd (cl_written env es)"
proof (induction es arbitrary: st)
  case (Cons e es)
  have "\<not> cl_writeFailed st" "\<not> cl_writeFailed (final (cl_step env) (fst (cl_step env st e)) es)"
    using Cons.prems(2) cl_run_failed [of st env "e # es"] by auto
  with Cons cl_step_sent [of st env e] show ?case by (simp add: cl_step_kind cl_written_Cons [of env e es])
qed simp

end
