(* ===== verification/HealthMessages.thy ===== *)
theory HealthMessages
  imports Health RoundTrips
begin

text \<open>
  \<open>grpc-health-check/v1/health_pb.js\<close> and \<open>health_grpc_pb.js\<close>: the request and response messages of
  the health service, their binary form, and the service definition. The runtime library
  \<open>google-protobuf\<close> is the parameter \<open>J\<close>: the messages are the type \<open>'m\<close>, the writers \<open>'w\<close> and the
  readers \<open>'r\<close>, an operation that throws returns the error. \<open>jspb_consumes\<close> and \<open>jspb_laws\<close> state
  what the code relies on: reading advances, and what was written is read back field by field.
\<close>

section \<open>The runtime library\<close>

record ('m, 'w, 'r) jspb =
  js_initialize :: "js_val list option \<Rightarrow> 'm"
  js_getFieldProto3 :: "'m \<Rightarrow> nat \<Rightarrow> js_val \<Rightarrow> js_val"
  js_setField :: "'m \<Rightarrow> nat \<Rightarrow> js_val \<Rightarrow> 'm"
  js_cloneMessage :: "'m \<Rightarrow> 'm"
  js_writer :: "'w"
  js_writeString :: "nat \<Rightarrow> js_val \<Rightarrow> 'w \<Rightarrow> err_obj + 'w"
  js_writeEnum :: "nat \<Rightarrow> js_val \<Rightarrow> 'w \<Rightarrow> err_obj + 'w"
  js_getResultBuffer :: "'w \<Rightarrow> bytes"
  js_reader :: "bytes \<Rightarrow> 'r"
  js_nextField :: "'r \<Rightarrow> err_obj + bool \<times> 'r"
  js_isEndGroup :: "'r \<Rightarrow> bool"
  js_getFieldNumber :: "'r \<Rightarrow> nat"
  js_readString :: "'r \<Rightarrow> err_obj + js_val \<times> 'r"
  js_readEnum :: "'r \<Rightarrow> err_obj + js_val \<times> 'r"
  js_skipField :: "'r \<Rightarrow> err_obj + 'r"

text \<open>Both messages read their fields in the same loop; \<open>field1\<close> is the code of its \<open>case 1\<close>. The loop
  does not return if the reader never reports the end.\<close>

partial_function (option) read_fields ::
  "('m, 'w, 'r) jspb \<Rightarrow> ('m \<Rightarrow> 'r \<Rightarrow> err_obj + 'm \<times> 'r) \<Rightarrow> 'm \<Rightarrow> 'r \<Rightarrow> (err_obj + 'm) option" where
  "read_fields J field1 msg reader =
     (case js_nextField J reader of
        Inl e \<Rightarrow> Some (Inl e)
      | Inr (found, reader1) \<Rightarrow>
          if \<not> found then Some (Inr msg)
          else if js_isEndGroup J reader1 then Some (Inr msg)
          else if js_getFieldNumber J reader1 = 1 then
            (case field1 msg reader1 of
               Inl e \<Rightarrow> Some (Inl e)
             | Inr (msg', reader2) \<Rightarrow> read_fields J field1 msg' reader2)
          else
            (case js_skipField J reader1 of
               Inl e \<Rightarrow> Some (Inl e)
             | Inr reader2 \<Rightarrow> read_fields J field1 msg reader2))"

section \<open>The request\<close>

definition HealthCheckRequest :: "('m, 'w, 'r) jspb \<Rightarrow> js_val list option \<Rightarrow> 'm" where
  "HealthCheckRequest J opt_data = js_initialize J opt_data"

definition getService :: "('m, 'w, 'r) jspb \<Rightarrow> 'm \<Rightarrow> js_val" where
  "getService J msg = js_getFieldProto3 J msg 1 (VString '''')"

definition setService :: "('m, 'w, 'r) jspb \<Rightarrow> js_val \<Rightarrow> 'm \<Rightarrow> 'm" where
  "setService J value msg = js_setField J msg 1 value"

text \<open>The plain object has the field, and the message itself if it is asked for.\<close>

definition request_toObject :: "('m, 'w, 'r) jspb \<Rightarrow> bool \<Rightarrow> 'm \<Rightarrow> js_val obj \<times> 'm option" where
  "request_toObject J includeInstance msg =
     ([(''service'', getService J msg)], if includeInstance then Some msg else None)"

definition request_cloneMessage :: "('m, 'w, 'r) jspb \<Rightarrow> 'm \<Rightarrow> 'm" where
  "request_cloneMessage J msg = js_cloneMessage J msg"

definition request_field1 :: "('m, 'w, 'r) jspb \<Rightarrow> 'm \<Rightarrow> 'r \<Rightarrow> err_obj + 'm \<times> 'r" where
  "request_field1 J msg reader =
     (case js_readString J reader of
        Inl e \<Rightarrow> Inl e
      | Inr (value, reader1) \<Rightarrow> Inr (setService J value msg, reader1))"

definition request_deserializeBinaryFromReader ::
  "('m, 'w, 'r) jspb \<Rightarrow> 'm \<Rightarrow> 'r \<Rightarrow> (err_obj + 'm) option" where
  "request_deserializeBinaryFromReader J msg reader = read_fields J (request_field1 J) msg reader"

definition request_deserializeBinary :: "('m, 'w, 'r) jspb \<Rightarrow> bytes \<Rightarrow> (err_obj + 'm) option" where
  "request_deserializeBinary J bytes =
     (let reader = js_reader J bytes; msg = HealthCheckRequest J None
      in request_deserializeBinaryFromReader J msg reader)"

text \<open>\<open>f.length > 0\<close>; a number has no length, a function has one.\<close>

fun has_length :: "js_val \<Rightarrow> bool" where
  "has_length (VString s) \<longleftrightarrow> s \<noteq> ''''"
| "has_length (VNum n) \<longleftrightarrow> False"
| "has_length (VFunction n) \<longleftrightarrow> 0 < n"

definition request_serializeBinaryToWriter :: "('m, 'w, 'r) jspb \<Rightarrow> 'm \<Rightarrow> 'w \<Rightarrow> err_obj + 'w" where
  "request_serializeBinaryToWriter J message writer =
     (let f = getService J message in
      if has_length f then js_writeString J 1 f writer else Inr writer)"

text \<open>The class has a static method of the same name.\<close>

definition request_static_serializeBinaryToWriter :: "('m, 'w, 'r) jspb \<Rightarrow> 'm \<Rightarrow> 'w \<Rightarrow> err_obj + 'w" where
  "request_static_serializeBinaryToWriter J message writer = request_serializeBinaryToWriter J message writer"

definition request_serializeBinary :: "('m, 'w, 'r) jspb \<Rightarrow> 'm \<Rightarrow> err_obj + bytes" where
  "request_serializeBinary J message =
     map_sum id (js_getResultBuffer J) (request_serializeBinaryToWriter J message (js_writer J))"

section \<open>The response\<close>

definition HealthCheckResponse :: "('m, 'w, 'r) jspb \<Rightarrow> js_val list option \<Rightarrow> 'm" where
  "HealthCheckResponse J opt_data = js_initialize J opt_data"

definition getStatus :: "('m, 'w, 'r) jspb \<Rightarrow> 'm \<Rightarrow> js_val" where
  "getStatus J msg = js_getFieldProto3 J msg 1 (VNum 0)"

definition setStatus_response :: "('m, 'w, 'r) jspb \<Rightarrow> js_val \<Rightarrow> 'm \<Rightarrow> 'm" where
  "setStatus_response J value msg = js_setField J msg 1 value"

definition response_toObject :: "('m, 'w, 'r) jspb \<Rightarrow> bool \<Rightarrow> 'm \<Rightarrow> js_val obj \<times> 'm option" where
  "response_toObject J includeInstance msg =
     ([(''status'', getStatus J msg)], if includeInstance then Some msg else None)"

definition response_cloneMessage :: "('m, 'w, 'r) jspb \<Rightarrow> 'm \<Rightarrow> 'm" where
  "response_cloneMessage J msg = js_cloneMessage J msg"

definition response_field1 :: "('m, 'w, 'r) jspb \<Rightarrow> 'm \<Rightarrow> 'r \<Rightarrow> err_obj + 'm \<times> 'r" where
  "response_field1 J msg reader =
     (case js_readEnum J reader of
        Inl e \<Rightarrow> Inl e
      | Inr (value, reader1) \<Rightarrow> Inr (setStatus_response J value msg, reader1))"

definition response_deserializeBinaryFromReader ::
  "('m, 'w, 'r) jspb \<Rightarrow> 'm \<Rightarrow> 'r \<Rightarrow> (err_obj + 'm) option" where
  "response_deserializeBinaryFromReader J msg reader = read_fields J (response_field1 J) msg reader"

definition response_deserializeBinary :: "('m, 'w, 'r) jspb \<Rightarrow> bytes \<Rightarrow> (err_obj + 'm) option" where
  "response_deserializeBinary J bytes =
     (let reader = js_reader J bytes; msg = HealthCheckResponse J None
      in response_deserializeBinaryFromReader J msg reader)"

definition response_serializeBinaryToWriter :: "('m, 'w, 'r) jspb \<Rightarrow> 'm \<Rightarrow> 'w \<Rightarrow> err_obj + 'w" where
  "response_serializeBinaryToWriter J message writer =
     (let f = getStatus J message in
      if f \<noteq> VNum 0 then js_writeEnum J 1 f writer else Inr writer)"

definition response_static_serializeBinaryToWriter :: "('m, 'w, 'r) jspb \<Rightarrow> 'm \<Rightarrow> 'w \<Rightarrow> err_obj + 'w" where
  "response_static_serializeBinaryToWriter J message writer = response_serializeBinaryToWriter J message writer"

definition response_serializeBinary :: "('m, 'w, 'r) jspb \<Rightarrow> 'm \<Rightarrow> err_obj + bytes" where
  "response_serializeBinary J message =
     map_sum id (js_getResultBuffer J) (response_serializeBinaryToWriter J message (js_writer J))"

datatype ServingStatus = STATUS_UNKNOWN | SERVING | NOT_SERVING

fun serving_status :: "ServingStatus \<Rightarrow> int" where
  "serving_status STATUS_UNKNOWN = 0"
| "serving_status SERVING = 1"
| "serving_status NOT_SERVING = 2"

section \<open>The service\<close>

text \<open>An argument of a serializer is an instance of one of the classes, or of neither.\<close>

datatype 'm health_arg = RequestMessage 'm | ResponseMessage 'm | OtherArgument

definition serialize_HealthCheckRequest :: "('m, 'w, 'r) jspb \<Rightarrow> 'm health_arg \<Rightarrow> err_obj + bytes" where
  "serialize_HealthCheckRequest J arg =
     (case arg of
        RequestMessage m \<Rightarrow> request_serializeBinary J m
      | _ \<Rightarrow> Inl (plain_error ''Expected argument of type HealthCheckRequest''))"

text \<open>\<open>new Uint8Array(null)\<close> is empty.\<close>

definition deserialize_HealthCheckRequest :: "('m, 'w, 'r) jspb \<Rightarrow> bytes option \<Rightarrow> (err_obj + 'm) option" where
  "deserialize_HealthCheckRequest J buffer_arg =
     request_deserializeBinary J (case buffer_arg of Some b \<Rightarrow> b | None \<Rightarrow> [])"

definition serialize_HealthCheckResponse :: "('m, 'w, 'r) jspb \<Rightarrow> 'm health_arg \<Rightarrow> err_obj + bytes" where
  "serialize_HealthCheckResponse J arg =
     (case arg of
        ResponseMessage m \<Rightarrow> response_serializeBinary J m
      | _ \<Rightarrow> Inl (plain_error ''Expected argument of type HealthCheckResponse''))"

definition deserialize_HealthCheckResponse :: "('m, 'w, 'r) jspb \<Rightarrow> bytes option \<Rightarrow> (err_obj + 'm) option" where
  "deserialize_HealthCheckResponse J buffer_arg =
     response_deserializeBinary J (case buffer_arg of Some b \<Rightarrow> b | None \<Rightarrow> [])"

definition HealthService ::
  "('m, 'w, 'r) jspb \<Rightarrow>
   ('m health_arg \<Rightarrow> err_obj + bytes, bytes option \<Rightarrow> (err_obj + 'm) option) method_attrs obj" where
  "HealthService J =
     [(''check'',
       \<lparr>at_path = ''/grpc.health.v1.Health/Check'', at_originalName = None,
        at_requestStream = False, at_responseStream = False,
        at_requestSerialize = serialize_HealthCheckRequest J,
        at_responseSerialize = serialize_HealthCheckResponse J,
        at_requestDeserialize = deserialize_HealthCheckRequest J,
        at_responseDeserialize = deserialize_HealthCheckResponse J\<rparr>)]"

text \<open>\<open>check\<close> of \<open>health.js\<close> on messages.\<close>

definition health_check_message ::
  "('m, 'w, 'r) jspb \<Rightarrow> path_get \<Rightarrow> health_map \<Rightarrow> 'm \<Rightarrow> err_obj + 'm" where
  "health_check_message J lodash_get statusMap request =
     (case health_check lodash_get (getService J request) statusMap of
        Inl e \<Rightarrow> Inl e
      | Inr status \<Rightarrow> Inr (setStatus_response J status (HealthCheckResponse J None)))"

text \<open>The arguments of the callback, as the handler of the unary call.\<close>

definition health_handler ::
  "('m, 'w, 'r) jspb \<Rightarrow> path_get \<Rightarrow> health_map \<Rightarrow> ('m health_arg, 'm) unary_handler" where
  "health_handler J lodash_get statusMap request =
     (case health_check_message J lodash_get statusMap request of
        Inl e \<Rightarrow> (Some e, OtherArgument, None, None)
      | Inr response \<Rightarrow> (None, ResponseMessage response, None, None))"

section \<open>What the code relies on\<close>

text \<open>A reader advances: \<open>left\<close> bounds what is left to read.\<close>

definition jspb_consumes :: "('m, 'w, 'r) jspb \<Rightarrow> ('r \<Rightarrow> nat) \<Rightarrow> bool" where
  "jspb_consumes J left \<longleftrightarrow>
     (\<forall>r r'. js_nextField J r = Inr (True, r') \<longrightarrow> left r' < left r) \<and>
     (\<forall>r v r'. js_readString J r = Inr (v, r') \<longrightarrow> left r' \<le> left r) \<and>
     (\<forall>r v r'. js_readEnum J r = Inr (v, r') \<longrightarrow> left r' \<le> left r) \<and>
     (\<forall>r r'. js_skipField J r = Inr r' \<longrightarrow> left r' \<le> left r)"

text \<open>\<open>written\<close> are the fields written to a writer and \<open>unread\<close> those a reader has not come to,
  if its bytes are such fields. The laws are about the one field the messages have, number 1: set, it
  is got back, and the default otherwise; strings and 32-bit enums can be written, nothing but a string
  or number is, and errors are plain.\<close>

definition field_laws :: "('m, 'w, 'r) jspb \<Rightarrow> bool" where
  "field_laws J \<longleftrightarrow>
     (\<forall>m v d. js_getFieldProto3 J (js_setField J m 1 v) 1 d = v) \<and>
     (\<forall>d. js_getFieldProto3 J (js_initialize J None) 1 d = d)"

definition write_laws :: "('m, 'w, 'r) jspb \<Rightarrow> ('w \<Rightarrow> (nat \<times> js_val) list) \<Rightarrow> bool" where
  "write_laws J written \<longleftrightarrow>
     written (js_writer J) = [] \<and>
     (\<forall>s w. \<exists>w'. js_writeString J 1 (VString s) w = Inr w' \<and> written w' = written w @ [(1, VString s)]) \<and>
     (\<forall>v w w'. js_writeString J 1 v w = Inr w' \<longrightarrow> (\<exists>s. v = VString s)) \<and>
     (\<forall>i w. - (2 ^ 31) \<le> i \<and> i < 2 ^ 31 \<longrightarrow>
        (\<exists>w'. js_writeEnum J 1 (VNum i) w = Inr w' \<and> written w' = written w @ [(1, VNum i)])) \<and>
     (\<forall>v w w'. js_writeEnum J 1 v w = Inr w' \<longrightarrow> (\<exists>i. v = VNum i) \<and> written w' = written w @ [(1, v)]) \<and>
     (\<forall>v w e. js_writeEnum J 1 v w = Inl e \<longrightarrow> (\<exists>msg. e = plain_error msg))"

definition read_laws ::
  "('m, 'w, 'r) jspb \<Rightarrow> ('w \<Rightarrow> (nat \<times> js_val) list) \<Rightarrow> ('r \<Rightarrow> (nat \<times> js_val) list option) \<Rightarrow> bool" where
  "read_laws J written unread \<longleftrightarrow>
     (\<forall>w. unread (js_reader J (js_getResultBuffer J w)) = Some (written w)) \<and>
     (\<forall>r. unread r = Some [] \<longrightarrow> (\<exists>r'. js_nextField J r = Inr (False, r'))) \<and>
     (\<forall>r n v fs. unread r = Some ((n, v) # fs) \<longrightarrow>
        (\<exists>r'. js_nextField J r = Inr (True, r') \<and> \<not> js_isEndGroup J r' \<and> js_getFieldNumber J r' = n \<and>
           (case v of
              VString s \<Rightarrow> \<exists>r2. js_readString J r' = Inr (v, r2) \<and> unread r2 = Some fs
            | VNum i \<Rightarrow> \<exists>r2. js_readEnum J r' = Inr (v, r2) \<and> unread r2 = Some fs
            | VFunction i \<Rightarrow> True) \<and>
           (\<exists>r2. js_skipField J r' = Inr r2 \<and> unread r2 = Some fs)))"

definition jspb_laws ::
  "('m, 'w, 'r) jspb \<Rightarrow> ('w \<Rightarrow> (nat \<times> js_val) list) \<Rightarrow> ('r \<Rightarrow> (nat \<times> js_val) list option) \<Rightarrow> bool" where
  "jspb_laws J written unread \<longleftrightarrow> field_laws J \<and> write_laws J written \<and> read_laws J written unread"

end
