(* ===== verification/HealthFacts.thy ===== *)
theory HealthFacts
  imports HealthMessages Endpoints
begin

text \<open>
  The messages of the health service return from every deserialization, keep their field through the
  binary form, and carry a check from a client through a server to the status map and back.
\<close>

section \<open>Reading returns\<close>

lemma read_fields_returns:
  assumes "jspb_consumes J left"
    and "\<And>m r m' r'. field1 m r = Inr (m', r') \<Longrightarrow> left r' \<le> left r"
  shows "\<exists>res. read_fields J field1 msg reader = Some res"
proof (induction "left reader" arbitrary: msg reader rule: less_induct)
  case less
  show ?case
  proof (cases "js_nextField J reader")
    case (Inl e)
    then show ?thesis by (simp add: read_fields.simps [of J field1 msg reader])
  next
    case (Inr a)
    obtain found r1 where a: "a = (found, r1)" by force
    have less1: "found \<Longrightarrow> left r1 < left reader"
      using assms(1) Inr a by (cases found) (auto simp: jspb_consumes_def)
    have "\<exists>res. read_fields J field1 m r = Some res" if "left r \<le> left r1" "found" for m r
      using less1 that by (intro less.hyps) simp
    moreover have "js_skipField J r1 = Inr r2 \<Longrightarrow> left r2 \<le> left r1" for r2
      using assms(1) by (simp add: jspb_consumes_def)
    ultimately show ?thesis
      using assms(2) Inr a
      by (subst read_fields.simps) (auto split: sum.split)
  qed
qed

lemma request_field1_left: "jspb_consumes J left \<Longrightarrow> request_field1 J m r = Inr (m', r') \<Longrightarrow> left r' \<le> left r"
  by (auto simp: request_field1_def jspb_consumes_def split: sum.splits)

lemma response_field1_left: "jspb_consumes J left \<Longrightarrow> response_field1 J m r = Inr (m', r') \<Longrightarrow> left r' \<le> left r"
  by (auto simp: response_field1_def jspb_consumes_def split: sum.splits)

section \<open>Fields are read back\<close>

text \<open>Of several fields with the number 1 the last one counts; others are skipped.\<close>

definition read_field :: "('m, 'w, 'r) jspb \<Rightarrow> nat \<times> js_val \<Rightarrow> 'm \<Rightarrow> 'm" where
  "read_field J f msg = (if fst f = 1 then js_setField J msg 1 (snd f) else msg)"

lemma read_fields_all:
  assumes "read_laws J written unread" and "unread reader = Some fs" and "\<forall>i. (1, VFunction i) \<notin> set fs"
    and "\<And>m r v r'. js_isEndGroup J r = False \<Longrightarrow> (1, v) \<in> set fs \<Longrightarrow>
      (case v of VString s \<Rightarrow> js_readString J r = Inr (v, r') | VNum i \<Rightarrow> js_readEnum J r = Inr (v, r') | VFunction i \<Rightarrow> False) \<Longrightarrow>
      field1 m r = Inr (js_setField J m 1 v, r')"
  shows "read_fields J field1 msg reader = Some (Inr (fold (read_field J) fs msg))"
  using assms(2-4)
proof (induction fs arbitrary: reader msg)
  case Nil
  then obtain r' where "js_nextField J reader = Inr (False, r')" using assms(1) by (auto simp: read_laws_def)
  then show ?case by (simp add: read_fields.simps [of J field1 msg reader])
next
  case (Cons f fs)
  obtain n v where f: "f = (n, v)" by force
  from assms(1) Cons.prems(1) f obtain r' r2 r3 where
    next': "js_nextField J reader = Inr (True, r')" "\<not> js_isEndGroup J r'" "js_getFieldNumber J r' = n" and
    r2: "case v of VString s \<Rightarrow> js_readString J r' = Inr (v, r2) | VNum i \<Rightarrow> js_readEnum J r' = Inr (v, r2) | VFunction i \<Rightarrow> True"
      "unread r2 = Some fs" and
    r3: "js_skipField J r' = Inr r3" "unread r3 = Some fs"
    unfolding read_laws_def by (cases v) fastforce+
  have ih: "read_fields J field1 m r = Some (Inr (fold (read_field J) fs m))" if "unread r = Some fs" for m r
    using that Cons.prems(2,3) by (intro Cons.IH) auto
  show ?case
  proof (cases "n = 1")
    case True
    have "field1 msg r' = Inr (js_setField J msg 1 v, r2)"
      using Cons.prems(2) Cons.prems(3) [of r' v r2 msg] f True next'(2) r2(1) by (cases v) auto
    with True next' f ih [OF r2(2)] show ?thesis
      by (subst read_fields.simps) (simp add: read_field_def)
  next
    case False
    with next' f ih [OF r3(2)] r3(1) show ?thesis
      by (subst read_fields.simps) (simp add: read_field_def)
  qed
qed

text \<open>A message of this file has one field or none.\<close>

lemma request_read:
  assumes "jspb_laws J written unread" and "unread reader = Some fs" and "\<forall>v. (1, v) \<in> set fs \<longrightarrow> (\<exists>s. v = VString s)"
  shows "request_deserializeBinaryFromReader J msg reader = Some (Inr (fold (read_field J) fs msg))"
  unfolding request_deserializeBinaryFromReader_def
  using assms by (intro read_fields_all [where written = written and unread = unread])
    (auto simp: jspb_laws_def request_field1_def setService_def)

lemma response_read:
  assumes "jspb_laws J written unread" and "unread reader = Some fs" and "\<forall>v. (1, v) \<in> set fs \<longrightarrow> (\<exists>i. v = VNum i)"
  shows "response_deserializeBinaryFromReader J msg reader = Some (Inr (fold (read_field J) fs msg))"
  unfolding response_deserializeBinaryFromReader_def
  using assms by (intro read_fields_all [where written = written and unread = unread])
    (auto simp: jspb_laws_def response_field1_def setStatus_response_def)

definition same_service :: "('m, 'w, 'r) jspb \<Rightarrow> 'm \<Rightarrow> 'm" where
  "same_service J m =
     (if has_length (getService J m) then setService J (getService J m) (HealthCheckRequest J None)
      else HealthCheckRequest J None)"

definition same_status :: "('m, 'w, 'r) jspb \<Rightarrow> 'm \<Rightarrow> 'm" where
  "same_status J m =
     (if getStatus J m \<noteq> VNum 0 then setStatus_response J (getStatus J m) (HealthCheckResponse J None)
      else HealthCheckResponse J None)"

lemma string_written:
  "write_laws J written \<Longrightarrow> \<exists>w'. js_writeString J 1 (VString s) w = Inr w' \<and> written w' = written w @ [(1, VString s)]"
  unfolding write_laws_def by blast

lemma request_carried:
  assumes "jspb_laws J written unread" and "request_serializeBinary J m = Inr b"
  shows "request_deserializeBinary J b = Some (Inr (same_service J m))"
proof -
  let ?s = "getService J m"
  from assms(2) obtain w where w: "request_serializeBinaryToWriter J m (js_writer J) = Inr w" "b = js_getResultBuffer J w"
    by (auto simp: request_serializeBinary_def map_sum_def split: sum.splits)
  have wl: "write_laws J written" and rl: "read_laws J written unread" using assms(1) by (simp_all add: jspb_laws_def)
  have new: "written (js_writer J) = []" using wl by (simp add: write_laws_def)
  have str: "has_length ?s \<Longrightarrow> js_writeString J 1 ?s (js_writer J) = Inr w \<and> (\<exists>s. ?s = VString s)"
    using w(1) wl unfolding request_serializeBinaryToWriter_def write_laws_def by (simp add: Let_def) blast
  have "written w = (if has_length ?s then [(1, ?s)] else [])"
  proof (cases "has_length ?s")
    case True
    with str obtain s where ws: "js_writeString J 1 ?s (js_writer J) = Inr w" and s: "?s = VString s" by blast
    from string_written [OF wl, of s "js_writer J"] ws s new True show ?thesis by auto
  next
    case False
    with w(1) new show ?thesis by (simp add: request_serializeBinaryToWriter_def)
  qed
  moreover have "unread (js_reader J b) = Some (written w)" using rl w(2) by (simp add: read_laws_def)
  ultimately have u: "unread (js_reader J b) = Some (if has_length ?s then [(1, ?s)] else [])" by simp
  have "\<forall>v. (1, v) \<in> set (if has_length ?s then [(1, ?s)] else []) \<longrightarrow> (\<exists>s. v = VString s)" using str by auto
  from request_read [OF assms(1) u this] show ?thesis
    by (simp add: request_deserializeBinary_def same_service_def read_field_def setService_def)
qed

lemma response_carried:
  assumes "jspb_laws J written unread" and "response_serializeBinary J m = Inr b"
  shows "response_deserializeBinary J b = Some (Inr (same_status J m))"
proof -
  let ?s = "getStatus J m"
  from assms(2) obtain w where w: "response_serializeBinaryToWriter J m (js_writer J) = Inr w" "b = js_getResultBuffer J w"
    by (auto simp: response_serializeBinary_def map_sum_def split: sum.splits)
  have wl: "write_laws J written" and rl: "read_laws J written unread" using assms(1) by (simp_all add: jspb_laws_def)
  have "written w = (if ?s \<noteq> VNum 0 then [(1, ?s)] else []) \<and> (?s \<noteq> VNum 0 \<longrightarrow> (\<exists>i. ?s = VNum i))"
    using w(1) wl unfolding response_serializeBinaryToWriter_def write_laws_def
    by (auto simp: Let_def split: if_splits)
  moreover have "unread (js_reader J b) = Some (written w)" using rl w(2) by (simp add: read_laws_def)
  ultimately have u: "unread (js_reader J b) = Some (if ?s \<noteq> VNum 0 then [(1, ?s)] else [])"
    and i: "\<forall>v. (1, v) \<in> set (if ?s \<noteq> VNum 0 then [(1, ?s)] else []) \<longrightarrow> (\<exists>i. v = VNum i)" by auto
  from response_read [OF assms(1) u i] show ?thesis
    by (simp add: response_deserializeBinary_def same_status_def read_field_def setStatus_response_def)
qed

lemma same_service_get:
  "field_laws J \<Longrightarrow> getService J m = VString s \<Longrightarrow> getService J (same_service J m) = VString s"
  by (simp add: same_service_def getService_def setService_def HealthCheckRequest_def field_laws_def)

lemma same_status_get: "field_laws J \<Longrightarrow> getStatus J (same_status J m) = getStatus J m"
  by (simp add: same_status_def getStatus_def setStatus_response_def HealthCheckResponse_def field_laws_def)

lemma request_serializes:
  "jspb_laws J written unread \<Longrightarrow> getService J m = VString s \<Longrightarrow> \<exists>b. request_serializeBinary J m = Inr b"
  using string_written [of J written s "js_writer J"]
  by (auto simp: request_serializeBinary_def request_serializeBinaryToWriter_def jspb_laws_def)

lemma response_serializes:
  "jspb_laws J written unread \<Longrightarrow> getStatus J m = VNum i \<Longrightarrow> - (2 ^ 31) \<le> i \<Longrightarrow> i < 2 ^ 31 \<Longrightarrow>
   \<exists>b. response_serializeBinary J m = Inr b"
  unfolding response_serializeBinary_def response_serializeBinaryToWriter_def jspb_laws_def write_laws_def Let_def
  by (auto, metis map_sum.simps(2))

section \<open>A check, end to end\<close>

fun request_of :: "('m, 'w, 'r) jspb \<Rightarrow> 'm health_arg \<Rightarrow> 'm" where
  "request_of J (RequestMessage m) = same_service J m"
| "request_of J (ResponseMessage m) = m"
| "request_of J OtherArgument = HealthCheckRequest J None"

fun response_of :: "('m, 'w, 'r) jspb \<Rightarrow> 'm health_arg \<Rightarrow> 'm" where
  "response_of J (RequestMessage m) = m"
| "response_of J (ResponseMessage m) = same_status J m"
| "response_of J OtherArgument = HealthCheckResponse J None"

lemma requests_carried:
  "jspb_laws J written unread \<Longrightarrow> \<forall>b. deserialize_HealthCheckRequest J b = Some (des b) \<Longrightarrow>
   carries (serialize_HealthCheckRequest J) des (request_of J)"
  unfolding carries_def serialize_HealthCheckRequest_def
  by (auto split: health_arg.split)
    (metis deserialize_HealthCheckRequest_def option.inject option.simps(5) request_carried)

lemma responses_carried:
  "jspb_laws J written unread \<Longrightarrow> \<forall>b. deserialize_HealthCheckResponse J b = Some (des b) \<Longrightarrow>
   carries (serialize_HealthCheckResponse J) des (response_of J)"
  unfolding carries_def serialize_HealthCheckResponse_def
  by (auto split: health_arg.split)
    (metis deserialize_HealthCheckResponse_def option.inject option.simps(5) response_carried)

lemma response_errors_plain:
  "jspb_laws J written unread \<Longrightarrow> serialize_HealthCheckResponse J v = Inl e \<Longrightarrow> answerable (internal_error e)"
proof -
  assume l: "jspb_laws J written unread" and e: "serialize_HealthCheckResponse J v = Inl e"
  have "\<exists>msg. e = plain_error msg"
  proof (cases v)
    case (ResponseMessage m)
    with e l show ?thesis
      by (auto simp: serialize_HealthCheckResponse_def response_serializeBinary_def response_serializeBinaryToWriter_def
          jspb_laws_def write_laws_def map_sum_def Let_def split: sum.splits if_splits)
  qed (use e in \<open>auto simp: serialize_HealthCheckResponse_def\<close>)
  then show ?thesis by (auto simp: answerable_def internal_error_def handleError_status_def)
qed

lemma health_handler_answerable: "fst (health_handler J lodash_get m q) = Some e \<Longrightarrow> answerable e"
  by (auto simp: health_handler_def health_check_message_def health_check_def answerable_def handleError_status_def
      split: option.splits)

definition is_int32 :: "int \<Rightarrow> bool" where
  "is_int32 i \<longleftrightarrow> - (2 ^ 31) \<le> i \<and> i < 2 ^ 31"

text \<open>The answer to a check, as the caller sees it.\<close>

definition health_view :: "('m, 'w, 'r) jspb \<Rightarrow> err_obj + 'm \<Rightarrow> (int option \<times> string option) + js_val" where
  "health_view J r = map_sum id (getStatus J) (outcome r)"

lemma health_exchange:
  fixes J :: "('m, 'w, 'r) jspb" and lodash_get :: path_get and md :: metadata and flags :: "int option"
    and statusMap service cpush spush
  assumes laws: "jspb_laws J written unread" and "faithful_transport deliver"
    and "\<forall>b. deserialize_HealthCheckRequest J b = Some (dreq b)"
    and "\<forall>b. deserialize_HealthCheckResponse J b = Some (dresp b)"
  defines "view \<equiv> map (health_view J) (callbacks (unary_exchange
      \<lparr>ce_serialize = serialize_HealthCheckRequest J, ce_deserialize = dresp, ce_push = cpush\<rparr>
      \<lparr>he_serialize = serialize_HealthCheckResponse J, he_deserialize = dreq, he_push = spush\<rparr>
      deliver (health_handler J lodash_get statusMap)
      (RequestMessage (setService J (VString service) (HealthCheckRequest J None))) md flags))"
  shows "lodash_get statusMap (VString service) = None \<Longrightarrow> view = [Inl (Some 5, Some ''Unknown Error'')]"
    and "\<lbrakk>lodash_get statusMap (VString service) = Some (VNum status); is_int32 status\<rbrakk> \<Longrightarrow> view = [Inr (VNum status)]"
proof -
  let ?m = "setService J (VString service) (HealthCheckRequest J None)"
  let ?cenv = "\<lparr>ce_serialize = serialize_HealthCheckRequest J, ce_deserialize = dresp, ce_push = cpush\<rparr>"
  let ?senv = "\<lparr>he_serialize = serialize_HealthCheckResponse J, he_deserialize = dreq, he_push = spush\<rparr>"
  let ?h = "health_handler J lodash_get statusMap"
  have fl: "field_laws J" using laws by (simp add: jspb_laws_def)
  then have gs: "getService J ?m = VString service" by (simp add: field_laws_def getService_def setService_def)
  from request_serializes [OF laws gs] obtain b where b: "request_serializeBinary J ?m = Inr b" by blast
  have q: "carries (ce_serialize ?cenv) (he_deserialize ?senv) (request_of J)"
    using requests_carried [OF laws assms(3)] by simp
  have r: "carries (he_serialize ?senv) (ce_deserialize ?cenv) (response_of J)"
    using responses_carried [OF laws assms(4)] by simp
  have e: "\<forall>v e. he_serialize ?senv v = Inl e \<longrightarrow> answerable (internal_error e)"
    using response_errors_plain [OF laws] by simp
  have a: "\<forall>e. fst (?h (request_of J (RequestMessage ?m))) = Some e \<longrightarrow> answerable e"
    by (auto intro: health_handler_answerable)
  have "map outcome (callbacks (unary_exchange ?cenv ?senv deliver ?h (RequestMessage ?m) md flags)) =
      [remote_result (serialize_HealthCheckResponse J) (response_of J) (?h (same_service J ?m))]"
    using unary_exchange_result [where handler = ?h, OF assms(2) q r e a] b
    by (simp add: serialize_HealthCheckRequest_def)
  then have view: "view = [map_sum id (getStatus J) (remote_result (serialize_HealthCheckResponse J) (response_of J) (?h (same_service J ?m)))]"
    unfolding view_def by (metis (no_types, lifting) health_view_def list.map_comp list.simps(8,9) map_eq_conv o_apply)
  note seen = same_service_get [OF fl gs]
  show "view = [Inl (Some 5, Some ''Unknown Error'')]" if "lodash_get statusMap (VString service) = None"
    using that seen
    by (simp add: view health_handler_def health_check_message_def health_check_def remote_result_def error_seen_def handleError_status_def)
  show "view = [Inr (VNum status)]" if get: "lodash_get statusMap (VString service) = Some (VNum status)" and "is_int32 status"
  proof -
    let ?r = "setStatus_response J (VNum status) (HealthCheckResponse J None)"
    have st: "getStatus J ?r = VNum status" using fl by (simp add: field_laws_def getStatus_def setStatus_response_def)
    from response_serializes [OF laws st] \<open>is_int32 status\<close> obtain c where "response_serializeBinary J ?r = Inr c"
      by (auto simp: is_int32_def)
    with get st same_status_get [OF fl, of ?r] seen show ?thesis
      by (simp add: view health_handler_def health_check_message_def health_check_def remote_result_def serialize_HealthCheckResponse_def)
  qed
qed

section \<open>The status map\<close>

lemma deserializers_return:
  assumes "jspb_consumes J left"
  shows "deserialize_HealthCheckRequest J b = Some (the (deserialize_HealthCheckRequest J b))"
    and "deserialize_HealthCheckResponse J b = Some (the (deserialize_HealthCheckResponse J b))"
proof -
  have r: "read_fields J (request_field1 J) msg r \<noteq> None" "read_fields J (response_field1 J) msg r \<noteq> None" for msg r
    using read_fields_returns [OF assms request_field1_left [OF assms]]
      read_fields_returns [OF assms response_field1_left [OF assms]] by auto
  then show "deserialize_HealthCheckRequest J b = Some (the (deserialize_HealthCheckRequest J b))"
    by (simp add: deserialize_HealthCheckRequest_def request_deserializeBinary_def request_deserializeBinaryFromReader_def)
  from r show "deserialize_HealthCheckResponse J b = Some (the (deserialize_HealthCheckResponse J b))"
    by (simp add: deserialize_HealthCheckResponse_def response_deserializeBinary_def response_deserializeBinaryFromReader_def)
qed

lemma checked_status:
  fixes J :: "('m, 'w, 'r) jspb" and lodash_get :: path_get and md :: metadata and flags :: "int option"
    and service updates m cpush spush
  assumes "jspb_laws J written unread" and "jspb_consumes J left" and "faithful_transport deliver"
    and "gets_own lodash_get" and "service \<noteq> ''__proto__''"
    and "\<forall>status \<in> snd ` set updates \<union> ran (map_of m). is_int32 status"
  defines "statusMap \<equiv> fold (\<lambda>(s, status). setStatus_health s status) updates (health_new m)"
  defines "view \<equiv> map (health_view J) (callbacks (unary_exchange
      \<lparr>ce_serialize = serialize_HealthCheckRequest J, ce_deserialize = \<lambda>b. the (deserialize_HealthCheckResponse J b), ce_push = cpush\<rparr>
      \<lparr>he_serialize = serialize_HealthCheckResponse J, he_deserialize = \<lambda>b. the (deserialize_HealthCheckRequest J b), he_push = spush\<rparr>
      deliver (health_handler J lodash_get statusMap)
      (RequestMessage (setService J (VString service) (HealthCheckRequest J None))) md flags))"
  shows "case (case map_of (rev updates) service of Some status \<Rightarrow> Some status | None \<Rightarrow> map_of m service) of
      Some status \<Rightarrow> view = [Inr (VNum status)]
    | None \<Rightarrow> lodash_get statusMap (VString service) = None \<longrightarrow> view = [Inl (Some 5, Some ''Unknown Error'')]"
proof -
  let ?found = "case map_of (rev updates) service of Some status \<Rightarrow> Some status | None \<Rightarrow> map_of m service"
  have found: "map_of statusMap service = ?found"
    unfolding statusMap_def by (rule health_statuses [OF assms(5)])
  have q: "\<forall>b. deserialize_HealthCheckRequest J b = Some (the (deserialize_HealthCheckRequest J b))"
    and r: "\<forall>b. deserialize_HealthCheckResponse J b = Some (the (deserialize_HealthCheckResponse J b))"
    using deserializers_return [OF assms(2)] by blast+
  note exchange = health_exchange [where lodash_get = lodash_get and service = service and statusMap = statusMap and
      dreq = "\<lambda>b. the (deserialize_HealthCheckRequest J b)" and
      dresp = "\<lambda>b. the (deserialize_HealthCheckResponse J b)" and
      cpush = cpush and spush = spush and md = md and flags = flags, OF assms(1,3) q r, folded view_def]
  show ?thesis
  proof (cases ?found)
    case None
    with exchange(1) show ?thesis by simp
  next
    case (Some status)
    have "is_int32 status"
      using Some assms(6) by (force simp: ran_def split: option.splits dest: map_of_SomeD)
    moreover have "lodash_get statusMap (VString service) = Some (VNum status)"
      using assms(4) found Some by (simp add: gets_own_def)
    ultimately show ?thesis using exchange(2) Some by simp
  qed
qed

end
