(* ===== verification/WireFormat.thy ===== *)
theory WireFormat
  imports HealthFacts
begin

text \<open>
  An instance of the runtime library of the health messages, with protobuf's varints,
  length-delimited strings and varint enums; it satisfies \<open>jspb_laws\<close> and \<open>jspb_consumes\<close>, so the
  properties that assume them are not empty.
\<close>

section \<open>Varints and fields\<close>

function varint :: "nat \<Rightarrow> bytes" where
  "varint n = (if n < 128 then [of_nat n] else of_nat (n mod 128 + 128) # varint (n div 128))"
  by pat_completeness auto
termination by (relation "measure id") auto

declare varint.simps [simp del]

fun read_varint :: "bytes \<Rightarrow> (nat \<times> bytes) option" where
  "read_varint [] = None"
| "read_varint (b # bs) =
     (if unat b < 128 then Some (unat b, bs)
      else map_option (\<lambda>(n, rest). (unat b - 128 + 128 * n, rest)) (read_varint bs))"

lemma unat_small: "n < 256 \<Longrightarrow> unat (of_nat n :: byte) = n"
  by (simp add: unat_of_nat take_bit_nat_def)

lemma read_varint_append: "read_varint (varint n @ bs) = Some (n, bs)"
proof (induction n rule: varint.induct)
  case (1 n)
  show ?case
  proof (cases "n < 128")
    case True
    then show ?thesis by (simp add: varint.simps [of n] unat_small)
  next
    case False
    have "unat (of_nat (n mod 128 + 128) :: byte) = n mod 128 + 128" by (rule unat_small) simp
    with False 1 show ?thesis
      by (simp add: varint.simps [of n] del: of_nat_add)
  qed
qed

lemma read_varint_shorter: "read_varint bs = Some (n, rest) \<Longrightarrow> length rest < length bs"
  by (induction bs arbitrary: n) (auto split: if_splits intro: less_SucI)

fun wire_field :: "nat \<times> js_val \<Rightarrow> bytes" where
  "wire_field (n, VString s) = varint (8 * n + 2) @ varint (length s) @ map (\<lambda>c. of_nat (of_char c)) s"
| "wire_field (n, VNum i) = varint (8 * n) @ varint (nat (i mod 2 ^ 64))"
| "wire_field (n, VFunction i) = []"

definition signed64 :: "nat \<Rightarrow> int" where
  "signed64 n = (if n < 2 ^ 63 then int n else int n - 2 ^ 64)"

function read_wire :: "bytes \<Rightarrow> (nat \<times> js_val) list option" where
  "read_wire bs =
     (if bs = [] then Some []
      else
        (case read_varint bs of
           None \<Rightarrow> None
         | Some (tag, bs1) \<Rightarrow>
             (case read_varint bs1 of
                None \<Rightarrow> None
              | Some (n, bs2) \<Rightarrow>
                  if tag mod 8 = 0 then map_option (Cons (tag div 8, VNum (signed64 n))) (read_wire bs2)
                  else if tag mod 8 = 2 \<and> n \<le> length bs2
                  then map_option (Cons (tag div 8, VString (map (\<lambda>b. char_of (unat b)) (take n bs2)))) (read_wire (drop n bs2))
                  else None)))"
  by pat_completeness auto
termination
  by (relation "measure length") (auto dest!: read_varint_shorter)

declare read_wire.simps [simp del]

definition wire_ok :: "nat \<times> js_val \<Rightarrow> bool" where
  "wire_ok f \<longleftrightarrow> (case snd f of VString s \<Rightarrow> True | VNum i \<Rightarrow> is_int32 i | VFunction i \<Rightarrow> False)"

lemma signed64_mod: "is_int32 i \<Longrightarrow> signed64 (nat (i mod 2 ^ 64)) = i"
proof (cases "0 \<le> i")
  case False
  assume i: "is_int32 i"
  with False have "i mod 2 ^ 64 = (i + 2 ^ 64) mod 2 ^ 64" by simp
  also have "\<dots> = i + 2 ^ 64" using False i by (intro mod_pos_pos_trivial) (auto simp: is_int32_def)
  finally show ?thesis using i False by (simp add: signed64_def is_int32_def)
qed (auto simp: signed64_def is_int32_def)

lemma read_wire_field:
  assumes "wire_ok f"
  shows "read_wire (wire_field f @ bs) = map_option (Cons f) (read_wire bs)"
proof -
  have ne: "varint n \<noteq> []" for n by (simp add: varint.simps [of n])
  show ?thesis
  proof (cases f rule: wire_field.cases)
    case (1 n s)
    have "char_of (unat (of_nat (of_char c) :: byte)) = c" for c :: char
      using range_nat_of_char by (subst unat_small) (auto simp: set_eq_iff)
    then have "map ((\<lambda>b. char_of (unat b)) \<circ> (\<lambda>c. of_nat (of_char c) :: byte)) s = s" by (intro map_idI) simp
    moreover have "Suc (Suc (8 * n)) mod 8 = 2" "Suc (Suc (8 * n)) div 8 = n" by presburger+
    ultimately show ?thesis using 1
      by (subst read_wire.simps) (simp add: ne read_varint_append)
  next
    case (2 n i)
    with assms have "signed64 (nat (i mod 2 ^ 64)) = i" by (intro signed64_mod) (simp add: wire_ok_def)
    with 2 show ?thesis
      by (subst read_wire.simps) (simp add: ne read_varint_append)
  next
    case (3 n i)
    with assms show ?thesis by (simp add: wire_ok_def)
  qed
qed

lemma read_wire_fields: "list_all wire_ok fs \<Longrightarrow> read_wire (concat (map wire_field fs)) = Some fs"
proof (induction fs)
  case (Cons f fs)
  then show ?case by (simp add: read_wire_field)
qed (simp add: read_wire.simps [of "[]"])

section \<open>The library\<close>

text \<open>A message maps field numbers to values; a writer is the list of its fields; a reader holds the
  current field and the others, or has failed to decode (\<open>None\<close>).\<close>

type_synonym wire_reader = "((nat \<times> js_val) option \<times> (nat \<times> js_val) list) option"

fun wire_next :: "wire_reader \<Rightarrow> err_obj + bool \<times> wire_reader" where
  "wire_next None = Inl (plain_error ''Invalid data'')"
| "wire_next (Some (cur, [])) = Inr (False, Some (None, []))"
| "wire_next (Some (cur, f # fs)) = Inr (True, Some (Some f, fs))"

fun wire_value :: "wire_reader \<Rightarrow> err_obj + js_val \<times> wire_reader" where
  "wire_value (Some (Some f, fs)) = Inr (snd f, Some (None, fs))"
| "wire_value _ = Inl (plain_error ''No field'')"

fun wire_number :: "wire_reader \<Rightarrow> nat" where
  "wire_number (Some (Some f, fs)) = fst f"
| "wire_number _ = 0"

fun wire_writeEnum :: "nat \<Rightarrow> js_val \<Rightarrow> (nat \<times> js_val) list \<Rightarrow> err_obj + (nat \<times> js_val) list" where
  "wire_writeEnum n (VNum i) w =
     (if is_int32 i then Inr (w @ [(n, VNum i)]) else Inl (plain_error ''Assertion failed''))"
| "wire_writeEnum n v w = Inl (plain_error ''Assertion failed'')"

fun wire_writeString :: "nat \<Rightarrow> js_val \<Rightarrow> (nat \<times> js_val) list \<Rightarrow> err_obj + (nat \<times> js_val) list" where
  "wire_writeString n (VString s) w = Inr (w @ [(n, VString s)])"
| "wire_writeString n v w = Inl (plain_error ''charCodeAt is not a function'')"

definition wire_written :: "(nat \<times> js_val) list \<Rightarrow> (nat \<times> js_val) list" where
  "wire_written w = filter wire_ok w"

definition wire_unread :: "wire_reader \<Rightarrow> (nat \<times> js_val) list option" where
  "wire_unread r = map_option snd r"

definition wire_left :: "wire_reader \<Rightarrow> nat" where
  "wire_left r = (case r of None \<Rightarrow> 0 | Some (cur, fs) \<Rightarrow> length fs)"

definition wire_jspb :: "(nat \<rightharpoonup> js_val, (nat \<times> js_val) list, wire_reader) jspb" where
  "wire_jspb =
     \<lparr>js_initialize = (\<lambda>data n. case data of None \<Rightarrow> None
        | Some vs \<Rightarrow> (if 0 < n \<and> n \<le> length vs then Some (vs ! (n - 1)) else None)),
      js_getFieldProto3 = (\<lambda>m n d. case m n of Some v \<Rightarrow> v | None \<Rightarrow> d),
      js_setField = (\<lambda>m n v. m(n \<mapsto> v)), js_cloneMessage = (\<lambda>m. m),
      js_writer = [], js_writeString = wire_writeString, js_writeEnum = wire_writeEnum,
      js_getResultBuffer = (\<lambda>w. concat (map wire_field (wire_written w))),
      js_reader = (\<lambda>b. map_option (Pair None) (read_wire b)), js_nextField = wire_next,
      js_isEndGroup = (\<lambda>r. False), js_getFieldNumber = wire_number,
      js_readString = wire_value, js_readEnum = wire_value,
      js_skipField = (\<lambda>r. map_sum id snd (wire_value r))\<rparr>"

lemma wire_consumes: "jspb_consumes wire_jspb wire_left"
proof -
  have "wire_next r = Inr (True, r') \<Longrightarrow> wire_left r' < wire_left r" for r r'
    by (cases r rule: wire_next.cases) (auto simp: wire_left_def)
  moreover have "wire_value r = Inr (v, r') \<Longrightarrow> wire_left r' \<le> wire_left r" for r v r'
    by (cases r rule: wire_value.cases) (auto simp: wire_left_def)
  ultimately show ?thesis
    by (auto simp: jspb_consumes_def wire_jspb_def map_sum_def split: sum.splits)
qed

lemma wire_writeEnum_Inr: "wire_writeEnum n v w = Inr w' \<longleftrightarrow> (\<exists>i. v = VNum i \<and> is_int32 i \<and> w' = w @ [(n, v)])"
  by (cases v) auto

lemma wire_writeEnum_Inl: "wire_writeEnum n v w = Inl e \<Longrightarrow> e = plain_error ''Assertion failed''"
  by (cases v) (auto split: if_splits)

lemma wire_write_laws: "write_laws wire_jspb wire_written"
proof -
  have a: "js_writeEnum wire_jspb = wire_writeEnum" "js_writeString wire_jspb = wire_writeString"
    "js_writer wire_jspb = []" by (simp_all add: wire_jspb_def)
  have b: "wire_ok (n, VString s)" "wire_ok (n, VNum i) = is_int32 i" for n s i by (auto simp: wire_ok_def)
  have c: "wire_writeString n v w = Inr w' \<Longrightarrow> \<exists>s. v = VString s" for n v w w' by (cases v) auto
  show ?thesis unfolding write_laws_def a
    by (auto simp: wire_written_def b is_int32_def wire_writeEnum_Inr dest!: wire_writeEnum_Inl c)
qed

lemma wire_read_laws: "read_laws wire_jspb wire_written wire_unread"
proof -
  have "read_wire (concat (map wire_field (wire_written w))) = Some (wire_written w)" for w
    by (rule read_wire_fields) (simp add: wire_written_def list_all_iff)
  then have a: "wire_unread (js_reader wire_jspb (js_getResultBuffer wire_jspb w)) = Some (wire_written w)" for w
    by (simp add: wire_jspb_def wire_unread_def)
  have b: "\<exists>r'. js_nextField wire_jspb r = Inr (False, r')" if "wire_unread r = Some []" for r
    using that by (cases r) (auto simp: wire_unread_def wire_jspb_def)
  have c: "\<exists>cur. r = Some (cur, (n, v) # fs)" if "wire_unread r = Some ((n, v) # fs)" for r n v fs
    using that by (cases r) (auto simp: wire_unread_def)
  have d: "\<exists>r'. js_nextField wire_jspb r = Inr (True, r') \<and> \<not> js_isEndGroup wire_jspb r' \<and>
      js_getFieldNumber wire_jspb r' = n \<and>
      (case v of VString s \<Rightarrow> \<exists>r2. js_readString wire_jspb r' = Inr (v, r2) \<and> wire_unread r2 = Some fs
       | VNum i \<Rightarrow> \<exists>r2. js_readEnum wire_jspb r' = Inr (v, r2) \<and> wire_unread r2 = Some fs
       | VFunction i \<Rightarrow> True) \<and>
      (\<exists>r2. js_skipField wire_jspb r' = Inr r2 \<and> wire_unread r2 = Some fs)"
    if "wire_unread r = Some ((n, v) # fs)" for r n v fs
    using c [OF that] by (cases v) (auto simp: wire_jspb_def wire_unread_def)
  show ?thesis unfolding read_laws_def using a b d by blast
qed

lemma wire_laws: "jspb_laws wire_jspb wire_written wire_unread"
  using wire_write_laws wire_read_laws
  by (simp add: jspb_laws_def field_laws_def) (simp add: wire_jspb_def)

end
