(* ===== verification/ChannelCalls.thy ===== *)
theory ChannelCalls
  imports Channel CallStreamSend
begin

text \<open>
  A channel of grpc-js-core together with the call streams it has created: the callbacks it gets are
  those of \<open>startHttp2Stream\<close>, a request it makes attaches the call, and its failures cancel it. Every
  call stream has a legal run of its own, in which it is attached at most once; what \<open>CallStream\<close>
  assumes of attaching is what the channel does.
\<close>

section \<open>The system\<close>

text \<open>The callbacks a channel gets from \<open>createStream\<close>: of the call with a number, and of the deadline
  filter of a call. Users have callbacks of their own.\<close>

datatype 'u channel_callback = StreamCallback nat | FilterCallback nat | UserCallback 'u

record ('c, 'o) created_call =
  cc_method :: string
  cc_options :: "'o call_options"
  cc_stream :: "('c, 'o) call_stream"

text \<open>\<open>sy_immediate\<close> and \<open>sy_restart\<close> are the callbacks and the restarts \<open>setImmediate\<close> has queued,
  \<open>sy_waiting\<close> the calls whose metadata promise has its continuation.\<close>

record ('u, 'c, 'o) js_system =
  sy_channel :: "'u channel_callback channel"
  sy_calls :: "('c, 'o) created_call list"
  sy_immediate :: "'u channel_callback list"
  sy_waiting :: "nat list"
  sy_restart :: "nat list"

record 'o system_env =
  se_channel :: ch_env
  se_factories :: "'o filter_factory list"
  se_stream :: cs_env

datatype ('u, 'c, 'o) sy_event =
    SyConnect 'u
  | SyCreate string "'o partial_options"
  | SyConnected nat
  | SyTimeout nat
  | SyClose
  | SyImmediate
  | SyRestart nat
  | SyMetadata nat "js_exn + metadata" "js_exn option"
  | SyCall nat "'c cs_event"

datatype ('u, 'c) sy_effect = SyChannel "'u channel_callback ch_effect" | SyStream nat "'c cs_effect"

definition sy_new :: "('u, 'c, 'o) js_system" where
  "sy_new = \<lparr>sy_channel = ch_new, sy_calls = [], sy_immediate = [], sy_waiting = [], sy_restart = []\<rparr>"

text \<open>The callback of a stream waits for its metadata.\<close>

definition run_callback :: "'u channel_callback \<Rightarrow> ('u, 'c, 'o) js_system \<Rightarrow> ('u, 'c, 'o) js_system" where
  "run_callback cb s = (case cb of StreamCallback i \<Rightarrow> s\<lparr>sy_waiting := sy_waiting s @ [i]\<rparr> | _ \<Rightarrow> s)"

fun on_channel_effect :: "'u channel_callback ch_effect \<Rightarrow> ('u, 'c, 'o) js_system \<Rightarrow> ('u, 'c, 'o) js_system" where
  "on_channel_effect (RunCallback cb) s = run_callback cb s"
| "on_channel_effect (ImmediateCallback cb) s = s\<lparr>sy_immediate := sy_immediate s @ [cb]\<rparr>"
| "on_channel_effect _ s = s"

definition sy_channel_step ::
  "'o system_env \<Rightarrow> ('o, 'u channel_callback) ch_event \<Rightarrow> ('u, 'c, 'o) js_system \<Rightarrow>
   ('u, 'c, 'o) js_system \<times> ('u, 'c) sy_effect list" where
  "sy_channel_step env e s =
     (let (ch, eff) = ch_step (se_channel env) (sy_channel s) e
      in (fold on_channel_effect eff (s\<lparr>sy_channel := ch\<rparr>), map SyChannel eff))"

text \<open>Events of one call stream.\<close>

definition sy_stream_run ::
  "'o system_env \<Rightarrow> nat \<Rightarrow> 'c cs_event list \<Rightarrow> ('u, 'c, 'o) js_system \<Rightarrow>
   ('u, 'c, 'o) js_system \<times> ('u, 'c) sy_effect list" where
  "sy_stream_run env i evs s =
     (let call = sy_calls s ! i; (st, eff) = run (cs_step (se_stream env)) (cc_stream call) evs
      in (s\<lparr>sy_calls := (sy_calls s)[i := call\<lparr>cc_stream := st\<rparr>]\<rparr>, map (SyStream i) eff))"

text \<open>What the continuation of the metadata promise does to its call, and whether it starts again.\<close>

fun to_stream :: "'cb ch_effect \<Rightarrow> 'c cs_event list" where
  "to_stream (StreamRequest n headers) = [Attach]"
| "to_stream (StreamCancel code details) = [CancelWithStatus code details]"
| "to_stream _ = []"

fun restarts :: "'cb ch_effect list \<Rightarrow> bool" where
  "restarts eff \<longleftrightarrow> StreamRestart \<in> set eff"

definition sy_metadata ::
  "'o system_env \<Rightarrow> nat \<Rightarrow> js_exn + metadata \<Rightarrow> js_exn option \<Rightarrow> ('u, 'c, 'o) js_system \<Rightarrow>
   ('u, 'c, 'o) js_system \<times> ('u, 'c) sy_effect list" where
  "sy_metadata env i md refused s =
     (let call = sy_calls s ! i;
          (ch, eff) = on_final_metadata (che_hostname (se_channel env)) (cc_method call) md
            (cs_getStatus (cc_stream call) \<noteq> None) refused (sy_channel s);
          s1 = s\<lparr>sy_channel := ch, sy_waiting := remove1 i (sy_waiting s),
                 sy_restart := sy_restart s @ (if restarts eff then [i] else [])\<rparr>;
          (s2, eff2) = sy_stream_run env i (concat (map to_stream eff)) s1
      in (s2, map SyChannel eff @ eff2))"

text \<open>\<open>createStream\<close> makes the call stream and starts it, unless it throws.\<close>

definition sy_create ::
  "'o system_env \<Rightarrow> string \<Rightarrow> 'o partial_options \<Rightarrow> ('u, 'c, 'o) js_system \<Rightarrow>
   ('u, 'c, 'o) js_system \<times> ('u, 'c) sy_effect list" where
  "sy_create env methodName options s =
     (let i = length (sy_calls s); opts = stream_options options;
          call = \<lparr>cc_method = methodName, cc_options = opts, cc_stream = cs_new opts (se_factories env)\<rparr>;
          s1 = (if ch_state (sy_channel s) = SHUTDOWN then s else s\<lparr>sy_calls := sy_calls s @ [call]\<rparr>)
      in sy_channel_step env (CreateStream options (FilterCallback i) (StreamCallback i)) s1)"

fun sy_step ::
  "'o system_env \<Rightarrow> ('u, 'c, 'o) js_system \<Rightarrow> ('u, 'c, 'o) sy_event \<Rightarrow>
   ('u, 'c, 'o) js_system \<times> ('u, 'c) sy_effect list" where
  "sy_step env s (SyConnect u) = sy_channel_step env (ChConnect (UserCallback u)) s"
| "sy_step env s (SyCreate methodName options) = sy_create env methodName options s"
| "sy_step env s (SyConnected n) = sy_channel_step env (SessionConnected n) s"
| "sy_step env s (SyTimeout n) = sy_channel_step env (SessionTimeout n) s"
| "sy_step env s SyClose = sy_channel_step env ChClose s"
| "sy_step env s SyImmediate =
     (case sy_immediate s of [] \<Rightarrow> (s, []) | cb # cbs \<Rightarrow> (run_callback cb (s\<lparr>sy_immediate := cbs\<rparr>), []))"
| "sy_step env s (SyRestart i) =
     sy_channel_step env (RestartStream (cc_options (sy_calls s ! i)) (FilterCallback i) (StreamCallback i))
       (s\<lparr>sy_restart := remove1 i (sy_restart s)\<rparr>)"
| "sy_step env s (SyMetadata i md refused) = sy_metadata env i md refused s"
| "sy_step env s (SyCall i e) = sy_stream_run env i [e] s"

text \<open>\<open>close\<close> of the client in \<open>client.ts\<close> closes its channel.\<close>

definition core_client_close ::
  "'o system_env \<Rightarrow> ('u, 'c, 'o) js_system \<Rightarrow> ('u, 'c, 'o) js_system \<times> ('u, 'c) sy_effect list" where
  "core_client_close env s = sy_step env s SyClose"

text \<open>A session reports only after it was created; only what was queued runs; the events of a call are
  those of its http2 stream and its user, in which attaching is no event of its own.\<close>

fun sy_legal :: "('u, 'c, 'o) js_system \<Rightarrow> ('u, 'c, 'o) sy_event \<Rightarrow> bool" where
  "sy_legal s (SyConnected n) \<longleftrightarrow> n < ch_sessions (sy_channel s)"
| "sy_legal s (SyTimeout n) \<longleftrightarrow> n < ch_sessions (sy_channel s)"
| "sy_legal s SyImmediate \<longleftrightarrow> sy_immediate s \<noteq> []"
| "sy_legal s (SyRestart i) \<longleftrightarrow> i \<in> set (sy_restart s)"
| "sy_legal s (SyMetadata i md refused) \<longleftrightarrow> i \<in> set (sy_waiting s)"
| "sy_legal s (SyCall i e) \<longleftrightarrow> i < length (sy_calls s) \<and> e \<noteq> Attach \<and> cs_legal (cc_stream (sy_calls s ! i)) e"
| "sy_legal s _ \<longleftrightarrow> True"

section \<open>Each call is started once at a time\<close>

text \<open>The places where a call can be on its way to its http2 stream, and whether it got there.\<close>

definition attached :: "('u, 'c, 'o) js_system \<Rightarrow> nat \<Rightarrow> bool" where
  "attached s i \<longleftrightarrow> i < length (sy_calls s) \<and> cs_http2Stream (cc_stream (sy_calls s ! i))"

definition tokens :: "('u, 'c, 'o) js_system \<Rightarrow> nat \<Rightarrow> nat" where
  "tokens s i =
     count_list (ch_listeners (sy_channel s)) (StreamCallback i) + count_list (sy_immediate s) (StreamCallback i) +
     count_list (sy_waiting s) i + count_list (sy_restart s) i + (if attached s i then 1 else 0)"

definition sy_inv :: "('u, 'c, 'o) js_system \<Rightarrow> bool" where
  "sy_inv s \<longleftrightarrow> (\<forall>i. tokens s i \<le> (if i < length (sy_calls s) then 1 else 0))"

lemma sy_inv_new [simp]: "sy_inv sy_new"
  by (simp add: sy_inv_def sy_new_def tokens_def attached_def) (simp add: ch_new_def)

text \<open>A channel step calls or keeps the callbacks it had and those it is given, each once.\<close>

fun registered :: "('o, 'cb) ch_event \<Rightarrow> 'cb list" where
  "registered (ChConnect cb) = [cb]"
| "registered (CreateStream options f s) = [f, s]"
| "registered (RestartStream opts f s) = [f, s]"
| "registered _ = []"

lemma ch_connect_callbacks:
  "count_list (called (snd (ch_connect ctx cb ch))) x + count_list (ch_listeners (fst (ch_connect ctx cb ch))) x
   \<le> count_list (ch_listeners ch) x + (if x = cb then 1 else 0)"
  by (auto simp: ch_connect_def kickConnectivityState_def startConnecting_def transitionToState_def Let_def)

lemma startHttp2Stream_callbacks:
  "count_list (called (snd (startHttp2Stream ctx opts f st ch))) x +
     count_list (ch_listeners (fst (startHttp2Stream ctx opts f st ch))) x
   \<le> count_list (ch_listeners ch) x + count_list [f, st] x"
  using ch_connect_callbacks [of ctx f ch x] ch_connect_callbacks [of ctx st "fst (ch_connect ctx f ch)" x]
    ch_connect_callbacks [of ctx st ch x]
  by (auto simp: startHttp2Stream_connects)

lemma transition_callbacks:
  "count_list (called (snd (transitionToState x ch))) cb + count_list (ch_listeners (fst (transitionToState x ch))) cb
   \<le> count_list (ch_listeners ch) cb"
  by (simp add: transitionToState_def)

lemma ch_step_callbacks:
  "count_list (called (snd (ch_step env ch e))) x + count_list (ch_listeners (fst (ch_step env ch e))) x
   \<le> count_list (ch_listeners ch) x + count_list (registered e) x"
proof (cases e)
  case (ChConnect cb)
  with ch_connect_callbacks [of "che_context env" cb ch x] show ?thesis by auto
next
  case (CreateStream options f s)
  with startHttp2Stream_callbacks [of "che_context env" "stream_options options" f s ch x] show ?thesis
    by (auto simp: createStream_def)
next
  case (RestartStream opts f s)
  with startHttp2Stream_callbacks [of "che_context env" opts f s ch x] show ?thesis by simp
next
  case (FinalMetadata methodName md ended refused)
  then show ?thesis
    by (auto simp: on_final_metadata_def Let_def split: sum.split sub_channel.split option.split)
next
  case (SessionTimeout n)
  then show ?thesis
    by (auto simp: goIdle_def shutdownSub_def transitionToState_def Let_def split: sub_channel.split)
next
  case ChClose
  then show ?thesis
    by (auto simp: ch_close_def shutdownSub_def transitionToState_def Let_def split: sub_channel.split)
qed (simp add: transition_callbacks)

lemma run_callback_frame [simp]:
  "sy_channel (run_callback cb s) = sy_channel s" "sy_calls (run_callback cb s) = sy_calls s"
  "sy_restart (run_callback cb s) = sy_restart s" "sy_immediate (run_callback cb s) = sy_immediate s"
  by (simp_all add: run_callback_def split: channel_callback.split)

lemma on_channel_effects_frame [simp]:
  "sy_channel (fold on_channel_effect eff s) = sy_channel s" "sy_calls (fold on_channel_effect eff s) = sy_calls s"
  "sy_restart (fold on_channel_effect eff s) = sy_restart s"
proof -
  have "sy_channel (on_channel_effect x s) = sy_channel s \<and> sy_calls (on_channel_effect x s) = sy_calls s \<and>
    sy_restart (on_channel_effect x s) = sy_restart s" for x and s :: "('a, 'b, 'c) js_system"
    by (cases x) simp_all
  then show "sy_channel (fold on_channel_effect eff s) = sy_channel s"
    "sy_calls (fold on_channel_effect eff s) = sy_calls s" "sy_restart (fold on_channel_effect eff s) = sy_restart s"
    by (induction eff arbitrary: s) simp_all
qed

lemma on_channel_effects_tokens:
  "count_list (sy_immediate (fold on_channel_effect eff s)) (StreamCallback i) + count_list (sy_waiting (fold on_channel_effect eff s)) i =
   count_list (sy_immediate s) (StreamCallback i) + count_list (sy_waiting s) i + count_list (called eff) (StreamCallback i)"
proof (induction eff arbitrary: s)
  case (Cons x eff)
  have "count_list (sy_immediate (on_channel_effect x s)) (StreamCallback i) + count_list (sy_waiting (on_channel_effect x s)) i =
      count_list (sy_immediate s) (StreamCallback i) + count_list (sy_waiting s) i + count_list (called [x]) (StreamCallback i)"
    by (cases x) (auto simp: run_callback_def split: channel_callback.split)
  moreover have "called (x # eff) = called [x] @ called eff" by (cases x) auto
  ultimately show ?case using Cons [of "on_channel_effect x s"] by simp
qed simp

lemma sy_channel_step_tokens:
  assumes "sy_channel_step env e s = (s', out)"
  shows "tokens s' i \<le> tokens s i + count_list (registered e) (StreamCallback i)"
    and "sy_calls s' = sy_calls s" and "sy_channel s' = fst (ch_step (se_channel env) (sy_channel s) e)"
proof -
  obtain ch eff where c: "ch_step (se_channel env) (sy_channel s) e = (ch, eff)" by force
  with assms have s': "s' = fold on_channel_effect eff (s\<lparr>sy_channel := ch\<rparr>)" by (simp add: sy_channel_step_def)
  then show "sy_calls s' = sy_calls s" and "sy_channel s' = fst (ch_step (se_channel env) (sy_channel s) e)" using c by simp_all
  show "tokens s' i \<le> tokens s i + count_list (registered e) (StreamCallback i)"
    using ch_step_callbacks [of "se_channel env" "sy_channel s" e "StreamCallback i"] c
      on_channel_effects_tokens [of eff "s\<lparr>sy_channel := ch\<rparr>" i]
    by (simp add: tokens_def attached_def s')
qed

text \<open>Only attaching changes whether a call is attached, and it does if the call has no status.\<close>

lemma http2Stream_step:
  "cs_http2Stream (fst (cs_step env st e)) \<longleftrightarrow> cs_http2Stream st \<or> e = Attach \<and> cs_getStatus st = None"
proof (cases "sending e")
  case True
  then show ?thesis
    by (cases e) (auto simp: cs_attach_def cs_write_def cs_final_def cs_getStatus_def Let_def split: option.split sum.split)
next
  case False
  with idle_step [OF False, of st env] show ?thesis by (cases e) (auto simp: idle_sender_def sender_def)
qed

lemma attached_update:
  "i < length (sy_calls s) \<Longrightarrow>
   attached (s\<lparr>sy_calls := (sy_calls s)[i := call]\<rparr>) j = (if j = i then cs_http2Stream (cc_stream call) else attached s j)"
  by (auto simp: attached_def)

text \<open>The continuation of the metadata promise: the call is attached, starts again or stops.\<close>

definition metadata_effect :: "'cb ch_effect list \<Rightarrow> bool \<Rightarrow> bool" where
  "metadata_effect eff ended \<longleftrightarrow>
     eff = [] \<or> (\<exists>exn. eff = [ChThrow exn]) \<or> (\<exists>n h. eff = [StreamRequest n h] \<and> \<not> ended) \<or>
     eff = [StreamRestart] \<or> (\<exists>c d. eff = [StreamCancel c d])"

lemma on_final_metadata_effect:
  "fst (on_final_metadata host name md ended refused ch) = ch \<and> metadata_effect (snd (on_final_metadata host name md ended refused ch)) ended"
  by (auto simp: on_final_metadata_def metadata_effect_def Let_def split: sum.split sub_channel.split option.split)

text \<open>The events one step of the system gives a call stream.\<close>

fun stream_events :: "'o system_env \<Rightarrow> ('u, 'c, 'o) js_system \<Rightarrow> nat \<Rightarrow> ('u, 'c, 'o) sy_event \<Rightarrow> 'c cs_event list" where
  "stream_events env s i (SyMetadata j md refused) =
     (if i = j then concat (map to_stream (snd (on_final_metadata (che_hostname (se_channel env)) (cc_method (sy_calls s ! j)) md
        (cs_getStatus (cc_stream (sy_calls s ! j)) \<noteq> None) refused (sy_channel s)))) else [])"
| "stream_events env s i (SyCall j e) = (if i = j then [e] else [])"
| "stream_events env s i _ = []"

fun stream_effects :: "nat \<Rightarrow> ('u, 'c) sy_effect list \<Rightarrow> 'c cs_effect list" where
  "stream_effects i [] = []"
| "stream_effects i (SyStream j x # out) = (if i = j then x # stream_effects i out else stream_effects i out)"
| "stream_effects i (SyChannel x # out) = stream_effects i out"

lemma stream_effects_append [simp]: "stream_effects i (xs @ ys) = stream_effects i xs @ stream_effects i ys"
  by (induction i xs rule: stream_effects.induct) auto

lemma stream_effects_channel [simp]: "stream_effects i (map SyChannel eff) = []"
  by (induction eff) auto

lemma stream_effects_stream [simp]: "stream_effects i (map (SyStream j) eff) = (if i = j then eff else [])"
  by (induction eff) auto

text \<open>A call is attached once, and only while it has no status.\<close>

definition cs_legal_open :: "('c, 'o) call_stream \<Rightarrow> 'c cs_event \<Rightarrow> bool" where
  "cs_legal_open st e \<longleftrightarrow> cs_legal st e \<and> (e = Attach \<longrightarrow> cs_getStatus st = None)"

lemma legal_open_run: "legal_run (cs_step env) cs_legal_open st es \<Longrightarrow> legal_run (cs_step env) cs_legal st es"
  by (induction es arbitrary: st) (auto simp: cs_legal_open_def)

lemma attach_count:
  "legal_run (cs_step env) cs_legal_open st es \<Longrightarrow>
   count_list es Attach + (if cs_http2Stream st then 1 else 0) = (if cs_http2Stream (final (cs_step env) st es) then 1 else 0)"
proof (induction es arbitrary: st)
  case (Cons e es)
  from Cons.prems have l: "cs_legal_open st e" "legal_run (cs_step env) cs_legal_open (fst (cs_step env st e)) es" by auto
  from l(1) have "e = Attach \<longrightarrow> \<not> cs_http2Stream st \<and> cs_getStatus st = None" by (auto simp: cs_legal_open_def)
  with Cons.IH [OF l(2)] http2Stream_step [of env st e] show ?case
    by (cases "e = Attach") simp_all
qed simp

text \<open>One step: the calls there were keep their method and options, and their streams run.\<close>

definition stream_runs :: "'o system_env \<Rightarrow> ('u, 'c, 'o) js_system \<Rightarrow> ('u, 'c, 'o) sy_event \<Rightarrow> ('u, 'c, 'o) js_system \<Rightarrow>
    ('u, 'c) sy_effect list \<Rightarrow> nat \<Rightarrow> bool" where
  "stream_runs env s e s' out i \<longleftrightarrow>
     (let call = sy_calls s ! i; evs = stream_events env s i e in
      cc_options (sy_calls s' ! i) = cc_options call \<and>
      legal_run (cs_step (se_stream env)) cs_legal_open (cc_stream call) evs \<and>
      cc_stream (sy_calls s' ! i) = final (cs_step (se_stream env)) (cc_stream call) evs \<and>
      stream_effects i out = effects (cs_step (se_stream env)) (cc_stream call) evs)"

lemma stream_run_runs:
  assumes "sy_stream_run env j evs s = (s', out)" and "i < length (sy_calls s)" and "j < length (sy_calls s)"
    and "legal_run (cs_step (se_stream env)) cs_legal_open (cc_stream (sy_calls s ! j)) evs"
  shows "length (sy_calls s') = length (sy_calls s) \<and>
    cc_options (sy_calls s' ! i) = cc_options (sy_calls s ! i) \<and>
    cc_stream (sy_calls s' ! i) = final (cs_step (se_stream env)) (cc_stream (sy_calls s ! i)) (if i = j then evs else []) \<and>
    stream_effects i out = effects (cs_step (se_stream env)) (cc_stream (sy_calls s ! i)) (if i = j then evs else [])"
  using assms by (auto simp: sy_stream_run_def Let_def split: prod.splits)

lemma sy_step_streams:
  assumes inv: "sy_inv s" and legal: "sy_legal s e" and step: "sy_step env s e = (s', out)" and i: "i < length (sy_calls s)"
  shows "length (sy_calls s) \<le> length (sy_calls s') \<and> stream_runs env s e s' out i"
proof -
  have chan: "length (sy_calls s) \<le> length (sy_calls s') \<and> stream_runs env s e s' out i"
    if "sy_channel_step env ce s1 = (s', out)" "stream_events env s i e = []"
      "\<exists>later. sy_calls s1 = sy_calls s @ later" for ce s1
  proof -
    have "sy_calls s' = sy_calls s1" using sy_channel_step_tokens(2) [OF that(1)] .
    moreover have "stream_effects i out = []" using that(1) by (auto simp: sy_channel_step_def split: prod.splits)
    ultimately show ?thesis using that(2,3) i by (auto simp: stream_runs_def nth_append)
  qed
  show ?thesis
  proof (cases e)
    case (SyCreate methodName options)
    with step chan show ?thesis by (simp add: sy_create_def Let_def split: if_splits)
  next
    case SyImmediate
    with step legal i show ?thesis by (auto simp: stream_runs_def split: list.splits)
  next
    case (SyMetadata j md refused)
    obtain ch eff where f: "on_final_metadata (che_hostname (se_channel env)) (cc_method (sy_calls s ! j)) md
        (cs_getStatus (cc_stream (sy_calls s ! j)) \<noteq> None) refused (sy_channel s) = (ch, eff)" by force
    let ?s1 = "s\<lparr>sy_channel := ch, sy_waiting := remove1 j (sy_waiting s), sy_restart := sy_restart s @ (if restarts eff then [j] else [])\<rparr>"
    obtain s2 eff2 where r: "sy_stream_run env j (concat (map to_stream eff)) ?s1 = (s2, eff2)" by force
    have w: "0 < count_list (sy_waiting s) j" using legal SyMetadata by (simp add: count_list_mem)
    with inv have j: "j < length (sy_calls s)" "\<not> attached s j"
      by (auto simp: sy_inv_def tokens_def split: if_splits dest!: spec [of _ j])
    then have "\<not> cs_http2Stream (cc_stream (sy_calls s ! j))" by (simp add: attached_def)
    then have l: "legal_run (cs_step (se_stream env)) cs_legal_open (cc_stream (sy_calls ?s1 ! j)) (concat (map to_stream eff))"
      using on_final_metadata_effect [of "che_hostname (se_channel env)" "cc_method (sy_calls s ! j)" md
          "cs_getStatus (cc_stream (sy_calls s ! j)) \<noteq> None" refused "sy_channel s"] f
      by (auto simp: metadata_effect_def cs_legal_open_def)
    have "s' = s2" "out = map SyChannel eff @ eff2"
      using step SyMetadata f r by (simp_all add: sy_metadata_def Let_def)
    with stream_run_runs [OF r _ _ l, of i] i j f SyMetadata l show ?thesis
      by (auto simp: stream_runs_def Let_def)
  next
    case (SyCall j ev)
    with legal have j: "j < length (sy_calls s)"
      "legal_run (cs_step (se_stream env)) cs_legal_open (cc_stream (sy_calls s ! j)) [ev]"
      by (auto simp: cs_legal_open_def)
    from SyCall step have "sy_stream_run env j [ev] s = (s', out)" by simp
    from stream_run_runs [OF this i j] j SyCall show ?thesis by (auto simp: stream_runs_def Let_def)
  next
    case (SyRestart j)
    from step [unfolded SyRestart, simplified] show ?thesis by (rule chan) (simp_all add: SyRestart)
  next
    case (SyConnect u)
    from step [unfolded SyConnect, simplified] show ?thesis by (rule chan) (simp_all add: SyConnect)
  next
    case (SyConnected n)
    from step [unfolded SyConnected, simplified] show ?thesis by (rule chan) (simp_all add: SyConnected)
  next
    case (SyTimeout n)
    from step [unfolded SyTimeout, simplified] show ?thesis by (rule chan) (simp_all add: SyTimeout)
  next
    case SyClose
    from step [unfolded SyClose, simplified] show ?thesis by (rule chan) (simp_all add: SyClose)
  qed
qed

section \<open>The invariant\<close>

lemma tokens_stream_run:
  assumes "sy_stream_run env j evs s = (s', out)" and "j < length (sy_calls s)"
  shows "tokens s' i + (if attached s i then 1 else 0) = tokens s i + (if attached s' i then 1 else 0)"
    and "sy_channel s' = sy_channel s" and "length (sy_calls s') = length (sy_calls s)"
    and "attached s' i = (if i = j then cs_http2Stream (final (cs_step (se_stream env)) (cc_stream (sy_calls s ! j)) evs) else attached s i)"
  using assms by (auto simp: sy_stream_run_def tokens_def attached_def Let_def split: prod.splits)

lemma sy_step_inv:
  assumes inv: "sy_inv s" and legal: "sy_legal s e"
  shows "sy_inv (fst (sy_step env s e))"
proof -
  obtain s' out where step: "sy_step env s e = (s', out)" by force
  have t: "tokens s i \<le> (if i < length (sy_calls s) then 1 else 0)" for i
    using inv by (auto simp: sy_inv_def)
  have chan: "sy_inv s'" if "sy_channel_step env ce s1 = (s', out)" "sy_channel s1 = sy_channel s"
      "sy_calls s1 = sy_calls s"
      "\<And>i. tokens s1 i + count_list (registered ce) (StreamCallback i) \<le> tokens s i" for ce s1
  proof -
    have "tokens s' i \<le> (if i < length (sy_calls s) then 1 else 0)" for i
      using sy_channel_step_tokens(1) [OF that(1), of i] that(4) [of i] t [of i] by linarith
    then show ?thesis using sy_channel_step_tokens(2) [OF that(1)] that(3) by (simp add: sy_inv_def)
  qed
  have "sy_inv s'"
  proof (cases e)
    case (SyConnect u)
    with step show ?thesis by (intro chan) auto
  next
    case (SyConnected n)
    with step legal show ?thesis by (intro chan) auto
  next
    case (SyTimeout n)
    with step legal show ?thesis by (intro chan) auto
  next
    case SyClose
    with step show ?thesis by (intro chan) auto
  next
    case (SyRestart j)
    with legal have "0 < count_list (sy_restart s) j" by (simp add: count_list_mem)
    with step [unfolded SyRestart, simplified] show ?thesis
      by (elim chan) (auto simp: tokens_def attached_def count_list_remove1)
  next
    case SyImmediate
    then obtain cb cbs where q: "sy_immediate s = cb # cbs" using legal by (cases "sy_immediate s") auto
    with SyImmediate step have s': "s' = run_callback cb (s\<lparr>sy_immediate := cbs\<rparr>)" by simp
    have tk: "tokens s' i = tokens s i" for i
      unfolding s' using q by (cases cb) (auto simp: tokens_def attached_def run_callback_def)
    have same: "sy_channel s' = sy_channel s" "sy_calls s' = sy_calls s" by (simp_all add: s')
    show ?thesis unfolding sy_inv_def same tk using t by blast
  next
    case (SyCall j ev)
    with legal have j: "j < length (sy_calls s)" "ev \<noteq> Attach" by auto
    from SyCall step have r: "sy_stream_run env j [ev] s = (s', out)" by simp
    have "attached s' i = attached s i" for i
      using tokens_stream_run(4) [OF r j(1), of i] j http2Stream_step [of "se_stream env" "cc_stream (sy_calls s ! j)" ev]
      by (auto simp: attached_def)
    then have tk: "tokens s' i = tokens s i" for i using tokens_stream_run(1) [OF r j(1), of i] by simp
    show ?thesis unfolding sy_inv_def tokens_stream_run(2,3) [OF r j(1)] tk using t by blast
  next
    case (SyMetadata j md refused)
    obtain ch eff where f: "on_final_metadata (che_hostname (se_channel env)) (cc_method (sy_calls s ! j)) md
        (cs_getStatus (cc_stream (sy_calls s ! j)) \<noteq> None) refused (sy_channel s) = (ch, eff)" by force
    note eff = on_final_metadata_effect [of "che_hostname (se_channel env)" "cc_method (sy_calls s ! j)" md
        "cs_getStatus (cc_stream (sy_calls s ! j)) \<noteq> None" refused "sy_channel s", unfolded f fst_conv snd_conv]
    let ?s1 = "s\<lparr>sy_channel := ch, sy_waiting := remove1 j (sy_waiting s), sy_restart := sy_restart s @ (if restarts eff then [j] else [])\<rparr>"
    obtain s2 eff2 where r: "sy_stream_run env j (concat (map to_stream eff)) ?s1 = (s2, eff2)" by force
    have s': "s' = s2" using step SyMetadata f r by (simp add: sy_metadata_def Let_def)
    have w: "0 < count_list (sy_waiting s) j" using legal SyMetadata by (simp add: count_list_mem)
    with t [of j] have j: "j < length (sy_calls s)" and one: "tokens s j = 1" "\<not> attached s j"
      by (auto simp: tokens_def split: if_splits)
    have a1: "attached ?s1 i = attached s i" for i by (simp add: attached_def)
    have t1: "tokens ?s1 i + (if i = j then 1 else 0) = tokens s i + (if restarts eff \<and> i = j then 1 else 0)" for i
      unfolding tokens_def a1 using w eff by (auto simp: count_list_remove1)
    have "attached s2 j \<Longrightarrow> \<not> restarts eff"
      using tokens_stream_run(4) [OF r, of j] j eff one(2) http2Stream_step
      by (auto simp: metadata_effect_def attached_def)
    then have "tokens s2 i \<le> tokens s i" for i
      using tokens_stream_run(1,4) [OF r, of i] j t1 [of i] a1 [of i] one(2) by (auto split: if_splits)
    then have "tokens s2 i \<le> (if i < length (sy_calls s) then 1 else 0)" for i using t [of i] by (rule le_trans)
    moreover have "length (sy_calls s2) = length (sy_calls s)"
      using tokens_stream_run(3) [OF r] j by auto
    ultimately show ?thesis unfolding s' by (simp add: sy_inv_def)
  next
    case (SyCreate methodName options)
    let ?i = "length (sy_calls s)"
    let ?call = "\<lparr>cc_method = methodName, cc_options = stream_options options, cc_stream = cs_new (stream_options options) (se_factories env)\<rparr>"
    let ?s1 = "s\<lparr>sy_calls := sy_calls s @ [?call]\<rparr>"
    show ?thesis
    proof (cases "ch_state (sy_channel s) = SHUTDOWN")
      case True
      with SyCreate step have "s' = s"
        by (auto simp: sy_create_def sy_channel_step_def createStream_def Let_def)
      with inv show ?thesis by simp
    next
      case False
      with SyCreate step have r: "sy_channel_step env (CreateStream options (FilterCallback ?i) (StreamCallback ?i)) ?s1 = (s', out)"
        by (simp add: sy_create_def Let_def)
      have "\<not> cs_http2Stream (cc_stream ?call)" by (simp add: cs_new_def)
      then have "attached ?s1 i = attached s i" for i by (auto simp: attached_def nth_append)
      then have "tokens ?s1 i = tokens s i" for i by (simp add: tokens_def)
      then have up: "tokens s' i \<le> tokens s i + (if i = ?i then 1 else 0)" for i
        using sy_channel_step_tokens(1) [OF r, of i] by (simp split: if_splits)
      have len: "length (sy_calls s') = Suc ?i" using sy_channel_step_tokens(2) [OF r] by simp
      have "tokens s' i \<le> (if i < length (sy_calls s') then 1 else 0)" for i
        unfolding len using up [of i] t [of i] by (cases i ?i rule: linorder_cases) simp_all
      then show ?thesis by (simp add: sy_inv_def)
    qed
  qed
  with step show ?thesis by simp
qed

interpretation js_system: machine "sy_step env" sy_legal sy_inv
  for env :: "'o system_env"
  by unfold_locales (rule sy_step_inv)

section \<open>Every call has a legal run\<close>

lemma sy_step_fresh:
  assumes inv: "sy_inv s" and legal: "sy_legal s e" and step: "sy_step env s e = (s', out)" and i: "\<not> i < length (sy_calls s)"
  shows "stream_effects i out = [] \<and>
    (i < length (sy_calls s') \<longrightarrow>
       cc_stream (sy_calls s' ! i) = cs_new (cc_options (sy_calls s' ! i)) (se_factories env))"
proof -
  have chan: "stream_effects i out = [] \<and> sy_calls s' = sy_calls s1" if "sy_channel_step env ce s1 = (s', out)" for ce s1
    using that sy_channel_step_tokens(2) [OF that] by (auto simp: sy_channel_step_def split: prod.splits)
  show ?thesis
  proof (cases e)
    case (SyConnect u)
    from chan [OF step [unfolded SyConnect, simplified]] i show ?thesis by simp
  next
    case (SyCreate methodName options)
    from step [unfolded SyCreate sy_step.simps sy_create_def Let_def] i show ?thesis
      by (auto dest!: chan simp: nth_append split: if_splits)
  next
    case (SyConnected n)
    from chan [OF step [unfolded SyConnected, simplified]] i show ?thesis by simp
  next
    case (SyTimeout n)
    from chan [OF step [unfolded SyTimeout, simplified]] i show ?thesis by simp
  next
    case SyClose
    from chan [OF step [unfolded SyClose, simplified]] i show ?thesis by simp
  next
    case SyImmediate
    with step i show ?thesis by (auto split: list.splits)
  next
    case (SyRestart j)
    from chan [OF step [unfolded SyRestart, simplified]] i show ?thesis by simp
  next
    case (SyMetadata j md refused)
    have "0 < count_list (sy_waiting s) j" using legal SyMetadata by (simp add: count_list_mem)
    then have "0 < tokens s j" by (simp add: tokens_def)
    with inv have "j < length (sy_calls s)" by (auto simp: sy_inv_def split: if_splits dest!: spec [of _ j])
    with SyMetadata step i show ?thesis
      by (auto simp: sy_metadata_def sy_stream_run_def Let_def split: prod.splits)
  next
    case (SyCall j ev)
    with step legal i show ?thesis by (auto simp: sy_stream_run_def Let_def split: prod.splits)
  qed
qed

lemma sy_runs:
  assumes "legal_run (sy_step env) sy_legal sy_new es" and "i < length (sy_calls (final (sy_step env) sy_new es))"
  shows "\<exists>fs. let call = sy_calls (final (sy_step env) sy_new es) ! i;
        st0 = cs_new (cc_options call) (se_factories env) in
      legal_run (cs_step (se_stream env)) cs_legal_open st0 fs \<and>
      cc_stream call = final (cs_step (se_stream env)) st0 fs \<and>
      stream_effects i (effects (sy_step env) sy_new es) = effects (cs_step (se_stream env)) st0 fs"
proof -
  have "(i < length (sy_calls (final (sy_step env) sy_new es)) \<longrightarrow> ?thesis) \<and>
      (\<not> i < length (sy_calls (final (sy_step env) sy_new es)) \<longrightarrow> stream_effects i (effects (sy_step env) sy_new es) = [])"
    using assms(1)
  proof (induction es rule: rev_induct)
    case Nil
    then show ?case by (simp add: sy_new_def)
  next
    case (snoc e es)
    let ?s = "final (sy_step env) sy_new es"
    obtain s' out where step: "sy_step env ?s e = (s', out)" by force
    have l: "legal_run (sy_step env) sy_legal sy_new es" "sy_legal ?s e" using snoc.prems by (auto simp: legal_run_append)
    have inv: "sy_inv ?s" by (rule js_system.inv_run [OF sy_inv_new l(1)])
    have fin: "final (sy_step env) sy_new (es @ [e]) = s'"
      "effects (sy_step env) sy_new (es @ [e]) = effects (sy_step env) sy_new es @ out"
      using step by (simp_all add: run_append_fst run_append_snd)
    show ?case
    proof (cases "i < length (sy_calls ?s)")
      case True
      with snoc.IH [OF l(1)] obtain fs where fs: "let call = sy_calls ?s ! i; st0 = cs_new (cc_options call) (se_factories env) in
          legal_run (cs_step (se_stream env)) cs_legal_open st0 fs \<and>
          cc_stream call = final (cs_step (se_stream env)) st0 fs \<and>
          stream_effects i (effects (sy_step env) sy_new es) = effects (cs_step (se_stream env)) st0 fs" by blast
      note one = sy_step_streams [OF inv l(2) step True]
      then have "i < length (sy_calls s')" using True by simp
      moreover have "let call = sy_calls s' ! i; st0 = cs_new (cc_options call) (se_factories env); gs = fs @ stream_events env ?s i e in
          legal_run (cs_step (se_stream env)) cs_legal_open st0 gs \<and>
          cc_stream call = final (cs_step (se_stream env)) st0 gs \<and>
          stream_effects i (effects (sy_step env) sy_new (es @ [e])) = effects (cs_step (se_stream env)) st0 gs"
        using one fs unfolding fin
        by (simp add: stream_runs_def Let_def legal_run_append run_append_fst run_append_snd)
      ultimately show ?thesis unfolding fin Let_def by blast
    next
      case False
      note new = sy_step_fresh [OF inv l(2) step False]
      have out: "stream_effects i (effects (sy_step env) sy_new (es @ [e])) = []"
        using snoc.IH [OF l(1)] False new by (simp add: fin(2))
      show ?thesis
      proof (cases "i < length (sy_calls s')")
        case True
        with new out show ?thesis unfolding fin(1) by (auto simp: Let_def intro!: exI [of _ "[]"])
      next
        case F: False
        with out show ?thesis unfolding fin(1) by simp
      qed
    qed
  qed
  with assms(2) show ?thesis by blast
qed

end
