(* ===== verification/CoreFailures.thy ===== *)
theory CoreFailures
  imports CoreObjects
begin

text \<open>
  The failures on the client's side that end a call: a response that does not parse, a request that
  does not serialize and \<open>cancel\<close>. Each ends an open call with its own status, which the call object
  reports and keeps.
\<close>

interpretation object_machine:
  machine "ob_step env cenv :: ('c, 'o) call_object \<Rightarrow> ('p, 'k, 'c) object_input \<Rightarrow> _" ob_legal
    "\<lambda>ob. readable_object (ob_class ob) \<and> cs_inv (ob_stream ob)"
  for env :: cs_env and cenv :: "('p, 'r) core_env"
proof unfold_locales
  fix ob :: "('c, 'o) call_object" and e :: "('p, 'k, 'c) object_input"
  assume "readable_object (ob_class ob) \<and> cs_inv (ob_stream ob)" and "ob_legal ob e"
  then show "readable_object (ob_class (fst (ob_step env cenv ob e))) \<and> cs_inv (ob_stream (fst (ob_step env cenv ob e)))"
    using ob_step_reports [of ob e env cenv] by (metis prod.collapse)
qed

lemma ob_class_step: "ob_class (fst (ob_step env cenv ob e)) = ob_class ob"
  by (cases e) (auto simp: ob_act_def ob_stream_run_def case_prod_beta split: list.split)

lemma ob_class_run: "ob_class (final (ob_step env cenv) ob es) = ob_class ob"
  by (induction es arbitrary: ob) (simp_all add: ob_class_step)

text \<open>The status an event stands for, as the object's code has it.\<close>

fun failure :: "('p, 'r) core_env \<Rightarrow> ('c, 'o) call_object \<Rightarrow> ('p, 'k, 'c) object_input \<Rightarrow> (status \<times> string) option" where
  "failure cenv ob (Invoke DoCancel) = Some (CANCELLED, ''Cancelled on client'')"
| "failure cenv ob (Invoke (DoWrite chunk encoding cb)) =
     (if ob_class ob = DuplexObject \<and> isl (cv_serialize cenv chunk) then Some (INTERNAL, ''Serialization failure'') else None)"
| "failure cenv ob Deliver =
     (case ob_buffer ob of
        Some data # _ \<Rightarrow>
          if isl (cv_deserialize cenv data) then Some (INTERNAL, ''Failed to parse server response'') else None
      | _ \<Rightarrow> None)"
| "failure cenv ob _ = None"

lemma failure_code: "failure cenv ob e = Some (c, d) \<Longrightarrow> c \<noteq> OK"
  by (cases "(cenv, ob, e)" rule: failure.cases) (auto split: if_splits list.splits option.splits)

lemma cancelled_stream:
  fixes ob :: "('c, 'o) call_object"
  shows "cs_getStatus (ob_stream ob) = None \<Longrightarrow> concat (map cancel_event out) = [CancelWithStatus c d :: 'c cs_event] \<Longrightarrow>
   cs_getStatus (ob_stream (fst (ob_act env cenv out ob))) = Some \<lparr>st_code = c, st_details = d, st_metadata = []\<rparr>"
  by (simp add: ob_act_def ob_stream_run_def case_prod_beta cs_getStatus_def cs_cancelWithStatus_def endCall_def)

lemma failing_step:
  assumes cls: "readable_object (ob_class ob)" and open_call: "cs_getStatus (ob_stream ob) = None"
    and f: "failure cenv ob e = Some (c, d)"
  shows "cs_getStatus (ob_stream (fst (ob_step env cenv ob e))) = Some \<lparr>st_code = c, st_details = d, st_metadata = []\<rparr>"
proof (cases e)
  case (Invoke m)
  show ?thesis
  proof (cases m)
    case DoCancel
    with Invoke f cls open_call show ?thesis
      by (auto simp: readable_object_def cancel_call_def call_cancel_def intro!: cancelled_stream)
  next
    case (DoWrite chunk encoding cb)
    with Invoke f open_call show ?thesis
      by (auto simp: tryWrite_def isl_def split: if_splits intro!: cancelled_stream)
  qed (use Invoke f in auto)
next
  case Deliver
  with f obtain data rest ex where b: "ob_buffer ob = Some data # rest" "cv_deserialize cenv data = Inl ex"
    and cd: "c = INTERNAL" "d = ''Failed to parse server response''"
    by (auto simp: isl_def split: list.splits option.splits if_splits)
  show ?thesis unfolding Deliver ob_step.simps
    using b cd open_call cls
    by (auto simp: readable_object_on [OF cls] intro!: cancelled_stream)
qed (use f in auto)

lemma failure_reported:
  fixes es :: "('p, 'k, 'c) object_input list" and opts :: "'o call_options"
  assumes "readable_object cls" and "legal_run (ob_step env cenv) ob_legal (ob_new cls opts factories) (es @ e # fs)"
    and "cs_getStatus (ob_stream (final (ob_step env cenv) (ob_new cls opts factories) es)) = None"
    and "failure cenv (final (ob_step env cenv) (ob_new cls opts factories) es) e = Some (c, d)"
  shows "reports (effects (ob_step env cenv) (ob_new cls opts factories) (es @ e # fs)) =
      report \<lparr>st_code = c, st_details = d, st_metadata = []\<rparr> \<and>
    cs_getStatus (ob_stream (final (ob_step env cenv) (ob_new cls opts factories) (es @ e # fs))) =
      Some \<lparr>st_code = c, st_details = d, st_metadata = []\<rparr>"
proof -
  let ?new = "ob_new cls opts factories :: ('c, 'o) call_object"
  let ?ob = "final (ob_step env cenv) ?new es"
  let ?ob1 = "fst (ob_step env cenv ?ob e)"
  have new: "readable_object (ob_class ?new) \<and> cs_inv (ob_stream ?new)" using assms(1) by (simp add: ob_new_def)
  have l: "legal_run (ob_step env cenv) ob_legal ?new es" "ob_legal ?ob e" "legal_run (ob_step env cenv) ob_legal ?ob1 fs"
    using assms(2) by (auto simp: legal_run_append)
  have inv: "readable_object (ob_class ?ob) \<and> cs_inv (ob_stream ?ob)" by (rule object_machine.inv_run [OF new l(1)])
  have inv1: "readable_object (ob_class ?ob1) \<and> cs_inv (ob_stream ?ob1)" by (rule object_machine.inv_step [OF inv l(2)])
  have "cs_getStatus (ob_stream ?ob1) = Some \<lparr>st_code = c, st_details = d, st_metadata = []\<rparr>"
    using failing_step [OF _ assms(3,4)] inv by blast
  with ob_run_reports [OF conjunct1 [OF inv1] conjunct2 [OF inv1] l(3)]
  have fin: "cs_getStatus (ob_stream (final (ob_step env cenv) ?new (es @ e # fs))) = Some \<lparr>st_code = c, st_details = d, st_metadata = []\<rparr>"
    by (simp add: run_append_fst)
  moreover have "cs_getStatus (ob_stream ?new) = None" by (simp add: ob_new_def cs_new_def cs_getStatus_def)
  ultimately show ?thesis using ob_run_reports [OF conjunct1 [OF new] conjunct2 [OF new] assms(2)] by (simp add: new_status_def)
qed

end
