(* ===== verification/CallStreamBounds.thy ===== *)
theory CallStreamBounds
  imports CallStreamFacts
begin

text \<open>
  What the reader of a call stream keeps in memory: less than one message of the announced size, and
  the messages of at most one chunk, because the http2 stream is paused while messages are held back.
\<close>

section \<open>The reference decoder\<close>

lemma readUInt32BE_bound: "readUInt32BE bs < 2 ^ 32"
proof -
  have "foldl (\<lambda>acc b. acc * 256 + unat b) a xs < (a + 1) * 256 ^ length xs" for a and xs :: bytes
  proof (induction xs arbitrary: a)
    case (Cons x xs)
    have "unat x < 256" using unsigned_less [of x, where ?'a = nat] by simp
    then have step: "a * 256 + unat x + 1 \<le> (a + 1) * 256" by simp
    have "foldl (\<lambda>acc b. acc * 256 + unat b) (a * 256 + unat x) xs < (a * 256 + unat x + 1) * 256 ^ length xs"
      by (rule Cons)
    also have "\<dots> \<le> (a + 1) * 256 * 256 ^ length xs" by (rule mult_le_mono1 [OF step])
    finally show ?case by (simp only: foldl_Cons list.size add_Suc_right add_0_right power_Suc mult.assoc)
  qed simp
  from this [of 0 "take 4 bs"] have "readUInt32BE bs < 256 ^ length (take 4 bs)" by (simp add: readUInt32BE_def)
  also have "\<dots> \<le> (256 :: nat) ^ 4" by (rule power_increasing) simp_all
  finally show ?thesis by simp
qed

fun frame_ok :: "frame \<Rightarrow> bool" where
  "frame_ok Idle \<longleftrightarrow> True"
| "frame_ok (Prefix bs) \<longleftrightarrow> length bs < 4"
| "frame_ok (Body n bs) \<longleftrightarrow> length bs < n \<and> n < 2 ^ 32"

text \<open>The bytes of the message being read, as far as they count for the five of its header.\<close>

fun progress :: "frame \<Rightarrow> nat" where
  "progress Idle = 0"
| "progress (Prefix bs) = Suc (length bs)"
| "progress (Body n bs) = 4"

lemma byte_step_ok:
  "frame_ok fr \<Longrightarrow> frame_ok (fst (byte_step fr b)) \<and>
   5 * length (snd (byte_step fr b)) + progress (fst (byte_step fr b)) \<le> progress fr + 1"
  by (cases fr) (use readUInt32BE_bound in auto)

lemma frame_run_ok:
  "frame_ok fr \<Longrightarrow> frame_ok (frame_after fr bs) \<and>
   5 * length (frame_msgs fr bs) + progress (frame_after fr bs) \<le> progress fr + length bs"
proof (induction bs arbitrary: fr)
  case (Cons b bs)
  from byte_step_ok [OF Cons.prems, of b] Cons.IH [of "fst (byte_step fr b)"] show ?case by simp
qed simp

lemma progress_bound: "frame_ok fr \<Longrightarrow> progress fr \<le> 4"
  by (cases fr) auto

lemma frame_msgs_bound: "frame_ok fr \<Longrightarrow> length (frame_msgs fr bs) \<le> (length bs + 4) div 5"
  using frame_run_ok [of fr bs] progress_bound [of fr] by linarith

section \<open>The call stream\<close>

definition bounded :: "nat \<Rightarrow> ('c, 'o) call_stream \<Rightarrow> bool" where
  "bounded B st \<longleftrightarrow> cs_inv st \<and> frame_ok (frame_of st) \<and>
     length (cs_unpushedReadMessages st) \<le> (B + 4) div 5 + (if cs_ended st then 1 else 0)"

definition chunk_legal :: "nat \<Rightarrow> ('c, 'o) call_stream \<Rightarrow> 'c cs_event \<Rightarrow> bool" where
  "chunk_legal B st e \<longleftrightarrow> cs_legal st e \<and> (\<forall>d. e = Data d \<longrightarrow> length d \<le> B)"

lemma bounded_new [simp]: "bounded B (cs_new opts factories)"
  by (simp add: bounded_def cs_inv_new) (simp add: cs_new_def frame_of_def)

lemma bounded_step:
  assumes b: "bounded B st" and l: "chunk_legal B st e"
  shows "bounded B (fst (cs_step env st e))"
proof -
  obtain st' eff where step: "cs_step env st e = (st', eff)" by force
  have inv: "cs_inv st" and legal: "cs_legal st e" using b l by (auto simp: bounded_def chunk_legal_def)
  note one = cs_step_effect [OF inv legal step]
  have "length (pushed eff @ cs_unpushedReadMessages st') =
      length (cs_unpushedReadMessages st @ received_items (frame_of st) e)" using one by metis
  then have le: "length (cs_unpushedReadMessages st') \<le>
      length (cs_unpushedReadMessages st) + length (received_items (frame_of st) e)" by simp
  have "bounded B st'"
  proof (cases e)
    case (Data d)
    then have "cs_unpushedReadMessages st = []" using inv legal by (auto simp: cs_inv_def)
    moreover have "length (frame_msgs (frame_of st) d) \<le> (B + 4) div 5"
      using frame_msgs_bound [of "frame_of st" d] b l Data
      by (auto simp: bounded_def chunk_legal_def intro: le_trans div_le_mono)
    ultimately show ?thesis using le one b Data frame_run_ok [of "frame_of st" d] by (auto simp: bounded_def)
  next
    case EndOfStream
    then show ?thesis using le one b legal by (auto simp: bounded_def)
  qed (use le one b in \<open>auto simp: bounded_def\<close>)
  with step show ?thesis by simp
qed

interpretation bounded_machine: machine "cs_step env" "chunk_legal B" "bounded B"
  for env :: cs_env and B :: nat
  by unfold_locales (rule bounded_step)

lemma chunk_legal_run:
  "legal_run (cs_step env) (chunk_legal B) st es \<longleftrightarrow>
   legal_run (cs_step env) cs_legal st es \<and> (\<forall>d. Data d \<in> set es \<longrightarrow> length d \<le> B)"
  by (induction es arbitrary: st) (auto simp: chunk_legal_def)

text \<open>The bounds, read off the fields of the class.\<close>

definition within :: "nat \<Rightarrow> ('c, 'o) call_stream \<Rightarrow> bool" where
  "within B st \<longleftrightarrow>
     (case cs_readState st of
        NO_DATA \<Rightarrow> True
      | READING_SIZE \<Rightarrow> length (cs_readPartialSize st) = 4 \<and> cs_readSizeRemaining st \<in> {1..4} \<and> cs_readPartialMessage st = []
      | READING_MESSAGE \<Rightarrow>
          length (concat (cs_readPartialMessage st)) < cs_readMessageSize st \<and> cs_readMessageSize st < 2 ^ 32) \<and>
     length (cs_unpushedReadMessages st) \<le> (B + 4) div 5 + 1 \<and>
     (cs_unpushedReadMessages st \<noteq> [] \<longrightarrow> cs_paused st)"

lemma bounded_within: "bounded B st \<Longrightarrow> within B st"
  by (cases "cs_readState st") (auto simp: bounded_def within_def cs_inv_def reader_inv_def frame_of_def split: if_splits)

end
