(* ===== verification/HealthEnds.thy ===== *)
theory HealthEnds
  imports HealthFacts
begin

text \<open>
  The client constructor of \<open>health_grpc_pb.js\<close> and the registration of the health service: the
  client's \<open>check\<close> and the handler of the server meet on the service definition, and a check made
  with what they were given there reaches the status map.
\<close>

definition HealthClient ::
  "('m, 'w, 'r) jspb \<Rightarrow>
   js_exn + ('m health_arg \<Rightarrow> err_obj + bytes, bytes option \<Rightarrow> (err_obj + 'm) option) client_method obj" where
  "HealthClient J = makeClientConstructor (HealthService J) None"

text \<open>The methods of \<open>HealthImplementation\<close> by name, as \<open>addService\<close> looks them up.\<close>

definition health_implementation ::
  "('m, 'w, 'r) jspb \<Rightarrow> path_get \<Rightarrow> health_map \<Rightarrow>
   string \<Rightarrow> ('m health_arg, 'm) unary_handler option" where
  "health_implementation J lodash_get statusMap name =
     (if name = ''check'' then Some (health_handler J lodash_get statusMap) else None)"

lemma health_ends:
  fixes J :: "('m, 'w, 'r) jspb"
  shows "\<exists>proto c srv' eff entry.
    HealthClient J = Inr proto \<and> map_of proto ''check'' = Some c \<and> cm_kind c = ClUnary \<and>
    addService v (Some (HealthService J)) (Some (health_implementation J lodash_get statusMap)) server_new =
      (srv', eff :: (('m health_arg, 'm) unary_handler, _, _, 'call) srv_effect list, None) \<and>
    snd (handleNewCall (Inr (call, Some (cm_path c), md)) srv') =
      [RequestCall, HandleCall Unary call entry (nm_fromCoreRepresentation md)] \<and>
    hd_func entry = Bound (health_handler J lodash_get statusMap) \<and>
    cm_serialize c = serialize_HealthCheckRequest J \<and> cm_deserialize c = deserialize_HealthCheckResponse J \<and>
    hd_serialize entry = serialize_HealthCheckResponse J \<and> hd_deserialize entry = deserialize_HealthCheckRequest J"
proof -
  obtain attrs where svc: "HealthService J = [(''check'', attrs)]"
    and attrs: "at_path attrs = ''/grpc.health.v1.Health/Check''" "requester_kind attrs = ClUnary"
      "at_requestSerialize attrs = serialize_HealthCheckRequest J" "at_responseDeserialize attrs = deserialize_HealthCheckResponse J"
      "at_responseSerialize attrs = serialize_HealthCheckResponse J" "at_requestDeserialize attrs = deserialize_HealthCheckRequest J"
    by (simp add: HealthService_def requester_kind_def)
  have "obj_wf (HealthService J)" "\<forall>k. has_own (HealthService J) k \<longrightarrow> take 1 k \<noteq> ''$''" "(''check'', attrs) \<in> set (HealthService J)"
    "distinct (map (at_path \<circ> snd) (HealthService J))" "\<forall>e \<in> set (HealthService J). at_path (snd e) \<noteq> ''__proto__''"
    using attrs(1) by (auto simp: svc obj_wf_def has_own_def split: if_splits)
  from both_ends [OF this, of v "health_implementation J lodash_get statusMap" call md]
  obtain proto srv' and eff :: "(('m health_arg, 'm) unary_handler, _, _, 'call) srv_effect list"
    where e: "makeClientConstructor (HealthService J) None = Inr proto" "map_of proto ''check'' = Some (client_method_for attrs)"
      "addService v (Some (HealthService J)) (Some (health_implementation J lodash_get statusMap)) server_new = (srv', eff, None)"
      "snd (handleNewCall (Inr (call, Some (at_path attrs), md)) srv') =
        [RequestCall, HandleCall (handled_as (requester_kind attrs)) call
          (entry_for (health_implementation J lodash_get statusMap) ''check'' attrs) (nm_fromCoreRepresentation md)]" by blast
  then show ?thesis
    by (intro exI [of _ proto] exI [of _ "client_method_for attrs"] exI [of _ srv'] exI [of _ eff]
        exI [of _ "entry_for (health_implementation J lodash_get statusMap) ''check'' attrs"])
      (simp add: HealthClient_def client_method_for_def entry_for_def find_impl_def health_implementation_def attrs)
qed

end
