(* ===== verification/NativeSurface.thy ===== *)
theory NativeSurface
  imports ClientObject
begin

text \<open>
  The logging settings of \<open>common.js\<close> and \<open>index.js\<close>, and the methods of the native client and its calls
  that pass on to the extension: \<open>close\<close>, \<open>getChannel\<close>, \<open>cancel\<close>, \<open>getPeer\<close> and their exported
  wrappers.
\<close>

section \<open>Logging\<close>

text \<open>The logger and the verbosity of the JavaScript code, and what the extension was told: without a
  callback it logs to the standard output.\<close>

record 'l logging =
  lg_logger :: 'l
  lg_verbosity :: int
  lg_core_logger :: "'l option"
  lg_core_verbosity :: "int option"

definition logging_new :: "'l \<Rightarrow> 'l logging" where
  "logging_new console = \<lparr>lg_logger = console, lg_verbosity = 0, lg_core_logger = None, lg_core_verbosity = None\<rparr>"

definition setLogger :: "'l \<Rightarrow> 'l logging \<Rightarrow> 'l logging" where
  "setLogger logger lg = lg\<lparr>lg_logger := logger, lg_core_logger := Some logger\<rparr>"

definition setLogVerbosity :: "int \<Rightarrow> 'l logging \<Rightarrow> 'l logging" where
  "setLogVerbosity verbosity lg = lg\<lparr>lg_verbosity := verbosity, lg_core_verbosity := Some verbosity\<rparr>"

text \<open>The calls of \<open>logger.error\<close> that \<open>log\<close> makes.\<close>

definition js_log :: "int \<Rightarrow> string \<Rightarrow> 'l logging \<Rightarrow> ('l \<times> string) list" where
  "js_log severity message lg = map (Pair (lg_logger lg)) (common_log (lg_verbosity lg) severity message)"

text \<open>Node's \<open>path.basename\<close>: the last component, without slashes at the end.\<close>

definition basename :: "string \<Rightarrow> string" where
  "basename path = rev (takeWhile (\<lambda>c. c \<noteq> CHR ''/'') (dropWhile (\<lambda>c. c = CHR ''/'') (rev path)))"

definition log_template :: "string \<Rightarrow> string \<Rightarrow> string \<Rightarrow> string \<Rightarrow> string \<Rightarrow> string" where
  "log_template severity timestamp file line message =
     severity @ '' '' @ timestamp @ [char_of (9 :: nat)] @ file @ '':'' @ line @ '']'' @ [char_of (9 :: nat)] @ message"

text \<open>A message of the extension; the time is the text of \<open>toISOString\<close>.\<close>

definition core_log :: "string \<Rightarrow> int \<Rightarrow> int \<Rightarrow> string \<Rightarrow> string \<Rightarrow> 'l logging \<Rightarrow> ('l \<times> string) list" where
  "core_log file line severity message timestamp lg =
     (case lg_core_logger lg of
        None \<Rightarrow> []
      | Some logger \<Rightarrow> [(logger, log_template (int_digits severity) timestamp (basename file) (int_digits line) message)])"

datatype 'l log_setting = SetLogger 'l | SetVerbosity int

fun apply_setting :: "'l log_setting \<Rightarrow> 'l logging \<Rightarrow> 'l logging" where
  "apply_setting (SetLogger l) = setLogger l"
| "apply_setting (SetVerbosity v) = setLogVerbosity v"

lemmas logging_defs = logging_new_def setLogger_def setLogVerbosity_def

text \<open>Both sources of messages agree: once a logger is set, JavaScript and the extension use the same
  one, and the verbosity set last is in force in both.\<close>

lemma loggers_agree:
  "let lg = fold apply_setting settings (logging_new console) in
   (case lg_core_logger lg of None \<Rightarrow> lg_logger lg = console | Some l \<Rightarrow> lg_logger lg = l) \<and>
   (case lg_core_verbosity lg of None \<Rightarrow> lg_verbosity lg = 0 | Some v \<Rightarrow> lg_verbosity lg = v)"
proof (induction settings rule: rev_induct)
  case (snoc x xs)
  then show ?case by (cases x) (auto simp: logging_defs Let_def split: option.splits)
qed (simp add: logging_defs)

lemma log_after_settings:
  "js_log severity message (setLogVerbosity v (setLogger l lg)) = (if severity \<ge> v then [(l, message)] else [])"
  by (simp add: js_log_def common_log_def logging_defs)

lemma basename_no_slash: "CHR ''/'' \<notin> set (basename path)"
  by (auto simp: basename_def dest: set_takeWhileD)

lemma basename_file: "CHR ''/'' \<notin> set file \<Longrightarrow> file \<noteq> [] \<Longrightarrow> basename (dir @ ''/'' @ file) = file"
proof -
  assume a: "CHR ''/'' \<notin> set file" "file \<noteq> []"
  then obtain c cs where c: "rev file = c # cs" by (cases "rev file") auto
  then have n: "CHR ''/'' \<notin> set (c # cs)" using a(1) by (metis set_rev)
  then have "c \<noteq> CHR ''/''" and d: "takeWhile (\<lambda>x. x \<noteq> CHR ''/'') (cs @ CHR ''/'' # rev dir) = cs"
    by (auto simp: takeWhile_tail takeWhile_append)
  moreover have "rev (c # cs) = file" using c by (metis rev_rev_ident)
  ultimately show ?thesis by (auto simp: basename_def)
qed

section \<open>Methods passed on to the extension\<close>

datatype ('chan, 'call) extension_call = ChannelClose 'chan | CallCancel 'call

record 'chan native_client =
  nclient_channel :: 'chan

definition client_close :: "'chan native_client \<Rightarrow> ('chan, 'call) extension_call list" where
  "client_close client = [ChannelClose (nclient_channel client)]"

definition closeClient :: "'chan native_client \<Rightarrow> ('chan, 'call) extension_call list" where
  "closeClient client_obj = client_close client_obj"

definition getChannel :: "'chan native_client \<Rightarrow> 'chan" where
  "getChannel client = nclient_channel client"

definition getClientChannel :: "'chan native_client \<Rightarrow> 'chan" where
  "getClientChannel client = getChannel client"

definition native_cancel :: "'call \<Rightarrow> ('chan, 'call) extension_call list" where
  "native_cancel call = [CallCancel call]"

text \<open>\<open>peer_of\<close> is the method of the extension's call.\<close>

definition native_getPeer :: "('call \<Rightarrow> string) \<Rightarrow> 'call \<Rightarrow> string" where
  "native_getPeer peer_of call = peer_of call"

text \<open>The objects of server calls have the same method.\<close>

definition server_getPeer :: "('call \<Rightarrow> string) \<Rightarrow> 'call \<Rightarrow> string" where
  "server_getPeer peer_of call = peer_of call"

text \<open>The first state of the channel is an argument, as for \<open>waitForReady\<close>.\<close>

definition waitForClientReady :: "connectivity \<Rightarrow> ready_state \<times> ready_effect list" where
  "waitForClientReady state = ready_step NotAsked (AskReady state)"

lemma waitForClientReady_answers:
  "fst (waitForClientReady state) = Answered \<longleftrightarrow> state = ConnReady \<or> state = ConnFatalFailure"
  by (cases state) (simp_all add: waitForClientReady_def checkState_def)

end
