(* ===== verification/MetadataTypes.thy ===== *)
theory MetadataTypes
  imports CoreMetadata
begin

text \<open>
  The values a js-core metadata object can hold. \<open>built\<close> is every object the operations of
  \<open>grpc-js-core/src/metadata.ts\<close> can make, with merges and copies of objects made the same way.
\<close>

inductive built :: "metadata \<Rightarrow> bool" where
  built_new: "built []"
| built_set: "built m \<Longrightarrow> cm_set key v m = Inr m' \<Longrightarrow> built m'"
| built_add: "built m \<Longrightarrow> cm_add key v m = Inr m' \<Longrightarrow> built m'"
| built_remove: "built m \<Longrightarrow> cm_remove key m = Inr m' \<Longrightarrow> built m'"
| built_merge: "built m \<Longrightarrow> built other \<Longrightarrow> cm_merge m other = Inr m' \<Longrightarrow> built m'"
| built_clone: "built m \<Longrightarrow> built (cm_clone m)"
| built_headers: "cm_fromHttp2Headers h = Inr m \<Longrightarrow> built m"

lemma cm_merge_entry_valid:
  assumes "md_valid m" and "cm_isLegalKey (fst e)" and "\<forall>v \<in> set (snd e). cm_validate (fst e) (Some v) = Inr ()"
    and "cm_merge_entry e m = Inr m'"
  shows "md_valid m'"
  using assms
  by (fastforce simp: cm_merge_entry_def split: option.splits if_splits dest: md_valid_lookup intro!: md_valid_put)

lemma md_valid_entry:
  "md_valid m \<Longrightarrow> e \<in> set m \<Longrightarrow> cm_isLegalKey (fst e) \<and> (\<forall>v \<in> set (snd e). cm_validate (fst e) (Some v) = Inr ())"
  by (cases e) (auto simp: md_valid_def)

lemma cm_merge_valid: "md_valid m \<Longrightarrow> md_valid other \<Longrightarrow> cm_merge m other = Inr m' \<Longrightarrow> md_valid m'"
  unfolding cm_merge_def
  by (erule fold_res_invariant [where I = md_valid]) (auto dest: md_valid_entry intro: cm_merge_entry_valid)

lemma from_http2_entry_valid: "md_valid r \<Longrightarrow> from_http2_entry e r = Inr r' \<Longrightarrow> md_valid r'"
proof -
  have list: "md_valid r'" if "md_valid r" "fold_res (\<lambda>v r. cm_add k (g v) r) vs r = Inr r'" for k r r' and g and vs :: "string list"
    using that(2,1) by (rule fold_res_invariant [where I = md_valid]) (auto intro: cm_add_valid)
  assume "md_valid r" and "from_http2_entry e r = Inr r'"
  then show ?thesis
    by (cases e) (auto simp: and_then_eq_Inr split: if_splits hdr_value.splits dest: cm_add_valid list)
qed

lemma from_http2_valid: "cm_fromHttp2Headers h = Inr m \<Longrightarrow> md_valid m"
  unfolding cm_fromHttp2Headers_def
  by (erule fold_res_invariant [where I = md_valid]) (auto intro: from_http2_entry_valid)

lemma cm_clone_valid: "md_valid m \<Longrightarrow> md_valid (cm_clone m)"
proof -
  assume m: "md_valid m"
  have "md_valid (fold (\<lambda>e result. obj_put (fst e) (snd e) result) es acc)"
    if "md_valid acc" "set es \<subseteq> set m" for es acc
    using that
  proof (induction es arbitrary: acc)
    case (Cons e es)
    with md_valid_entry [OF m, of e] have "md_valid (obj_put (fst e) (snd e) acc)" by (intro md_valid_put) auto
    with Cons show ?case by simp
  qed simp
  from this [of "[]" "own_entries m"] show ?thesis
    by (simp add: cm_clone_def cm_cloneMetadataObject_def clone_value_id)
qed

lemma built_valid: "built m \<Longrightarrow> md_valid m"
  by (induction rule: built.induct)
    (auto intro: cm_set_valid cm_add_valid cm_remove_valid cm_merge_valid cm_clone_valid from_http2_valid)

text \<open>The type of a value under its key.\<close>

fun value_typed :: "string \<Rightarrow> md_value \<Rightarrow> bool" where
  "value_typed key (MBuffer b) \<longleftrightarrow> cm_isBinaryKey key"
| "value_typed key (MString s) \<longleftrightarrow> \<not> cm_isBinaryKey key \<and> cm_isLegalNonBinaryValue s"

lemma validate_typed: "cm_validate key (Some v) = Inr () \<Longrightarrow> value_typed key v"
  by (cases v) (auto simp: cm_validate_def split: if_splits)

lemma get_typed:
  assumes "md_valid m" and "cm_get key m = Inr vs" and "v \<in> set vs"
  shows "value_typed (cm_normalizeKey key) v"
proof -
  from assms(2,3) have "map_of m (cm_normalizeKey key) = Some vs"
    by (auto simp: cm_get_def Let_def and_then_eq_Inr split: option.splits)
  with md_valid_lookup [OF assms(1) this] assms(3) show ?thesis by (auto intro: validate_typed)
qed

end
