(* ===== verification/CallHeaders.thy ===== *)
theory CallHeaders
  imports Channel
begin

text \<open>
  What a js-core call sends before its messages: the metadata after the filters of the channel, and
  the headers of the http2 request made from it.
\<close>

section \<open>The filters of the channel\<close>

abbreviation sent_metadata :: "'o channel_credentials \<Rightarrow> 'o call_options \<Rightarrow> int option \<Rightarrow> metadata \<Rightarrow> metadata promise" where
  "sent_metadata credentials opts connected m \<equiv>
     stack_sendMetadata connected (stack_createFilter (channel_factories credentials) opts) (Fulfilled m)"

text \<open>The values of the headers that every call has.\<close>

definition with_encoding :: "(string \<Rightarrow> md_value list) \<Rightarrow> string \<Rightarrow> md_value list" where
  "with_encoding f = f(''grpc-encoding'' := [MString ''identity''], ''grpc-accept-encoding'' := [MString ''identity''])"

lemma sent_metadata_filters:
  "sent_metadata credentials opts connected m =
     deadline_sendMetadata (opt_deadline opts) connected (compression_sendMetadata (Fulfilled m))"
  by (simp add: stack_sendMetadata_def stack_createFilter_def channel_factories_def)

lemma timeout_string_None: "timeout_string t = None \<longleftrightarrow> 360000000000000 \<le> t"
  by (simp add: units_cases)

lemma sent_metadata_infinite:
  assumes "obj_wf m" and "deadline_ms (opt_deadline opts) = None"
  shows "\<exists>m'. sent_metadata credentials opts connected m = Fulfilled m' \<and> obj_wf m' \<and>
    md_values m' = with_encoding (md_values m)"
  using compression_send_values [OF assms(1)] assms(2)
  by (auto simp: sent_metadata_filters deadline_sendMetadata_def with_encoding_def)

lemma sent_metadata_timeout:
  assumes "obj_wf m" and "deadline_ms (opt_deadline opts) = Some d" and "timeout_string (d - now) = Some s"
  shows "\<exists>m'. sent_metadata credentials opts (Some now) m = Fulfilled m' \<and> obj_wf m' \<and>
    md_values m' = (with_encoding (md_values m))(''grpc-timeout'' := [MString s])"
  using compression_send_values [OF assms(1)] deadline_send_values [OF _ assms(2,3)]
  by (fastforce simp: sent_metadata_filters with_encoding_def)

lemma sent_metadata_pending:
  assumes "obj_wf m" and "deadline_ms (opt_deadline opts) = Some d"
    and "case connected of None \<Rightarrow> True | Some now \<Rightarrow> timeout_string (d - now) = None"
  shows "sent_metadata credentials opts connected m = Pending"
  using compression_send_values [OF assms(1)] assms(2,3)
  by (auto simp: sent_metadata_filters deadline_sendMetadata_def split: option.splits)

section \<open>The headers of the request\<close>

abbreviation request_keys :: "string list" where
  "request_keys \<equiv> ['':authority'', ''content-type'', '':method'', '':path'', ''te'']"

lemma request_headers_of:
  assumes "obj_wf m"
  shows "map_of (request_headers hostname methodName m) k =
    (case map_of [('':authority'', HStr hostname), (''content-type'', HStr ''application/grpc''), ('':method'', HStr ''POST''),
        ('':path'', HStr methodName), (''te'', HStr ''trailers'')] k of
       Some h \<Rightarrow> Some h
     | None \<Rightarrow> map_option (\<lambda>vs. HList (map http2_value vs)) (map_of m k))"
  using toHttp2_map_of [OF assms, of k] by (simp add: request_headers_def obj_simps)

end
