(* ===== verification/NativeCredentials.thy ===== *)
theory NativeCredentials
  imports Common
begin

text \<open>
  \<open>grpc-native-core/src/credentials.js\<close>. The C++ credentials objects are a parameter: their \<open>compose\<close> is
  the argument \<open>compose\<close>, and a plugin is the function it is created from, from the service URL to
  what the C++ side is called back with.
\<close>

section \<open>Metadata generators\<close>

text \<open>The own property \<open>code\<close> of an error: absent, a finite number, or something else.\<close>

datatype code_slot = NoCode | FiniteCode int | OtherCode

record gen_error =
  ge_name :: string
  ge_message :: string
  ge_code :: code_slot

text \<open>What \<open>'' + err\<close> gives: \<open>Error.prototype.toString\<close>.\<close>

definition gen_error_text :: "gen_error \<Rightarrow> string" where
  "gen_error_text err =
     (if ge_name err = [] then ge_message err
      else if ge_message err = [] then ge_name err
      else ge_name err @ '': '' @ ge_message err)"

record plugin_result =
  pr_code :: int
  pr_message :: string
  pr_metadata :: metadata

definition plugin_callback :: "gen_error option \<Rightarrow> metadata option \<Rightarrow> js_exn + plugin_result" where
  "plugin_callback error metadata =
     (let code = status_code OK;
          message = '''';
          (code, message, metadata) =
            (case error of
               Some e \<Rightarrow>
                 (case ge_code e of FiniteCode c \<Rightarrow> c | _ \<Rightarrow> status_code UNAUTHENTICATED, ge_message e,
                  case metadata of Some m \<Rightarrow> Some m | None \<Rightarrow> Some nm_empty)
             | None \<Rightarrow> (code, message, metadata))
      in case metadata of
           None \<Rightarrow> Inl (JsTypeError ''Cannot read property '_getCoreRepresentation' of undefined'')
         | Some m \<Rightarrow> Inr \<lparr>pr_code = code, pr_message = message, pr_metadata = nm_getCoreRepresentation m\<rparr>)"

text \<open>A generator is known by the arguments of its one call of the callback, for a service URL.\<close>

definition native_createFromMetadataGenerator ::
  "(string \<Rightarrow> gen_error option \<times> metadata option) \<Rightarrow> string \<Rightarrow> js_exn + plugin_result" where
  "native_createFromMetadataGenerator metadata_generator service_url =
     (let (error, metadata) = metadata_generator service_url in plugin_callback error metadata)"

text \<open>Google credentials call back with an error or the header \<open>Authorization\<close>. The result is what is
  logged and what the plugin does; an exception of \<open>metadata.add\<close> goes to the credentials object.\<close>

definition createFromGoogleCredential ::
  "native_ext \<Rightarrow> int \<Rightarrow> (string \<Rightarrow> gen_error + md_arg) \<Rightarrow> string \<Rightarrow> string list \<times> (js_exn + plugin_result)" where
  "createFromGoogleCredential ext verbosity google_credential service_url =
     (case google_credential service_url of
        Inl err \<Rightarrow> (common_log verbosity 1 (''Auth error:'' @ gen_error_text err), plugin_callback (Some err) None)
      | Inr header \<Rightarrow>
          ([], and_then (nm_add ext ''authorization'' header nm_empty) (\<lambda>metadata. plugin_callback None (Some metadata))))"

section \<open>Combining\<close>

definition combineChannelCredentials :: "('c \<Rightarrow> 'd \<Rightarrow> js_exn + 'c) \<Rightarrow> 'c \<Rightarrow> 'd list \<Rightarrow> js_exn + 'c" where
  "combineChannelCredentials compose channel_credential credentials =
     fold_res (\<lambda>cred current. compose current cred) credentials channel_credential"

text \<open>Without arguments the result is undefined.\<close>

definition combineCallCredentials :: "('d \<Rightarrow> 'd \<Rightarrow> 'd) \<Rightarrow> 'd list \<Rightarrow> 'd option" where
  "combineCallCredentials compose credentials =
     (case credentials of [] \<Rightarrow> None | c # cs \<Rightarrow> Some (fold (\<lambda>cred current. compose current cred) cs c))"

lemma combine_split:
  "combineChannelCredentials compose c (xs @ ys) =
   and_then (combineChannelCredentials compose c xs) (\<lambda>c'. combineChannelCredentials compose c' ys)"
  by (simp add: combineChannelCredentials_def fold_res_append)

text \<open>The plugin reports success exactly when the generator gave no error (or one whose code is OK).\<close>

lemma plugin_code:
  "plugin_callback error metadata = Inr r \<Longrightarrow>
   pr_code r = (case error of None \<Rightarrow> status_code OK
                | Some e \<Rightarrow> (case ge_code e of FiniteCode c \<Rightarrow> c | _ \<Rightarrow> status_code UNAUTHENTICATED))"
  by (auto simp: plugin_callback_def Let_def split: option.splits)

lemma plugin_total: "error \<noteq> None \<or> metadata \<noteq> None \<Longrightarrow> \<exists>r. plugin_callback error metadata = Inr r"
  by (auto simp: plugin_callback_def Let_def split: option.splits)

section \<open>Every outcome of a generator\<close>

lemma plugin_results_are_total:
  fixes metadata_generator and service_url :: string
  defines "result \<equiv> native_createFromMetadataGenerator metadata_generator service_url"
  shows "case metadata_generator service_url of
      (Some e, md) \<Rightarrow> \<exists>m. result = Inr \<lparr>pr_code = (case ge_code e of FiniteCode c \<Rightarrow> c | _ \<Rightarrow> 16), pr_message = ge_message e, pr_metadata = m\<rparr>
    | (None, Some m) \<Rightarrow> result = Inr \<lparr>pr_code = 0, pr_message = [], pr_metadata = m\<rparr>
    | (None, None) \<Rightarrow> (\<exists>exn. result = Inl exn)"
  by (auto simp: result_def native_createFromMetadataGenerator_def plugin_callback_def nm_getCoreRepresentation_def
      split: option.split code_slot.split)

end
