(* ===== verification/BuildTasks.thy ===== *)
theory BuildTasks
  imports NativeSurface
begin

text \<open>
  The build scripts: the gulp tasks of the packages and of the repository, what they start and which
  other tasks run before them, and the wrappers of \<open>protoc\<close> in grpc-tools. gulp runs the dependencies
  of a task before the task, each once; the plugins are known by what they are given.
\<close>

section \<open>Paths and flags\<close>

text \<open>\<open>path.resolve\<close> of an absolute directory and a plain name.\<close>

definition resolve_in :: "string \<Rightarrow> string \<Rightarrow> string" where
  "resolve_in dir name = dir @ ''/'' @ name"

text \<open>Node's \<open>path.dirname\<close>, and \<open>path.basename\<close> with an extension to cut off.\<close>

definition dirname :: "string \<Rightarrow> string" where
  "dirname path =
     (let r = dropWhile (\<lambda>c. c \<noteq> CHR ''/'') (dropWhile (\<lambda>c. c = CHR ''/'') (rev path)) in
      if r \<noteq> [] then (let d = dropWhile (\<lambda>c. c = CHR ''/'') r in if d = [] then ''/'' else rev d)
      else if path \<noteq> [] \<and> hd path = CHR ''/'' then ''/'' else ''.'')"

definition basename_ext :: "string \<Rightarrow> string \<Rightarrow> string" where
  "basename_ext path ext =
     (let b = basename path; n = length b - length ext in
      if length ext < length b \<and> drop n b = ext then take n b else b)"

datatype file_flag = NoFile | OneFile string | ManyFiles "string list"

text \<open>\<open>files\<close>: an empty text is no file.\<close>

fun file_list :: "file_flag \<Rightarrow> string list" where
  "file_list NoFile = []"
| "file_list (OneFile f) = (if f = '''' then [] else [f])"
| "file_list (ManyFiles fs) = fs"

definition tsDevOptions :: "bool \<Rightarrow> bool obj" where
  "tsDevOptions dev =
     (if dev then
        [(''allowUnreachableCode'', True), (''noUnusedParameters'', False), (''noImplicitAny'', False),
         (''noImplicitThis'', False), (''noEmitOnError'', False)]
      else [])"

section \<open>Tasks\<close>

text \<open>What a compile task reads and where its four outputs go. The maps refer to the sources relative to
  \<open>cj_sourceRoot\<close>, the parent directory, and do not include them.\<close>

datatype compile_output = OutJs | OutTypes | OutMaps | OutCopied

record compile_job =
  cj_tsconfig :: string
  cj_base :: string
  cj_sourceRoot :: string
  cj_transpile :: "string list"
  cj_copy :: string
  cj_options :: "bool obj"
  cj_outputs :: "(compile_output \<times> string) list"

datatype build_action =
    NoAction
  | Exec string "string list" string
  | TsLint string "string list"
  | JsLint "string list"
  | Delete string
  | Compile compile_job
  | MochaRun "string list"
  | MochaSingle "string list"
  | StartTask string

record build_task =
  bt_name :: string
  bt_deps :: "string list"
  bt_action :: build_action

definition task :: "string \<Rightarrow> string list \<Rightarrow> build_action \<Rightarrow> build_task" where
  "task name deps action = \<lparr>bt_name = name, bt_deps = deps, bt_action = action\<rparr>"

definition makeCompileFn :: "string \<Rightarrow> bool \<Rightarrow> string list option \<Rightarrow> string option \<Rightarrow> compile_job" where
  "makeCompileFn jsCoreDir dev transpile copy =
     (let srcDir = resolve_in jsCoreDir ''src''; outDir = resolve_in jsCoreDir ''build'' in
      \<lparr>cj_tsconfig = resolve_in jsCoreDir ''tsconfig.json'', cj_base = jsCoreDir, cj_sourceRoot = dirname jsCoreDir,
       cj_transpile = (case transpile of Some g \<Rightarrow> g | None \<Rightarrow> [srcDir @ ''/**/*.ts'']),
       cj_copy = (case copy of Some g \<Rightarrow> (if g = '''' then ''!('' @ ''**/*)'' else g) | None \<Rightarrow> ''!('' @ ''**/*)''),
       cj_options = tsDevOptions dev,
       cj_outputs = [(OutJs, outDir), (OutTypes, outDir @ ''/types''), (OutMaps, outDir), (OutCopied, outDir)]\<rparr>)"

text \<open>\<open>relative\<close> is \<open>path.relative\<close> from the working directory.\<close>

definition getTranspiledPath :: "(string \<Rightarrow> string) \<Rightarrow> string \<Rightarrow> string \<Rightarrow> string" where
  "getTranspiledPath relative outDir file =
     (let dir = dirname (relative file); base = basename_ext file ''.ts''
      in outDir @ ''/'' @ dir @ ''/'' @ base @ ''.js'')"

text \<open>The outcome of running a single test file.\<close>

definition single_result :: "int \<Rightarrow> string \<Rightarrow> js_exn option" where
  "single_result failures path =
     (if failures > 0 then Some (JsError (''Mocha: '' @ int_digits failures @ '' failures in '' @ path @ '']'')) else None)"

definition js_core_tasks :: "(string \<Rightarrow> string) \<Rightarrow> string \<Rightarrow> file_flag \<Rightarrow> bool \<Rightarrow> build_task list" where
  "js_core_tasks relative jsCoreDir flag dev =
     (let outDir = resolve_in jsCoreDir ''build''; srcDir = resolve_in jsCoreDir ''src''; testDir = resolve_in jsCoreDir ''test'';
          files = file_list flag in
      [task ''js.core.install'' [] (Exec ''npm'' [''install''] jsCoreDir),
       task ''js.core.lint'' [] (TsLint (resolve_in jsCoreDir ''node_modules/google-ts-style/tslint.json'') [srcDir @ ''/**/*.ts'', testDir @ ''/**/*.ts'']),
       task ''js.core.clean'' [] (Delete outDir),
       task ''js.core.compile'' [] (Compile (makeCompileFn jsCoreDir dev (Some [srcDir @ ''/**/*.ts'']) None)),
       task ''js.core.test.compile'' [''js.core.compile'']
         (Compile (makeCompileFn jsCoreDir dev (Some [testDir @ ''/**/*.ts'']) (Some (testDir @ ''/**/!('' @ ''*.ts)'')))),
       task ''js.core.test'' [''js.core.test.compile''] (MochaRun [outDir @ ''/test/**/*.js'']),
       task ''js.core.compile.single'' [] (Compile (makeCompileFn jsCoreDir dev (Some (map relative files)) None)),
       task ''js.core.test.single'' [''js.core.compile'', ''js.core.compile.single'']
         (MochaSingle (map (getTranspiledPath relative outDir) files))])"

definition native_tasks :: "string \<Rightarrow> build_task list" where
  "native_tasks dir =
     (let srcDir = resolve_in dir ''src''; testDir = resolve_in dir ''test'' in
      [task ''native.core.install'' [] (Exec ''npm'' [''install'', ''--build-from-source''] dir),
       task ''native.core.link.create'' [''native.core.install''] (Exec ''npm'' [''link''] dir),
       task ''native.core.lint'' [] (JsLint [dir @ ''/index.js'', srcDir @ ''/*.js'', testDir @ ''/*.js'']),
       task ''native.core.build'' [] (Exec ''node-pre-gyp'' [''build''] dir),
       task ''native.core.test'' [''native.core.build''] (MochaRun [testDir @ ''/*.js''])])"

definition health_tasks :: "string \<Rightarrow> build_task list" where
  "health_tasks dir =
     [task ''health-check.install'' [] (Exec ''npm'' [''install''] dir),
      task ''health-check.link.add'' [''health-check.install''] (Exec ''npm'' [''link'', ''grpc''] dir),
      task ''health-check.test'' [] (MochaRun [resolve_in dir ''test'' @ ''/*.js''])]"

definition internal_test_tasks :: "string \<Rightarrow> build_task list" where
  "internal_test_tasks dir =
     [task ''internal.test.link.add'' [] (Exec ''npm'' [''link'', ''grpc''] dir),
      task ''internal.test.test'' [] (MochaRun [resolve_in dir ''api'' @ ''/*.js''])]"

definition root_tasks :: "build_task list" where
  "root_tasks =
     [task ''install.all'' [''js.core.install'', ''native.core.install'', ''health-check.install''] NoAction,
      task ''lint'' [''js.core.lint'', ''native.core.lint''] NoAction,
      task ''build'' [''js.core.compile'', ''native.core.build''] NoAction,
      task ''link.create'' [''native.core.link.create''] NoAction,
      task ''link.only'' [''health-check.link.add'', ''internal.test.link.add''] NoAction,
      task ''link'' [''link.create''] (StartTask ''link.only''),
      task ''setup'' [''install.all'', ''link''] NoAction,
      task ''clean'' [''js.core.clean''] NoAction,
      task ''native.test.only'' [''native.core.test'', ''internal.test.test'', ''health-check.test''] NoAction,
      task ''native.test'' [''build''] (StartTask ''native.test.only''),
      task ''test.only'' [''js.core.test'', ''native.test.only''] NoAction,
      task ''test'' [''build''] (StartTask ''test.only''),
      task ''default'' [''help''] NoAction]"

text \<open>All tasks in the order the files are loaded; \<open>help\<close> is the task of gulp-help.\<close>

definition all_tasks :: "(string \<Rightarrow> string) \<Rightarrow> string \<Rightarrow> file_flag \<Rightarrow> bool \<Rightarrow> build_task list" where
  "all_tasks relative root flag dev =
     task ''help'' [] NoAction # health_tasks (root @ ''/packages/grpc-health-check'') @
     js_core_tasks relative (root @ ''/packages/grpc-js-core'') flag dev @
     native_tasks (root @ ''/packages/grpc-native-core'') @ internal_test_tasks (root @ ''/test'') @ root_tasks"

lemmas task_tables =
  all_tasks_def health_tasks_def js_core_tasks_def native_tasks_def internal_test_tasks_def root_tasks_def Let_def task_def

section \<open>The order in which tasks run\<close>

text \<open>Every dependency is a task that was defined before, so there is no cycle.\<close>

fun deps_defined :: "string list \<Rightarrow> build_task list \<Rightarrow> bool" where
  "deps_defined known [] \<longleftrightarrow> True"
| "deps_defined known (t # ts) \<longleftrightarrow>
     set (bt_deps t) \<subseteq> set known \<and> bt_name t \<notin> set known \<and> deps_defined (bt_name t # known) ts"

lemma all_deps_defined: "deps_defined [] (all_tasks relative root flag dev)"
  by (simp add: task_tables)

lemma all_started_defined:
  "t \<in> set (all_tasks relative root flag dev) \<Longrightarrow> bt_action t = StartTask name \<Longrightarrow>
   name \<in> bt_name ` set (all_tasks relative root flag dev)"
  by (auto simp: task_tables)

text \<open>The tasks that run for a list of wanted ones, dependencies first; the argument lists the tasks
  with the last one first.\<close>

fun run_order :: "build_task list \<Rightarrow> string list \<Rightarrow> string list" where
  "run_order [] wanted = []"
| "run_order (t # ts) wanted =
     (if bt_name t \<in> set wanted then run_order ts (bt_deps t @ wanted) @ [bt_name t] else run_order ts wanted)"

lemma run_order_names: "set (run_order ts wanted) \<subseteq> bt_name ` set ts"
  by (induction ts arbitrary: wanted) auto

lemma run_order_wanted: "x \<in> set wanted \<Longrightarrow> x \<in> bt_name ` set ts \<Longrightarrow> x \<in> set (run_order ts wanted)"
  by (induction ts arbitrary: wanted) auto

lemma deps_defined_append:
  "deps_defined known (ts @ us) \<longleftrightarrow> deps_defined known ts \<and> deps_defined (rev (map bt_name ts) @ known) us"
  by (induction ts arbitrary: known) auto

lemma run_order_deps:
  "\<lbrakk>deps_defined [] ts; run_order (rev ts) wanted = before @ x # after; t \<in> set ts; bt_name t = x; d \<in> set (bt_deps t)\<rbrakk> \<Longrightarrow>
   d \<in> set before"
proof (induction ts arbitrary: wanted after rule: rev_induct)
  case (snoc u us)
  from snoc.prems(1) have defs: "deps_defined [] us" "set (bt_deps u) \<subseteq> bt_name ` set us" "bt_name u \<notin> bt_name ` set us"
    by (auto simp: deps_defined_append)
  let ?rest = "\<lambda>w. run_order (rev us) w"
  have names: "set (?rest w) \<subseteq> bt_name ` set us" for w using run_order_names [of "rev us" w] by simp
  show ?case
  proof (cases "bt_name u \<in> set wanted")
    case True
    then have split: "?rest (bt_deps u @ wanted) @ [bt_name u] = before @ x # after" using snoc.prems(2) by simp
    show ?thesis
    proof (cases "after = []")
      case True
      then have "?rest (bt_deps u @ wanted) = before" "bt_name u = x" using split by auto
      moreover from this have "bt_name t = bt_name u" using snoc.prems(4) by simp
      then have "t \<notin> set us" using defs(3) by (metis imageI)
      then have "t = u" using snoc.prems(3) by simp
      ultimately show ?thesis
        using run_order_wanted [of d "bt_deps u @ wanted" "rev us"] snoc.prems(5) defs(2) by auto
    next
      case False
      then obtain after' where "?rest (bt_deps u @ wanted) = before @ x # after'"
        using split by (cases after rule: rev_cases) auto
      moreover from this names [of "bt_deps u @ wanted"] have "t \<in> set us" using snoc.prems(3,4) defs(3) by auto
      ultimately show ?thesis using snoc.IH [OF defs(1)] snoc.prems(4,5) by blast
    qed
  next
    case False
    then have split: "?rest wanted = before @ x # after" using snoc.prems(2) by simp
    with names [of wanted] have "t \<in> set us" using snoc.prems(3,4) defs(3) by auto
    with snoc.IH [OF defs(1) split] snoc.prems(4,5) show ?thesis by blast
  qed
qed simp

section \<open>The wrappers of protoc\<close>

text \<open>A wrapper starts one program and passes its output, and for the plugin also the input, through.
  An error of the program is thrown.\<close>

datatype tool_effect = ExecFile string "string list" | PipeStdin | PipeStdout | PipeStderr

definition exe_ext :: "string \<Rightarrow> string" where
  "exe_ext platform = (if platform = ''win32'' then ''.exe'' else '''')"

definition run_protoc :: "string \<Rightarrow> string \<Rightarrow> string list \<Rightarrow> tool_effect list" where
  "run_protoc platform dir argv =
     (let protoc = resolve_in dir (''protoc'' @ exe_ext platform);
          plugin = resolve_in dir (''grpc_node_plugin'' @ exe_ext platform);
          args = [''--plugin=protoc-gen-grpc='' @ plugin] @ drop 2 argv
      in [ExecFile protoc args, PipeStdout, PipeStderr])"

definition run_protoc_plugin :: "string \<Rightarrow> string \<Rightarrow> string list \<Rightarrow> tool_effect list" where
  "run_protoc_plugin platform dir argv =
     (let plugin = resolve_in dir (''grpc_node_plugin'' @ exe_ext platform)
      in [ExecFile plugin (drop 2 argv), PipeStdin, PipeStdout, PipeStderr])"

definition tool_done :: "js_exn option \<Rightarrow> js_exn option" where
  "tool_done error = error"

end
