(* ===== verification/Findings.thy ===== *)
theory Findings
  imports CoreClient Protobuf HealthMessages BuildTasks
begin

text \<open>
  Behaviour of the code that its comments, its documentation or its callers do not expect: each lemma
  is a run or an equation of the model.
\<close>

section \<open>js-core\<close>

text \<open>A key that \<open>Object.prototype\<close> has cannot be added.\<close>

lemma add_constructor_throws:
  "cm_add ''constructor'' (MString ''x'') [] = Inl (JsTypeError ''this.internalRepr[key].push is not a function'')"
  by code_simp

text \<open>The call credentials filter adds nothing: it awaits a function instead of calling it.\<close>

lemma call_credentials_are_not_sent: "creds_sendMetadata credentials (Fulfilled m) = Fulfilled m"
  by simp

text \<open>A response whose http status Node gives as a number is never mapped: the cases of the switch are
  strings.\<close>

lemma numeric_status_not_mapped: "map_http_status (Some (HNum 404)) = UNKNOWN" "map_http_status (Some (HStr ''404'')) = UNIMPLEMENTED"
  by (simp_all add: map_http_status_def)

text \<open>A deadline more than 25 days ahead cancels the call after a millisecond.\<close>

lemma far_deadline_fires_at_once: "2147483647 < d - now \<Longrightarrow> deadline_timer (NumberAt d) now = Some 1"
  by (simp add: deadline_timer_def node_timer_delay_def)

text \<open>A remaining time that rounds up to 100000000 units is sent with nine digits, a passed deadline
  with a sign; the protocol allows eight digits.\<close>

lemma nine_digit_timeout: "timeout_string 99999999001 = Some ''100000000S''"
  by (simp add: units_cases ceil_div_def int_digits_def nat_digits.simps char_of_def bit_0)

lemma negative_timeout: "timeout_string (-5) = Some ''-5m''"
  by (simp add: units_cases ceil_div_def int_digits_def nat_digits.simps char_of_def bit_0)

text \<open>Closing a channel that never connected throws, after the channel is shut down.\<close>

lemma close_fresh_channel:
  "ch_close (ch_new :: nat channel) =
     (ch_new\<lparr>ch_state := SHUTDOWN\<rparr>, [StateChanged SHUTDOWN, ChThrow undefined_shutdown])"
  by (simp add: ch_close_def transitionToState_def ch_new_def shutdownSub_def)

text \<open>A connect event of the old session revives a channel that was closed.\<close>

lemma closed_channel_revived:
  "ch_state (final (ch_step env) (ch_new :: nat channel)
     ([ChConnect 0, ChClose, SessionConnected 0] :: (unit, nat) ch_event list)) = READY"
  by (simp add: channel_defs ch_new_def)

text \<open>A callback waiting for the connection is dropped when the connection attempt times out.\<close>

lemma timeout_drops_callbacks:
  "final (ch_step env) (ch_new :: nat channel)
     ([ChConnect 0, SessionTimeout 0] :: (unit, nat) ch_event list) =
   \<lparr>ch_state = IDLE, ch_sub = SubNull, ch_listeners = [], ch_sessions = 1\<rparr>"
  by (simp add: channel_defs ch_new_def)

text \<open>A status OK that is emitted before the message answers a unary call with null: here the message
  has arrived and waits to be emitted.\<close>

lemma ok_without_message:
  "answers (effects (uc_step \<lparr>push_result = \<lambda>_. True, decodeURI = Inr\<rparr>
       (\<lparr>cv_serialize = Inr, cv_deserialize = Inr, cv_push = \<lambda>_. True\<rparr> :: (bytes, bytes) core_env))
     (uc_new \<lparr>opt_deadline = Infinite, opt_credentials = createEmpty, opt_flags = 0\<rparr> [] :: (nat, unit, bytes) unary_call)
     [UcStream Attach, UcStream ReadCall, UcStream (Data [0, 0, 0, 0, 1, 7]),
      UcStream (Trailers [(''grpc-status'', HStr ''0'')]), UcStream RunTask, UcDeliver]) = [Inr None]"
  by code_simp

section \<open>Native client and server\<close>

text \<open>The user agent is appended to the caller's options: with one options object for two clients it is
  there twice.\<close>

lemma user_agent_accumulates:
  "map_of (client_options v (Some (client_options v None))) ''grpc.primary_user_agent'' =
     Some (OptString (''grpc-node/'' @ v @ '' grpc-node/'' @ v))"
  by (simp add: client_options_def obj_simps)

text \<open>The deprecated argument order makes every client constructor with a method throw.\<close>

lemma deprecated_order_throws:
  "own_entries methods \<noteq> [] \<Longrightarrow> \<exists>e. makeClientConstructor methods (Some True) = Inl e"
  by (cases "own_entries methods") (auto simp: makeClientConstructor_def add_client_method_def)

text \<open>protobuf.js services never get it: the options are passed as the name of the service.\<close>

lemma deprecated_order_ignored:
  fixes service :: "('m, 'raw) pb5_class pb_service"
  shows "loadObject5 camel (options\<lparr>lo_deprecatedArgumentOrder := Some b\<rparr>) (Pb5Service service) =
   loadObject5 camel options (Pb5Service service)"
proof -
  have "deserializeCls5 cls (Some (options\<lparr>lo_deprecatedArgumentOrder := Some b\<rparr>)) = deserializeCls5 cls (Some options)"
    for cls :: "('m, 'raw) pb5_class"
    by (rule ext) (simp add: deserializeCls5_def)
  then show ?thesis by (simp add: getProtobufServiceAttrs5_def)
qed

text \<open>The wrapper of unary requests passes the metadata as the options, too.\<close>

lemma wrapped_unary_options:
  "makeWrappedUnaryRequest new_md new_obj arg cb (Some md) options = [arg, md, md, cb]"
  by (simp add: makeWrappedUnaryRequest_def getDefaultValues_def)

text \<open>A batch error without a result makes the response handlers throw instead of calling back.\<close>

lemma missing_response_throws:
  "snd (unary_response_done env err None st) = [ClThrow (type_error ''Cannot read property 'status' of undefined'')]"
  by (simp add: unary_response_done_def)

text \<open>When a response does not parse, the error of a client streaming call has the details of the
  received status.\<close>

lemma client_stream_parse_error:
  assumes "ce_deserialize env (rs_read response) = Inl e" and "os_code (rs_status response) = 0"
  shows "\<exists>x. ClCallback (Inl x) \<in> set (snd (stream_response_done env None (Some response) st)) \<and>
    eo_code x = Some 13 \<and> eo_message x = Some (os_details (rs_status response))"
  using assms by (auto simp: stream_response_done_def status_error_def parse_failure_def Let_def)

text \<open>A failed wait for the client's close reads a property of undefined.\<close>

lemma failed_cancel_batch_throws:
  "SvUncaught (JsTypeError ''Cannot read property 'cancelled' of undefined'') \<in> set (snd (sv_cancel_done (Inl err) st))"
  by (simp add: sv_cancel_done_def split: prod.split)

text \<open>An error whose own property \<open>metadata\<close> is undefined leaves a unary call unanswered.\<close>

lemma undefined_metadata_unanswered:
  "snd (handleError (e\<lparr>eo_metadata := MdUndefined\<rparr>) st) = [SvUncaught meta_not_object]"
  by (simp add: handleError_def handleError_status_def Let_def split: option.split)

text \<open>addService registers the methods before one that is taken.\<close>

lemma partial_registration:
  fixes a :: "(nat, nat) method_attrs"
  defines "a \<equiv> \<lparr>at_path = ''/s/A'', at_originalName = None, at_requestStream = False, at_responseStream = False,
      at_requestSerialize = 0, at_responseSerialize = 0, at_requestDeserialize = 0, at_responseDeserialize = 0\<rparr>"
  shows "\<exists>srv eff. addService 0 (Some [(''a'', a), (''b'', a)]) (Some (\<lambda>n. Some n)) server_new =
      (srv, eff :: (string, nat, nat, nat) srv_effect list, Some (JsError ''Method handler for /s/A already provided.'')) \<and>
    has_own (srv_handlers srv) ''/s/A''"
proof -
  have "own_entries [(''a'', a), (''b'', a)] = [(''a'', a), (''b'', a)]"
  proof -
    have "\<not> is_index ''a''" "\<not> is_index ''b''" by code_simp+
    then show ?thesis by (simp add: own_entries_def)
  qed
  then show ?thesis
    by (simp add: addService_def) (simp add: server_new_def register_def has_own_def obj_simps find_impl_def a_def)
qed

text \<open>Of two methods with one camel case name the service keeps the last.\<close>

lemma colliding_method_dropped:
  assumes "ps_methods service = [m1, m2]" and "camel (pm_name m1) = name" "camel (pm_name m2) = name" and "name \<noteq> ''__proto__''"
  shows "\<exists>attrs. getProtobufServiceAttrs5 camel service options = [(name, attrs)] \<and> at_originalName attrs = Some (pm_name m2)"
  using assms by (simp add: getProtobufServiceAttrs5_def service_attrs_def method_entry_def obj_put_def)

section \<open>Health check\<close>

text \<open>A service that was never set, but whose name the map inherits, is answered with a response.\<close>

lemma inherited_service_found:
  assumes "lodash_get m (VString ''constructor'') = Some (VFunction 1)" and "getService J request = VString ''constructor''"
  shows "health_check_message J lodash_get m request = Inr (setStatus_response J (VFunction 1) (HealthCheckResponse J None))"
  using assms by (simp add: health_check_message_def health_check_def)

section \<open>Build scripts\<close>

text \<open>The tasks described as "without rebuilding anything" build what they test.\<close>

lemma only_tasks_rebuild:
  "''native.core.build'' \<in> set (run_order (rev (all_tasks relative root flag dev)) [''native.test.only''])"
  "''js.core.compile'' \<in> set (run_order (rev (all_tasks relative root flag dev)) [''test.only''])"
  by (simp_all add: task_tables)

end
