(* ===== verification/Spec2Isabelle.thy ===== *)
theory Spec2Isabelle
  imports Endpoints RoundTrips WireFormat ChannelCalls CoreFailures CallStreamBounds HealthEnds NativeSurface MetadataTypes CallHeaders NativeCredentials Findings
begin

text \<open>
  Formal model of grpc-node (packages grpc-js-core, grpc-native-core and grpc-health-check of this
  repository) and the theorems that make it correct.

  \<^bold>\<open>The program.\<close> The repository holds two implementations of gRPC for Node.
  grpc-js-core is a client in TypeScript over Node's http2 module. grpc-native-core is a client and
  a server in JavaScript over a compiled extension. grpc-health-check is a service for the native
  server.

  \<^bold>\<open>Ground.\<close> Prelude: results as sums with \<open>and_then\<close> and
  \<open>fold_res\<close>, JavaScript exceptions, plain objects as association lists (own keys,
  enumeration order with integer keys first, the inherited names \<open>constructor\<close> and
  \<open>__proto__\<close>), bytes as 8-bit words, decimal digits. Machines: runs of a step function
  over a list of events, and the locales \<open>machine\<close> (an invariant), \<open>latch\<close>
  (a marked effect at most once, when the component closes) and \<open>monitored\<close> (effects
  follow a protocol automaton). MetadataContract: the abstract multimap of values per key and the
  locale \<open>metadata_store\<close> that both metadata classes interpret. Promises: outcomes of
  promises, \<open>await\<close> and \<open>Promise.all\<close>. JsNumber: \<open>Number\<close> of
  a string. Base64.

  \<^bold>\<open>grpc-js-core.\<close> CoreMetadata and MetadataTypes model metadata.ts (every
  function, one definition \<open>cm_...\<close> each); Status models constants.ts and the native
  constants.js; Credentials models call-credentials.ts and channel-credentials.ts; Filters and
  FilterFacts the five filter files; CallStream the class Http2CallStream of call-stream.ts: its
  record \<open>call_stream\<close> has a field for each field of the class, its operations are the
  methods and the listeners on the http2 stream, and \<open>cs_step\<close> runs one event. Framing
  relates the reader's state to a byte-by-byte decoder of the length-prefixed messages,
  CallStreamFacts has the invariant of the class, CallStreamSend its sending side, CallStreamBounds
  what it keeps in memory. Channel models channel.ts (connectivity, the subchannel, connect
  callbacks, the start of streams), ChannelCalls a channel together with all call streams created on
  it, CallHeaders what a call sends first, CoreCall the streams of call.ts, CoreObjects its four
  classes, each with its call stream, CoreFailures the failures by which they end a call, and
  CoreClient client.ts, where a unary call is composed with its call stream and the buffer of what
  the stream pushed and Node has not delivered yet.

  \<^bold>\<open>grpc-native-core.\<close> NativeMetadata models metadata.js; Common models
  common.js and the batches and errors exchanged with the extension; ServerCall one call on the
  server (server.js up to handleBidiStreaming) as a record, the functions of the file and the step
  \<open>sv_step\<close>, ServerCallFacts its invariant; ServerObject the Server class
  (registration, addService, the accept loop); ClientCall and ClientCallFacts the four client call
  classes and request methods of client.js, ClientObject the rest of client.js; NativeCredentials
  credentials.js; Protobuf the two protobuf.js adapters, loadObject and load of index.js and
  addProtoService; NativeSurface logging and the methods that pass on to the extension. Health
  models health.js, where lodash's \<open>get\<close> is only known to find the own names of the map
  (it finds inherited names and paths, too), HealthMessages the generated messages and service definition over the
  google-protobuf runtime, a parameter; HealthFacts carries a check from a client to the status map
  and back, and HealthEnds the client and the registered service that meet there, and WireFormat is
  an instance of the runtime that satisfies what is assumed of it. BuildTasks has the gulp tasks of
  the packages, the order they run in, and the protoc wrappers. Endpoints composes: a client and a
  server of one service definition or protobuf service, the readable call object over the call
  stream, the updates of the health map. RoundTrips joins a native client call and a server call by
  the transport of the extension, a parameter of which it assumes that statuses, messages and their
  order arrive.

  \<^bold>\<open>Events and effects.\<close> A component is a function from its state and one event
  (a method call, a callback of Node or of the extension) to the next state and its effects in
  order; every interleaving is a list of events. What the runtime guarantees about events is a
  predicate (\<open>cs_legal\<close>, \<open>sv_legal\<close>, \<open>cl_legal\<close>,
  \<open>ch_legal\<close>), stated with the machine; for a channel it only says that an event
  belongs to a session that was started, so a session may still connect or time out after it was
  asked to shut down. Errors are values: a throw ends a handler with
  an \<open>Inl\<close> or an effect. Functions passed in by users (serializers, deserializers, the
  result of \<open>push\<close>) are fields of an environment record, and so are
  \<open>decodeURI\<close> and lodash's \<open>camelCase\<close> and \<open>get\<close>; time is an
  argument. No fuel is used: every recursive definition is total, the data loop of the call stream
  by the measure of the bytes left, but for the loop that reads the fields of a health message: its
  reader is foreign, so it is a partial function, proved to return if the reader advances.

  \<^bold>\<open>What is shown.\<close> The call stream delivers exactly the messages of the bytes
  it receives, ends once and keeps its final status; what is written reaches the other end, and
  messages survive the way from serializer to reader. Each call on a channel is attached at most
  once and goes through a legal run, and call objects report its end once, also the failures they
  cause themselves; what the reader keeps is bounded by one message and one chunk. Metadata behaves
  as a multimap, keeps its values through http2 headers and is type sound. Composed credentials
  merge, the timeout header never understates the remaining time, and the filters of a call finish
  unless the deadline cannot be written. Server calls follow the sending protocol, read one message
  at a time and in order, and answer every request and error in one batch; registration never
  replaces a handler, and a started server keeps accepting. Client calls report one status and one
  answer, and deliver messages in order. A unary call refines a call of the handler, and the chunks
  of a stream arrive in order on the other end, in both directions. Both ends of a service
  definition, also one loaded from protobuf.js, meet. A stream is requested on the current session of
  its channel; a channel stays closed unless a session connects or times out late, and calls its
  connect callbacks once each and in order unless a session times out; waiting answers once. The generated health messages keep
  their field through the wire, and a check made by the client of the service reaches the
  implementation registered on a server, and the status comes back. The theory Findings has the
  behaviour that the code's comments or callers do not expect.

  \<^bold>\<open>Not modelled.\<close> The compiled extension and Node's http2, stream and timer
  modules (they are the events and effects); deadlines that are no whole number of milliseconds
  (fractions, NaN) and error codes that are no number, with
  which the extension refuses the batch; protobuf.js and the google-protobuf runtime
  (parameters); arguejs's sorting of optional arguments; gulp and its plugins (known by what they
  are given); declarations without behaviour: the interfaces and overloads of call.ts,
  call-stream.ts, channel.ts and object-stream.ts, imports, and the re-exports of the index files;
  tests. No executable code of the packages is left out otherwise.
\<close>

text \<open>
  C1: For every legal sequence of events of a fresh call stream, however the http2 stream cuts its
  bytes into chunks and whenever the consumer reads, the messages pushed to the consumer followed
  by those still held back are exactly the messages of the byte stream (as a byte-by-byte
  reference decoder reads them), in order, with the end of the stream after the last of them.
\<close>

theorem call_stream_delivers_in_order:
  assumes "legal_run (cs_step env) cs_legal (cs_new opts factories) es"
  shows "pushed (effects (cs_step env) (cs_new opts factories) es) @
      cs_unpushedReadMessages (final (cs_step env) (cs_new opts factories) es) =
    map Some (frame_msgs Idle (data_of es)) @ (if EndOfStream \<in> set es then [None] else [])"
  using delivery [OF cs_inv_new assms] by (simp add: cs_new_def frame_of_def)

theorem call_stream_delivers_in_order_witness:
  "let env = \<lparr>push_result = \<lambda>_. True, decodeURI = Inr\<rparr>; st = (cs_new (\<lparr>opt_deadline = Infinite, opt_credentials = EmptyCallCredentials, opt_flags = 0\<rparr> :: unit call_options) [] :: (nat, unit) call_stream);
       es = [Attach, ReadCall, Data [0, 0, 0], Data [0, 2, 65], Data [66], EndOfStream]
   in pushed (effects (cs_step env) st es) @ cs_unpushedReadMessages (final (cs_step env) st es) =
        [Some [65, 66], None]"
proof -
  let ?env = "\<lparr>push_result = \<lambda>_. True, decodeURI = Inr\<rparr>" and ?st = "(cs_new (\<lparr>opt_deadline = Infinite, opt_credentials = EmptyCallCredentials, opt_flags = 0\<rparr> :: unit call_options) [] :: (nat, unit) call_stream)"
  let ?es = "[Attach, ReadCall, Data [0, 0, 0], Data [0, 2, 65], Data [66], EndOfStream] :: nat cs_event list"
  have "legal_run (cs_step ?env) cs_legal ?st ?es" by code_simp
  from call_stream_delivers_in_order [OF this]
  have "pushed (effects (cs_step ?env) ?st ?es) @ cs_unpushedReadMessages (final (cs_step ?env) ?st ?es) =
      map Some (frame_msgs Idle (data_of ?es)) @ [None]" by simp
  moreover have "frame_msgs Idle (data_of ?es) = [[65, 66]]" by code_simp
  ultimately show ?thesis by (simp only: Let_def list.map append.simps)
qed

text \<open>
  C2: A call stream emits its 'status' event at most once over any legal run, exactly when the run
  leaves a final status behind, whatever the order in which trailers, stream errors, the closing
  of the stream and cancellations arrive.
\<close>

theorem call_stream_status_once:
  assumes "legal_run (cs_step env) cs_legal (cs_new opts factories) es"
  shows "length (filter is_status (effects (cs_step env) (cs_new opts factories) es)) =
    (if cs_getStatus (final (cs_step env) (cs_new opts factories) es) = None then 0 else 1)"
proof -
  have "\<not> is_ended (cs_new opts factories)" by (simp add: is_ended_def cs_new_def)
  from call_latch.marks_run [OF cs_inv_new assms this] show ?thesis
    by (simp add: is_ended_def cs_getStatus_def)
qed

theorem call_stream_status_once_witness:
  "let env = \<lparr>push_result = \<lambda>_. True, decodeURI = Inr\<rparr>; st = (cs_new (\<lparr>opt_deadline = Infinite, opt_credentials = EmptyCallCredentials, opt_flags = 0\<rparr> :: unit call_options) [] :: (nat, unit) call_stream); es = [Attach, CancelWithStatus CANCELLED ''stop'', StreamError, StreamClosed 8]
   in length (filter is_status (effects (cs_step env) st es)) = 1"
proof -
  let ?env = "\<lparr>push_result = \<lambda>_. True, decodeURI = Inr\<rparr>" and ?st = "(cs_new (\<lparr>opt_deadline = Infinite, opt_credentials = EmptyCallCredentials, opt_flags = 0\<rparr> :: unit call_options) [] :: (nat, unit) call_stream)"
  let ?es = "[Attach, CancelWithStatus CANCELLED ''stop'', StreamError, StreamClosed 8] :: nat cs_event list"
  have "legal_run (cs_step ?env) cs_legal ?st ?es" by code_simp
  from call_stream_status_once [OF this]
  have "length (filter is_status (effects (cs_step ?env) ?st ?es)) =
      (if cs_getStatus (final (cs_step ?env) ?st ?es) = None then 0 else 1)" .
  moreover have "(cs_getStatus (final (cs_step ?env) ?st ?es) = None) = False" by code_simp
  ultimately show ?thesis by (simp only: Let_def if_False)
qed

text \<open>
  C3: Once a call stream has a final status, getStatus returns that status after every further
  legal event, and no further 'status' event is emitted: a later trailer, error or cancellation
  cannot replace it.
\<close>

theorem call_stream_status_stays:
  assumes "legal_run (cs_step env) cs_legal (cs_new opts factories) (es @ fs)"
    and "cs_getStatus (final (cs_step env) (cs_new opts factories) es) = Some s"
  shows "cs_getStatus (final (cs_step env) (cs_new opts factories) (es @ fs)) = Some s \<and>
    filter is_status (effects (cs_step env) (final (cs_step env) (cs_new opts factories) es) fs) = []"
proof -
  let ?st = "final (cs_step env) (cs_new opts factories) es"
  have "cs_inv ?st" "legal_run (cs_step env) cs_legal ?st fs"
    using assms(1) call_latch.inv_run [OF cs_inv_new] by (auto simp: legal_run_append)
  with assms(2) show ?thesis
    using final_status_stays [of ?st env fs s] call_latch.no_marks_after_close [of ?st env fs]
    by (simp add: run_append_fst cs_getStatus_def is_ended_def)
qed

theorem call_stream_status_stays_witness:
  "let env = \<lparr>push_result = \<lambda>_. True, decodeURI = Inr\<rparr>; st = (cs_new (\<lparr>opt_deadline = Infinite, opt_credentials = EmptyCallCredentials, opt_flags = 0\<rparr> :: unit call_options) [] :: (nat, unit) call_stream); es = [Attach, CancelWithStatus CANCELLED ''stop'', StreamError]
   in cs_getStatus (final (cs_step env) st es) =
        Some \<lparr>st_code = CANCELLED, st_details = ''stop'', st_metadata = []\<rparr>"
proof -
  let ?env = "\<lparr>push_result = \<lambda>_. True, decodeURI = Inr\<rparr>" and ?st = "(cs_new (\<lparr>opt_deadline = Infinite, opt_credentials = EmptyCallCredentials, opt_flags = 0\<rparr> :: unit call_options) [] :: (nat, unit) call_stream)"
  let ?es = "[Attach, CancelWithStatus CANCELLED ''stop''] :: nat cs_event list"
  have l: "legal_run (cs_step ?env) cs_legal ?st (?es @ [StreamError])" by code_simp
  have s: "cs_getStatus (final (cs_step ?env) ?st ?es) =
      Some \<lparr>st_code = CANCELLED, st_details = ''stop'', st_metadata = []\<rparr>" by code_simp
  from call_stream_status_stays [OF l s] show ?thesis by (simp only: Let_def append.simps)
qed

text \<open>
  C4: What is handed to the write side of a call stream arrives: when the stream has been
  attached, the bytes it wrote to its http2 stream, however the writes and the attaching were
  ordered, read by another call stream in any legal run and cut into any chunks, are there exactly
  the messages written (those a four-byte length can hold), in order: those pushed to the consumer
  followed by those held back until it reads again; and if the consumer accepts every push nothing
  is held back, so the messages pushed are exactly the messages written.
\<close>

theorem written_messages_arrive:
  assumes "legal_run (cs_step env) cs_legal_send (cs_new opts factories) es"
    and "cs_http2Stream (final (cs_step env) (cs_new opts factories) es)"
    and "legal_run (cs_step env') cs_legal (cs_new opts' factories') fs"
    and "data_of fs = sent_bytes (sent (effects (cs_step env) (cs_new opts factories) es))"
  shows "let items = map Some (written_messages es) @ (if EndOfStream \<in> set fs then [None] else [])
    in pushed (effects (cs_step env') (cs_new opts' factories') fs) @
         cs_unpushedReadMessages (final (cs_step env') (cs_new opts' factories') fs) = items \<and>
      ((\<forall>n. push_result env' n) \<longrightarrow> pushed (effects (cs_step env') (cs_new opts' factories') fs) = items)"
proof -
  have "held (cs_new opts factories) = []" by (simp add: held_def cs_new_def)
  with send_run [OF send_inv_new assms(1)] assms(2)
  have "sent (effects (cs_step env) (cs_new opts factories) es) = handed_over es" by (simp add: held_def)
  with assms(4) handed_over_encoded [of es] obtain ws where
    "list_all2 (\<lambda>b w. encodeMessage b = Inr w) (written_messages es) ws" "data_of fs = concat ws" by auto
  from encode_then_deliver [OF assms(3) this] have all: "pushed (effects (cs_step env') (cs_new opts' factories') fs) @
      cs_unpushedReadMessages (final (cs_step env') (cs_new opts' factories') fs) =
    map Some (written_messages es) @ (if EndOfStream \<in> set fs then [None] else [])" .
  show ?thesis
    unfolding Let_def
  proof (intro conjI impI all)
    assume "\<forall>n. push_result env' n"
    then have "cs_unpushedReadMessages (final (cs_step env') (cs_new opts' factories') fs) = []"
      by (rule accepts_all) (simp add: cs_new_def)
    with all show "pushed (effects (cs_step env') (cs_new opts' factories') fs) =
        map Some (written_messages es) @ (if EndOfStream \<in> set fs then [None] else [])" by simp
  qed
qed

theorem written_messages_arrive_witness:
  "let fs = [Attach, ReadCall, Data [0, 0, 0, 0, 1, 7, 0], Data [0, 0, 0, 0], EndOfStream]
   in pushed (effects (cs_step \<lparr>push_result = \<lambda>_. True, decodeURI = Inr\<rparr>) (cs_new (\<lparr>opt_deadline = Infinite, opt_credentials = EmptyCallCredentials, opt_flags = 0\<rparr> :: unit call_options) [] :: (nat, unit) call_stream) fs) = [Some [7], Some [], None]"
proof -
  let ?es = "[WriteCall [7] 0, Attach, WriteCall [] 1, FinalCall 2] :: nat cs_event list"
  let ?fs = "[Attach, ReadCall, Data [0, 0, 0, 0, 1, 7, 0], Data [0, 0, 0, 0], EndOfStream] :: nat cs_event list"
  have a: "legal_run (cs_step \<lparr>push_result = \<lambda>_. True, decodeURI = Inr\<rparr>) cs_legal_send (cs_new (\<lparr>opt_deadline = Infinite, opt_credentials = EmptyCallCredentials, opt_flags = 0\<rparr> :: unit call_options) [] :: (nat, unit) call_stream) ?es"
    by (simp add: cs_write_def encodeMessage_def writeUInt32BE_def cs_attach_def cs_final_def cs_new_def)
  have b: "cs_http2Stream (final (cs_step \<lparr>push_result = \<lambda>_. True, decodeURI = Inr\<rparr>) (cs_new (\<lparr>opt_deadline = Infinite, opt_credentials = EmptyCallCredentials, opt_flags = 0\<rparr> :: unit call_options) [] :: (nat, unit) call_stream) ?es)"
    by (simp add: cs_write_def encodeMessage_def writeUInt32BE_def cs_attach_def cs_final_def cs_new_def)
  have c: "legal_run (cs_step \<lparr>push_result = \<lambda>_. True, decodeURI = Inr\<rparr>) cs_legal (cs_new (\<lparr>opt_deadline = Infinite, opt_credentials = EmptyCallCredentials, opt_flags = 0\<rparr> :: unit call_options) [] :: (nat, unit) call_stream) ?fs" by code_simp
  have d: "data_of ?fs = sent_bytes (sent (effects (cs_step \<lparr>push_result = \<lambda>_. True, decodeURI = Inr\<rparr>) (cs_new (\<lparr>opt_deadline = Infinite, opt_credentials = EmptyCallCredentials, opt_flags = 0\<rparr> :: unit call_options) [] :: (nat, unit) call_stream) ?es))"
    by (simp add: cs_write_def encodeMessage_def writeUInt32BE_def cs_attach_def cs_final_def cs_new_def sent_bytes_def)
  have w: "written_messages ?es = [[7], []]" by simp
  have "\<forall>n. push_result \<lparr>push_result = \<lambda>_. True, decodeURI = Inr\<rparr> n" by simp
  with written_messages_arrive [OF a b c d] show ?thesis unfolding Let_def w by simp
qed

text \<open>
  C5: Whatever happens on a channel and to the calls created on it (connections, time-outs,
  restarts, closing, late metadata), each call stream goes through a legal run of its own: its
  state and its effects are those of that run, it is attached to an http2 stream at most once,
  never after it has ended, and it emits its status once if it ended and not otherwise.
\<close>

theorem calls_on_a_channel_run_legally:
  assumes "legal_run (sy_step env) sy_legal sy_new es" and "i < length (sy_calls (final (sy_step env) sy_new es))"
  shows "(\<exists>fs. let call = sy_calls (final (sy_step env) sy_new es) ! i;
        st0 = cs_new (cc_options call) (se_factories env) in
      legal_run (cs_step (se_stream env)) cs_legal_open st0 fs \<and>
      cc_stream call = final (cs_step (se_stream env)) st0 fs \<and>
      stream_effects i (effects (sy_step env) sy_new es) = effects (cs_step (se_stream env)) st0 fs \<and>
      count_list fs Attach \<le> 1) \<and>
    length (filter is_status (stream_effects i (effects (sy_step env) sy_new es))) =
      (if cs_getStatus (cc_stream (sy_calls (final (sy_step env) sy_new es) ! i)) = None then 0 else 1)"
proof -
  let ?call = "sy_calls (final (sy_step env) sy_new es) ! i"
  let ?st0 = "cs_new (cc_options ?call) (se_factories env)"
  from sy_runs [OF assms] obtain fs where l: "legal_run (cs_step (se_stream env)) cs_legal_open ?st0 fs"
    and f: "cc_stream ?call = final (cs_step (se_stream env)) ?st0 fs"
    and e: "stream_effects i (effects (sy_step env) sy_new es) = effects (cs_step (se_stream env)) ?st0 fs"
    unfolding Let_def by blast
  have "count_list fs Attach \<le> 1" using attach_count [OF l] by (simp split: if_splits)
  moreover have "\<not> is_ended ?st0" by (simp add: is_ended_def cs_new_def)
  from call_latch.marks_run [OF cs_inv_new legal_open_run [OF l] this]
  have "length (filter is_status (effects (cs_step (se_stream env)) ?st0 fs)) =
      (if cs_getStatus (final (cs_step (se_stream env)) ?st0 fs) = None then 0 else 1)"
    by (simp add: is_ended_def cs_getStatus_def)
  ultimately show ?thesis unfolding Let_def e f using l f by (intro conjI exI [of _ fs]) simp_all
qed

theorem calls_on_a_channel_run_legally_witness:
  "length (filter is_status (stream_effects 0 (effects (sy_step (\<lparr>se_channel = \<lparr>che_context = None, che_hostname = ''h''\<rparr>, se_factories = [], se_stream = \<lparr>push_result = \<lambda>_. True, decodeURI = Inr\<rparr>\<rparr> :: unit system_env)) (sy_new :: (nat, nat, unit) js_system) [SyCreate ''/s/m'' \<lparr>po_deadline = None, po_credentials = None, po_flags = None\<rparr>, SyConnected 0, SyMetadata 0 (Inr []) None, SyCall 0 (CancelWithStatus CANCELLED ''stop''), SyCall 0 (StreamClosed 8)]))) = 1"
proof -
  let ?es = "[SyCreate ''/s/m'' \<lparr>po_deadline = None, po_credentials = None, po_flags = None\<rparr>, SyConnected 0, SyMetadata 0 (Inr []) None, SyCall 0 (CancelWithStatus CANCELLED ''stop''), SyCall 0 (StreamClosed 8)] :: (nat, nat, unit) sy_event list"
  have l: "legal_run (sy_step (\<lparr>se_channel = \<lparr>che_context = None, che_hostname = ''h''\<rparr>, se_factories = [], se_stream = \<lparr>push_result = \<lambda>_. True, decodeURI = Inr\<rparr>\<rparr> :: unit system_env)) sy_legal sy_new ?es" by code_simp
  have i: "0 < length (sy_calls (final (sy_step (\<lparr>se_channel = \<lparr>che_context = None, che_hostname = ''h''\<rparr>, se_factories = [], se_stream = \<lparr>push_result = \<lambda>_. True, decodeURI = Inr\<rparr>\<rparr> :: unit system_env)) sy_new ?es))" by code_simp
  have "(cs_getStatus (cc_stream (sy_calls (final (sy_step (\<lparr>se_channel = \<lparr>che_context = None, che_hostname = ''h''\<rparr>, se_factories = [], se_stream = \<lparr>push_result = \<lambda>_. True, decodeURI = Inr\<rparr>\<rparr> :: unit system_env)) sy_new ?es) ! 0)) = None) = False" by code_simp
  with calls_on_a_channel_run_legally [OF l i] show ?thesis by (simp only: if_False)
qed

text \<open>
  C6: A js-core call object with a readable side (server streaming or bidirectional) reports the
  end of its call exactly once and as the call stream ended: nothing before the end, then the
  event status with the final status and, if and only if the status is not OK, the event error
  made from it, whatever mixture of http2 events, delivered messages, reads, writes and
  cancellations makes up the run.
\<close>

theorem call_objects_report_the_status_once:
  assumes "cls = ReadableObject \<or> cls = DuplexObject"
    and "legal_run (ob_step env cenv) ob_legal (ob_new cls opts factories) es"
  shows "reports (effects (ob_step env cenv) (ob_new cls opts factories) es) =
    (case cs_getStatus (ob_stream (final (ob_step env cenv) (ob_new cls opts factories) es)) of
       None \<Rightarrow> []
     | Some s \<Rightarrow> RsEmitStatus s # (if st_code s = OK then [] else [RsEmitError s]))"
proof -
  have "readable_object (ob_class (ob_new cls opts factories))" "cs_inv (ob_stream (ob_new cls opts factories))"
    using assms(1) by (auto simp: ob_new_def readable_object_def)
  from ob_run_reports [OF this assms(2)] show ?thesis
    by (auto simp: new_status_def report_def ob_new_def cs_new_def cs_getStatus_def split: option.splits)
qed

theorem call_objects_report_the_status_once_witness:
  "reports (effects (ob_step \<lparr>push_result = \<lambda>_. True, decodeURI = Inr\<rparr> (\<lparr>cv_serialize = Inr, cv_deserialize = Inr, cv_push = \<lambda>_. True\<rparr> :: (bytes, bytes) core_env)) (ob_new ReadableObject (\<lparr>opt_deadline = Infinite, opt_credentials = EmptyCallCredentials, opt_flags = 0\<rparr> :: unit call_options) [] :: (nat, unit) call_object)
      ([FromStream Attach, FromStream ReadCall, FromStream (Data [0, 0, 0, 0, 1, 7]), Deliver, Invoke DoRead, Invoke DoCancel, FromStream (StreamClosed 8)] :: (bytes, nat, nat) object_input list) :: (bytes, nat) object_effect list) =
    (let s = \<lparr>st_code = CANCELLED, st_details = ''Cancelled on client'', st_metadata = []\<rparr> in [RsEmitStatus s, RsEmitError s])"
proof -
  let ?es = "[FromStream Attach, FromStream ReadCall, FromStream (Data [0, 0, 0, 0, 1, 7]), Deliver, Invoke DoRead, Invoke DoCancel, FromStream (StreamClosed 8)] :: (bytes, nat, nat) object_input list"
  have c: "ReadableObject = ReadableObject \<or> ReadableObject = DuplexObject" by simp
  have l: "legal_run (ob_step \<lparr>push_result = \<lambda>_. True, decodeURI = Inr\<rparr> (\<lparr>cv_serialize = Inr, cv_deserialize = Inr, cv_push = \<lambda>_. True\<rparr> :: (bytes, bytes) core_env) :: _ \<Rightarrow> _ \<Rightarrow> _ \<times> (bytes, nat) object_effect list) ob_legal (ob_new ReadableObject (\<lparr>opt_deadline = Infinite, opt_credentials = EmptyCallCredentials, opt_flags = 0\<rparr> :: unit call_options) [] :: (nat, unit) call_object) ?es" by code_simp
  have s: "cs_getStatus (ob_stream (fst (run (ob_step \<lparr>push_result = \<lambda>_. True, decodeURI = Inr\<rparr> (\<lparr>cv_serialize = Inr, cv_deserialize = Inr, cv_push = \<lambda>_. True\<rparr> :: (bytes, bytes) core_env) :: _ \<Rightarrow> _ \<Rightarrow> _ \<times> (bytes, nat) object_effect list) (ob_new ReadableObject (\<lparr>opt_deadline = Infinite, opt_credentials = EmptyCallCredentials, opt_flags = 0\<rparr> :: unit call_options) [] :: (nat, unit) call_object) ?es))) =
      Some \<lparr>st_code = CANCELLED, st_details = ''Cancelled on client'', st_metadata = []\<rparr>" by code_simp
  show ?thesis unfolding call_objects_report_the_status_once [OF c l] s Let_def by simp
qed

text \<open>
  C7: The failures on a js-core client's own side end an open call, once and for all: when a
  response that reaches the object does not parse, when a request written to a bidirectional call
  does not serialize, or when cancel is called, the object reports exactly one status, INTERNAL
  with 'Failed to parse server response', INTERNAL with 'Serialization failure' or CANCELLED with
  'Cancelled on client', and the error made from it, whatever happened before and happens
  afterwards.
\<close>

theorem failures_end_the_call:
  fixes es :: "('p, 'k, 'c) object_input list" and opts :: "'o call_options"
  assumes "cls = ReadableObject \<or> cls = DuplexObject"
    and "legal_run (ob_step env cenv) ob_legal (ob_new cls opts factories) (es @ e # fs)"
    and "cs_getStatus (ob_stream (final (ob_step env cenv) (ob_new cls opts factories) es)) = None"
    and "e = Deliver \<and> (\<exists>data rest x. ob_buffer (final (ob_step env cenv) (ob_new cls opts factories) es) = Some data # rest \<and>
           cv_deserialize cenv data = Inl x) \<and> c = INTERNAL \<and> d = ''Failed to parse server response'' \<or>
         (\<exists>chunk encoding cb x. e = Invoke (DoWrite chunk encoding cb) \<and> cls = DuplexObject \<and> cv_serialize cenv chunk = Inl x) \<and>
           c = INTERNAL \<and> d = ''Serialization failure'' \<or>
         e = Invoke DoCancel \<and> c = CANCELLED \<and> d = ''Cancelled on client''"
  shows "let s = \<lparr>st_code = c, st_details = d, st_metadata = []\<rparr> in
    reports (effects (ob_step env cenv) (ob_new cls opts factories) (es @ e # fs)) = [RsEmitStatus s, RsEmitError s] \<and>
    cs_getStatus (ob_stream (final (ob_step env cenv) (ob_new cls opts factories) (es @ e # fs))) = Some s"
proof -
  let ?ob = "final (ob_step env cenv) (ob_new cls opts factories) es"
  have r: "readable_object cls" using assms(1) by (auto simp: readable_object_def)
  have "ob_class ?ob = cls" by (simp only: ob_class_run) (simp add: ob_new_def)
  then have f: "failure cenv ?ob e = Some (c, d)" using assms(4) by auto
  from failure_reported [OF r assms(2,3) f] failure_code [OF f] show ?thesis by (simp add: report_def)
qed

theorem failures_end_the_call_witness:
  "reports (effects (ob_step \<lparr>push_result = \<lambda>_. True, decodeURI = Inr\<rparr> (\<lparr>cv_serialize = Inr, cv_deserialize = (\<lambda>b. Inl (JsError ''bad'')), cv_push = \<lambda>_. True\<rparr> :: (bytes, bytes) core_env)) (ob_new ReadableObject (\<lparr>opt_deadline = Infinite, opt_credentials = EmptyCallCredentials, opt_flags = 0\<rparr> :: unit call_options) [] :: (nat, unit) call_object)
      ([FromStream Attach, FromStream ReadCall, FromStream (Data [0, 0, 0, 0, 1, 7])] @ Deliver # [Invoke DoCancel, FromStream (StreamClosed 8)] :: (bytes, nat, nat) object_input list) :: (bytes, nat) object_effect list) =
    (let s = \<lparr>st_code = INTERNAL, st_details = ''Failed to parse server response'', st_metadata = []\<rparr> in [RsEmitStatus s, RsEmitError s])"
proof -
  let ?es = "[FromStream Attach, FromStream ReadCall, FromStream (Data [0, 0, 0, 0, 1, 7])] :: (bytes, nat, nat) object_input list"
  let ?fs = "[Invoke DoCancel, FromStream (StreamClosed 8)] :: (bytes, nat, nat) object_input list"
  let ?step = "ob_step \<lparr>push_result = \<lambda>_. True, decodeURI = Inr\<rparr> (\<lparr>cv_serialize = Inr, cv_deserialize = (\<lambda>b. Inl (JsError ''bad'')), cv_push = \<lambda>_. True\<rparr> :: (bytes, bytes) core_env) :: _ \<Rightarrow> _ \<Rightarrow> _ \<times> (bytes, nat) object_effect list"
  have c: "ReadableObject = ReadableObject \<or> ReadableObject = DuplexObject" by simp
  have l: "legal_run ?step ob_legal (ob_new ReadableObject (\<lparr>opt_deadline = Infinite, opt_credentials = EmptyCallCredentials, opt_flags = 0\<rparr> :: unit call_options) [] :: (nat, unit) call_object) (?es @ Deliver # ?fs)" by code_simp
  have s: "cs_getStatus (ob_stream (final ?step (ob_new ReadableObject (\<lparr>opt_deadline = Infinite, opt_credentials = EmptyCallCredentials, opt_flags = 0\<rparr> :: unit call_options) [] :: (nat, unit) call_object) ?es)) = None" by code_simp
  have b: "ob_buffer (final ?step (ob_new ReadableObject (\<lparr>opt_deadline = Infinite, opt_credentials = EmptyCallCredentials, opt_flags = 0\<rparr> :: unit call_options) [] :: (nat, unit) call_object) ?es) = [Some [7]]" by code_simp
  have d: "cv_deserialize (\<lparr>cv_serialize = Inr, cv_deserialize = (\<lambda>b. Inl (JsError ''bad'')), cv_push = \<lambda>_. True\<rparr> :: (bytes, bytes) core_env) [7] = Inl (JsError ''bad'')" by simp
  from b d have "Deliver = Deliver \<and> (\<exists>data rest x. ob_buffer (final ?step (ob_new ReadableObject (\<lparr>opt_deadline = Infinite, opt_credentials = EmptyCallCredentials, opt_flags = 0\<rparr> :: unit call_options) [] :: (nat, unit) call_object) ?es) = Some data # rest \<and>
      cv_deserialize (\<lparr>cv_serialize = Inr, cv_deserialize = (\<lambda>b. Inl (JsError ''bad'')), cv_push = \<lambda>_. True\<rparr> :: (bytes, bytes) core_env) data = Inl x) \<and> INTERNAL = INTERNAL \<and> ''Failed to parse server response'' = ''Failed to parse server response''"
    by blast
  from failures_end_the_call [OF c l s disjI1 [OF this]] show ?thesis by (simp only: Let_def)
qed



text \<open>
  C9: Trailers whose grpc-message does not decode make the listener throw and have no other
  effect. All other trailers are answered once the promises settled before them have been handled
  (those may report metadata or fail the call): if the call has no status by then, exactly one
  status is emitted, with the code of grpc-status (the code mapped from the http status when it is
  absent), the decoded grpc-message as details, and the metadata of the remaining headers (none
  when they are not legal metadata); otherwise nothing.
\<close>

theorem trailers_end_the_call:
  shows "let code = (case map_of headers ''grpc-status'' of Some h \<Rightarrow> received_code (hdr_text h)
           | None \<Rightarrow> cs_mappedStatusCode st);
         md = (case cm_fromHttp2Headers (obj_del ''grpc-status'' headers) of Inl e \<Rightarrow> [] | Inr m \<Rightarrow> m);
         before = replicate (length (cs_tasks st)) RunTask
    in case (case map_of headers ''grpc-message'' of Some h \<Rightarrow> decodeURI env (hdr_text h) | None \<Rightarrow> Inr []) of
         Inl exn \<Rightarrow> cs_step env st (Trailers headers) = (st, [Uncaught exn])
       | Inr details \<Rightarrow>
           effects (cs_step env) st (Trailers headers # before @ [RunTask]) =
             effects (cs_step env) st before @
             (if cs_getStatus (final (cs_step env) st before) = None
              then [EmitStatus \<lparr>st_code = code, st_details = details, st_metadata = md\<rparr>] else [])"
proof -
  have del: "map_of headers ''grpc-status'' = None \<Longrightarrow> obj_del ''grpc-status'' headers = headers"
    by (simp add: obj_del_def delete_idem map_of_eq_None_iff)
  have msg: "map_of (obj_del ''grpc-status'' headers) ''grpc-message'' = map_of headers ''grpc-message''"
    by (simp add: obj_simps)
  show ?thesis
  proof (cases "case map_of headers ''grpc-message'' of Some h \<Rightarrow> decodeURI env (hdr_text h) | None \<Rightarrow> Inr []")
    case (Inl exn)
    with del msg show ?thesis
      by (cases "map_of headers ''grpc-status''") (simp_all add: on_trailers_def)
  next
    case (Inr details)
    let ?s = "\<lparr>st_code = (case map_of headers ''grpc-status'' of Some h \<Rightarrow> received_code (hdr_text h) | None \<Rightarrow> cs_mappedStatusCode st),
      st_details = details, st_metadata = (case cm_fromHttp2Headers (obj_del ''grpc-status'' headers) of Inl e \<Rightarrow> [] | Inr m \<Rightarrow> m)\<rparr>"
    have "cs_step env st (Trailers headers) = (st\<lparr>cs_tasks := cs_tasks st @ [StatusTask (Inr ?s)]\<rparr>, [])"
      using Inr del msg by (cases "map_of headers ''grpc-status''") (simp_all add: on_trailers_def)
    with Inr tasks_then [of env st "StatusTask (Inr ?s)"] show ?thesis
      by (simp add: on_task_def endCall_def cs_getStatus_def run_append_snd split: option.split)
  qed
qed

theorem trailers_end_the_call_witness:
  "effects (cs_step \<lparr>push_result = \<lambda>_. True, decodeURI = Inr\<rparr>) (cs_new (\<lparr>opt_deadline = Infinite, opt_credentials = EmptyCallCredentials, opt_flags = 0\<rparr> :: unit call_options) [] :: (nat, unit) call_stream)
     (Trailers [(''grpc-status'', HStr ''5''), (''grpc-message'', HStr ''gone''), (''k'', HStr ''v'')] #
      replicate (length (cs_tasks (cs_new (\<lparr>opt_deadline = Infinite, opt_credentials = EmptyCallCredentials, opt_flags = 0\<rparr> :: unit call_options) [] :: (nat, unit) call_stream))) RunTask @ [RunTask]) =
   [EmitStatus \<lparr>st_code = NOT_FOUND, st_details = ''gone'',
      st_metadata = [(''grpc-message'', [MString ''gone'']), (''k'', [MString ''v''])]\<rparr>]"
proof -
  let ?h = "[(''grpc-status'', HStr ''5''), (''grpc-message'', HStr ''gone''), (''k'', HStr ''v'')]"
  have a: "received_code (hdr_text (HStr ''5'')) = NOT_FOUND" by code_simp
  have b: "cm_fromHttp2Headers (obj_del ''grpc-status'' ?h) = Inr [(''grpc-message'', [MString ''gone'']), (''k'', [MString ''v''])]"
    by code_simp
  have c: "cs_tasks (cs_new (\<lparr>opt_deadline = Infinite, opt_credentials = EmptyCallCredentials, opt_flags = 0\<rparr> :: unit call_options) [] :: (nat, unit) call_stream) = []" "cs_getStatus (cs_new (\<lparr>opt_deadline = Infinite, opt_credentials = EmptyCallCredentials, opt_flags = 0\<rparr> :: unit call_options) [] :: (nat, unit) call_stream) = None" by (simp_all add: cs_new_def cs_getStatus_def)
  from trailers_end_the_call [where headers = ?h and st = "(cs_new (\<lparr>opt_deadline = Infinite, opt_credentials = EmptyCallCredentials, opt_flags = 0\<rparr> :: unit call_options) [] :: (nat, unit) call_stream)" and env = "\<lparr>push_result = \<lambda>_. True, decodeURI = Inr\<rparr>"] a b c show ?thesis by (simp add: Let_def)
qed

text \<open>
  C10: Any sequence of set, add and remove calls on a well-formed metadata object behaves like the
  abstract multimap: it throws exactly the exception the abstract machine stops with, and
  otherwise leaves the values of every key as the abstract machine has them (keys that name a
  property inherited from Object.prototype excluded).
\<close>

theorem core_metadata_refines_multimap:
  assumes "obj_wf m" and "list_all (\<lambda>c. core_plain_key (cmd_key c)) cmds"
  shows "map_sum id md_values (fold_res (exec_cmd cm_set cm_add cm_remove) cmds m) =
    spec_exec cm_check cm_norm cmds (md_values m)"
  by (rule cm.exec_refines [OF assms])

theorem core_metadata_refines_multimap_witness:
  "map_sum id md_values (fold_res (exec_cmd cm_set cm_add cm_remove) [CAdd ''Key'' (MString ''a''), CAdd ''key'' (MString ''b'')] []) =
    spec_exec cm_check cm_norm [CAdd ''Key'' (MString ''a''), CAdd ''key'' (MString ''b'')] (md_values [])"
  by (rule core_metadata_refines_multimap) code_simp+

text \<open>
  C11: Writing metadata built through the public interface to http2 headers and reading the
  headers back succeeds and gives every key the same values in the same order, binary values
  passing through base64 (keys inherited from Object.prototype excluded).
\<close>

theorem core_http2_round_trip:
  assumes "fold_res (exec_cmd cm_set cm_add cm_remove) cmds [] = Inr m"
    and "\<forall>k. has_own m k \<longrightarrow> \<not> inherited k"
  shows "\<exists>m'. cm_fromHttp2Headers (cm_toHttp2Headers m) = Inr m' \<and> md_values m' = md_values m"
  by (rule http2_roundtrip_values [OF cm_exec_valid [OF md_valid_Nil assms(1)] assms(2)])

theorem core_http2_round_trip_witness:
  "\<exists>m'. cm_fromHttp2Headers (cm_toHttp2Headers [(''k-bin'', [MBuffer [1, 2]])]) = Inr m' \<and>
     md_values m' = md_values [(''k-bin'', [MBuffer [1, 2]])]"
proof (rule core_http2_round_trip)
  show "fold_res (exec_cmd cm_set cm_add cm_remove) [CAdd ''K-bin'' (MBuffer [1, 2])] [] =
      Inr [(''k-bin'', [MBuffer [1, 2]])]" by code_simp
  show "\<forall>k. has_own [(''k-bin'', [MBuffer [1, 2]])] k \<longrightarrow> \<not> inherited k"
    by (simp add: has_own_def inherited_def)
qed

text \<open>
  C12: The same refinement for the native metadata class, for any native extension: sequences of
  set, add and remove calls throw what the abstract multimap machine stops with and otherwise
  leave its values.
\<close>

theorem native_metadata_refines_multimap:
  assumes "obj_wf m" and "list_all (\<lambda>c. plain_key (cmd_key c)) cmds"
  shows "map_sum id md_values
      (fold_res (exec_cmd (\<lambda>k v. nm_set ext k (MdVal v)) (\<lambda>k v. nm_add ext k (MdVal v)) (nm_remove ext)) cmds m) =
    spec_exec (nm_check ext) (nm_normalizeKey ext) cmds (md_values m)"
  by (rule nm.exec_refines [OF assms])

theorem native_metadata_refines_multimap_witness:
  "let ext = \<lparr>metadataKeyIsLegal = \<lambda>k. k \<noteq> [], metadataKeyIsBinary = (\<lambda>k. ends_with k ''-bin''),
              metadataNonbinValueIsLegal = \<lambda>v. True\<rparr>;
       cmds = [CSet ''Key'' (MString ''a''), CAdd ''key'' (MString ''b'')]
   in map_sum id md_values
      (fold_res (exec_cmd (\<lambda>k v. nm_set ext k (MdVal v)) (\<lambda>k v. nm_add ext k (MdVal v)) (nm_remove ext)) cmds []) =
    spec_exec (nm_check ext) (nm_normalizeKey ext) cmds (md_values [])"
  unfolding Let_def by (rule native_metadata_refines_multimap) code_simp+



text \<open>
  C14: Composing call credentials merges what they generate: if two credentials generate metadata,
  none of whose keys is the name of a property that objects inherit (for such a key, as
  'constructor', merge throws: see findings), their composition generates metadata that has for
  each key the values of the first followed by those of the second.
\<close>

theorem credentials_compose_merges:
  assumes "generateMetadata c options = Fulfilled m" and "generateMetadata d options = Fulfilled n"
    and "obj_wf m" and "obj_wf n" and "\<forall>k. has_own m k \<or> has_own n k \<longrightarrow> \<not> inherited k"
  shows "\<exists>merged. generateMetadata (compose_call c d) options = Fulfilled merged \<and>
    (\<forall>k. md_values merged k = md_values m k @ md_values n k)"
proof -
  have "generates c options (md_values m)" "generates d options (md_values n)" using assms by (auto simp: generates_def)
  from generates_compose [OF this] show ?thesis by (auto simp: generates_def fun_eq_iff)
qed

theorem credentials_compose_merges_witness:
  "\<exists>merged. generateMetadata (compose_call
     (SingleCallCredentials (\<lambda>_ :: unit. Some (None, Some [(''a'', [MString ''x''])])))
     (SingleCallCredentials (\<lambda>_. Some (None, Some [(''a'', [MString ''y''])])))) () = Fulfilled merged \<and>
     (\<forall>k. md_values merged k = md_values [(''a'', [MString ''x''])] k @ md_values [(''a'', [MString ''y''])] k)"
  by (rule credentials_compose_merges) (simp_all add: single_generate_def obj_wf_def has_own_def inherited_def)

text \<open>
  C15: For a deadline still ahead, the grpc-timeout header stands for at least the remaining time
  and exceeds it by less than one of its units, and it has at most nine digits and a unit.
\<close>

theorem timeout_header_bounds:
  assumes "0 \<le> t" and "timeout_string t = Some s"
  shows "\<exists>v. timeout_value s = Some v \<and> t \<le> v \<and> v < t + unit_factor t \<and> length s \<le> 10"
proof -
  have f: "0 < unit_factor t" by (simp add: unit_factor_def)
  have "ceil_div t (unit_factor t) * unit_factor t < t + unit_factor t"
    using ceil_div_bounds(2) [OF f, of t] by (simp add: left_diff_distrib)
  with ceil_div_bounds(1) [OF f, of t] timeout_string_reads [OF assms] timeout_string_digits [OF assms]
  show ?thesis by simp
qed

theorem timeout_header_bounds_witness:
  "\<exists>v. timeout_value ''100000000S'' = Some v \<and> 99999999001 \<le> v \<and> v < 99999999001 + unit_factor 99999999001 \<and>
     length ''100000000S'' \<le> 10"
proof (rule timeout_header_bounds)
  show "timeout_string 99999999001 = Some ''100000000S''"
    by (simp add: units_cases ceil_div_def int_digits_def nat_digits.simps char_of_def bit_0)
qed simp

text \<open>
  C16: A unary call from a native client to a native server refines a call of the handler: if what
  one end serializes the other end reads and the transport brings the status and the message, the
  callback is called exactly once, with the handler's value, or with the code and the message of
  the status that the handler's error, or the error of serializing its value, stands for; nothing
  happens when the argument does not serialize. Errors are to have a status code from 1 to 16 and
  no undefined metadata.
\<close>

theorem unary_calls_refine_function_calls:
  fixes cenv :: "('a, 'r) client_env" and senv :: "('p, 'q) handler_env"
  assumes "faithful_transport deliver"
    and "carries (ce_serialize cenv) (he_deserialize senv) req" and "carries (he_serialize senv) (ce_deserialize cenv) resp"
    and "\<forall>v e. he_serialize senv v = Inl e \<longrightarrow> answerable (internal_error e)"
    and "\<forall>e. fst (handler (req argument)) = Some e \<longrightarrow> answerable e"
  shows "map outcome (callbacks (unary_exchange cenv senv deliver handler argument md flags)) =
    (case ce_serialize cenv argument of
       Inl e \<Rightarrow> []
     | Inr m \<Rightarrow> [remote_result (he_serialize senv) resp (handler (req argument))])"
  by (rule unary_exchange_result [where handler = handler, OF assms])

theorem unary_calls_refine_function_calls_witness:
  fixes handler :: "(bytes, bytes) unary_handler"
  defines "handler \<equiv> \<lambda>q. if q = [] then (Some \<lparr>eo_message = Some ''empty'', eo_code = Some 3, eo_details = None, eo_metadata = MdAbsent\<rparr>, [], None, None)
      else (None, 1 # q, None, Some 2)"
  shows "map outcome (callbacks (unary_exchange (\<lparr>ce_serialize = Inr, ce_deserialize = (\<lambda>b. case b of None \<Rightarrow> Inl (plain_error ''no message'') | Some x \<Rightarrow> Inr x), ce_push = \<lambda>_. True\<rparr> :: (bytes, bytes) client_env) (\<lparr>he_serialize = Inr, he_deserialize = (\<lambda>b. case b of None \<Rightarrow> Inl (plain_error ''no message'') | Some x \<Rightarrow> Inr x), he_push = \<lambda>_. True\<rparr> :: (bytes, bytes) handler_env) (\<lambda>b. \<lparr>rs_status = (case op_send_status b of Some s \<Rightarrow> s | None \<Rightarrow> \<lparr>os_code = 2, os_details = [], os_metadata = None\<rparr>), rs_metadata = None, rs_read = map_option msg_bytes (op_send_message b)\<rparr>) handler [2] [] None)) = [Inr [1, 2]] \<and>
    map outcome (callbacks (unary_exchange (\<lparr>ce_serialize = Inr, ce_deserialize = (\<lambda>b. case b of None \<Rightarrow> Inl (plain_error ''no message'') | Some x \<Rightarrow> Inr x), ce_push = \<lambda>_. True\<rparr> :: (bytes, bytes) client_env) (\<lparr>he_serialize = Inr, he_deserialize = (\<lambda>b. case b of None \<Rightarrow> Inl (plain_error ''no message'') | Some x \<Rightarrow> Inr x), he_push = \<lambda>_. True\<rparr> :: (bytes, bytes) handler_env) (\<lambda>b. \<lparr>rs_status = (case op_send_status b of Some s \<Rightarrow> s | None \<Rightarrow> \<lparr>os_code = 2, os_details = [], os_metadata = None\<rparr>), rs_metadata = None, rs_read = map_option msg_bytes (op_send_message b)\<rparr>) handler [] [] None)) = [Inl (Some 3, Some ''empty'')]"
proof -
  have t: "faithful_transport (\<lambda>b. \<lparr>rs_status = (case op_send_status b of Some s \<Rightarrow> s | None \<Rightarrow> \<lparr>os_code = 2, os_details = [], os_metadata = None\<rparr>), rs_metadata = None, rs_read = map_option msg_bytes (op_send_message b)\<rparr>)" by (simp add: faithful_transport_def)
  have q: "carries (ce_serialize (\<lparr>ce_serialize = Inr, ce_deserialize = (\<lambda>b. case b of None \<Rightarrow> Inl (plain_error ''no message'') | Some x \<Rightarrow> Inr x), ce_push = \<lambda>_. True\<rparr> :: (bytes, bytes) client_env)) (he_deserialize (\<lparr>he_serialize = Inr, he_deserialize = (\<lambda>b. case b of None \<Rightarrow> Inl (plain_error ''no message'') | Some x \<Rightarrow> Inr x), he_push = \<lambda>_. True\<rparr> :: (bytes, bytes) handler_env)) id" by (simp add: carries_def)
  have r: "carries (he_serialize (\<lparr>he_serialize = Inr, he_deserialize = (\<lambda>b. case b of None \<Rightarrow> Inl (plain_error ''no message'') | Some x \<Rightarrow> Inr x), he_push = \<lambda>_. True\<rparr> :: (bytes, bytes) handler_env)) (ce_deserialize (\<lparr>ce_serialize = Inr, ce_deserialize = (\<lambda>b. case b of None \<Rightarrow> Inl (plain_error ''no message'') | Some x \<Rightarrow> Inr x), ce_push = \<lambda>_. True\<rparr> :: (bytes, bytes) client_env)) id" by (simp add: carries_def)
  have s: "\<forall>v e. he_serialize (\<lparr>he_serialize = Inr, he_deserialize = (\<lambda>b. case b of None \<Rightarrow> Inl (plain_error ''no message'') | Some x \<Rightarrow> Inr x), he_push = \<lambda>_. True\<rparr> :: (bytes, bytes) handler_env) v = Inl e \<longrightarrow> answerable (internal_error e)" by simp
  have h: "\<forall>e. fst (handler (id q)) = Some e \<longrightarrow> answerable e" for q
    by (simp add: handler_def answerable_def handleError_status_def)
  note exchange = unary_calls_refine_function_calls [where handler = handler, OF t q r s h]
  show ?thesis
    by (simp add: exchange) (simp add: handler_def remote_result_def error_seen_def handleError_status_def)
qed

text \<open>
  C17: The chunks a server writes to a server streaming or bidirectional call reach the user of
  the client in order: whatever else happens on the server call, in any legal order, when the
  reads of the client have brought the first n messages that the server sent, the messages the
  client has pushed are what the chunks stand for that were written first (of those that
  serialize).
\<close>

theorem server_stream_round_trip:
  fixes cenv :: "('a, 'r) client_env" and senv :: "('p, 'q) handler_env"
  assumes "carries (he_serialize senv) (ce_deserialize cenv) resp" and "writable_kind kind"
    and "legal_run (sv_step senv) sv_legal (sc_new kind) es"
    and "cl_reads_of fs = take n (sv_sent (effects (sv_step senv) (sc_new kind) es))"
  shows "cl_messages (effects (cl_step cenv) st fs) = map resp (take n (map fst (sv_written senv es)))"
proof -
  let ?w = "take n (sv_written senv es)"
  have "sv_sent (effects (sv_step senv) (sc_new kind) es) = map snd (sv_written senv es)"
    using assms(2,3) by (intro server_stream_sent) simp_all
  with assms(4) have reads: "cl_reads_of fs = map snd ?w" by (simp add: take_map)
  have "list_all2 (\<lambda>b m. ce_deserialize cenv (Some b) = Inr m) (map snd ?w) (map (resp \<circ> fst) ?w)"
    by (auto simp: list_all2_map1 list_all2_map2 list_all2_same dest!: in_set_takeD carried_messages [OF assms(1)])
  from parsed_reads [OF this [folded reads]] show ?thesis by (simp add: client_messages take_map)
qed

theorem server_stream_round_trip_witness:
  "let fs = [ClStart [1] [] None, ClRead, ClReadDone (Inr (Some [7])), ClReadDone (Inr (Some [8])), ClReadDone (Inr None)]
   in cl_messages (effects (cl_step (\<lparr>ce_serialize = Inr, ce_deserialize = (\<lambda>b. case b of None \<Rightarrow> Inl (plain_error ''no message'') | Some x \<Rightarrow> Inr x), ce_push = \<lambda>_. True\<rparr> :: (bytes, bytes) client_env)) (cl_new ClServerStream :: nat client_call) fs) = [[7], [8]]"
proof -
  let ?es = "[Start, RequestDone (Inr (Some [1])), Write [7] (EncodingName ''utf8'') (0 :: nat), Write [8] (EncodingFlags 1) 1,
    WriteBatchDone 0 None, End None, Finish]"
  let ?fs = "[ClStart [1] [] None, ClRead, ClReadDone (Inr (Some [7])), ClReadDone (Inr (Some [8])), ClReadDone (Inr None)] ::
    (bytes, nat) cl_event list"
  have c: "carries (he_serialize (\<lparr>he_serialize = Inr, he_deserialize = (\<lambda>b. case b of None \<Rightarrow> Inl (plain_error ''no message'') | Some x \<Rightarrow> Inr x), he_push = \<lambda>_. True\<rparr> :: (bytes, bytes) handler_env)) (ce_deserialize (\<lparr>ce_serialize = Inr, ce_deserialize = (\<lambda>b. case b of None \<Rightarrow> Inl (plain_error ''no message'') | Some x \<Rightarrow> Inr x), ce_push = \<lambda>_. True\<rparr> :: (bytes, bytes) client_env)) id" by (simp add: carries_def)
  have w: "writable_kind ServerStream" by (simp add: writable_kind_def)
  have l: "legal_run (sv_step (\<lparr>he_serialize = Inr, he_deserialize = (\<lambda>b. case b of None \<Rightarrow> Inl (plain_error ''no message'') | Some x \<Rightarrow> Inr x), he_push = \<lambda>_. True\<rparr> :: (bytes, bytes) handler_env)) sv_legal (sc_new ServerStream) ?es" by code_simp
  have r: "cl_reads_of ?fs = take 2 (sv_sent (effects (sv_step (\<lparr>he_serialize = Inr, he_deserialize = (\<lambda>b. case b of None \<Rightarrow> Inl (plain_error ''no message'') | Some x \<Rightarrow> Inr x), he_push = \<lambda>_. True\<rparr> :: (bytes, bytes) handler_env)) (sc_new ServerStream) ?es))" by code_simp
  have "map fst (sv_written (\<lparr>he_serialize = Inr, he_deserialize = (\<lambda>b. case b of None \<Rightarrow> Inl (plain_error ''no message'') | Some x \<Rightarrow> Inr x), he_push = \<lambda>_. True\<rparr> :: (bytes, bytes) handler_env) ?es) = [[7], [8]]" by simp
  with server_stream_round_trip [OF c w l r, of "cl_new ClServerStream"] show ?thesis by (simp only: Let_def) simp
qed

text \<open>
  C18: The chunks a client writes to a client streaming or bidirectional call whose writes have
  not failed reach the handler in order: when the reads of the server have brought the first n
  messages that the client sent, and then perhaps the end, and the server's stream is not
  finished, the items pushed to the handler are what the chunks stand for that were written first
  (of those that serialize), and then the end.
\<close>

theorem client_stream_round_trip:
  fixes cenv :: "('a, 'r) client_env" and senv :: "('p, 'q) handler_env"
  assumes "carries (ce_serialize cenv) (he_deserialize senv) req" and "cl_writes kind"
    and "\<not> cl_writeFailed (final (cl_step cenv) (cl_new kind) es)"
    and "read_results fs = map Some (take n (cl_sent (effects (cl_step cenv) (cl_new kind) es))) @ replicate k None"
    and "\<not> sc_finished (final (sv_step senv) st fs)"
  shows "sv_pushes (effects (sv_step senv) st fs) =
    map (Some \<circ> req) (take n (map fst (cl_written cenv es))) @ replicate k None"
proof -
  let ?w = "take n (cl_written cenv es)" and ?g = "\<lambda>b. projr (he_deserialize senv (Some b))"
  have "cl_sent (effects (cl_step cenv) (cl_new kind) es) = map snd (cl_written cenv es)"
    using assms(2,3) by (intro client_stream_sent) simp_all
  with assms(4) have reads: "read_results fs = map (Some \<circ> snd) ?w @ replicate k None" by (simp add: take_map)
  have des: "he_deserialize senv (Some (snd w)) = Inr (req (fst w))" if "w \<in> set ?w" for w
    using that carried_requests [OF assms(1), of "fst w" "snd w"] by (auto dest: in_set_takeD)
  have "\<forall>b. Some b \<in> set (read_results fs) \<longrightarrow> he_deserialize senv (Some b) = Inr (?g b)"
    using des unfolding reads by auto
  from reads_in_order [OF assms(5) this] have "sv_pushes (effects (sv_step senv) st fs) = map (map_option ?g) (read_results fs)"
    by simp
  moreover have "map (?g \<circ> snd) ?w = map (req \<circ> fst) ?w" using des by simp
  ultimately show ?thesis unfolding reads by (simp add: take_map comp_def)
qed

theorem client_stream_round_trip_witness:
  "let fs = [Start, Read, ReadDone (Inr (Some [7])), ReadDone (Inr (Some [8])), ReadDone (Inr None)]
   in sv_pushes (effects (sv_step (\<lparr>he_serialize = Inr, he_deserialize = (\<lambda>b. case b of None \<Rightarrow> Inl (plain_error ''no message'') | Some x \<Rightarrow> Inr x), he_push = \<lambda>_. True\<rparr> :: (bytes, bytes) handler_env)) (sc_new ClientStream :: (bytes, nat) server_call) fs) = [Some [7], Some [8], None]"
proof -
  let ?fs = "[Start, Read, ReadDone (Inr (Some [7])), ReadDone (Inr (Some [8])), ReadDone (Inr None)] :: (bytes, nat) sv_event list"
  let ?es = "[ClStart [] [] None, ClWrite [7] (ClEncodingName ''utf8'') (0 :: nat), ClWriteBatchDone 0 None, ClWrite [8] (ClEncodingFlags 2) 1, ClFinish]"
  have c: "carries (ce_serialize (\<lparr>ce_serialize = Inr, ce_deserialize = (\<lambda>b. case b of None \<Rightarrow> Inl (plain_error ''no message'') | Some x \<Rightarrow> Inr x), ce_push = \<lambda>_. True\<rparr> :: (bytes, bytes) client_env)) (he_deserialize (\<lparr>he_serialize = Inr, he_deserialize = (\<lambda>b. case b of None \<Rightarrow> Inl (plain_error ''no message'') | Some x \<Rightarrow> Inr x), he_push = \<lambda>_. True\<rparr> :: (bytes, bytes) handler_env)) id" by (simp add: carries_def)
  have w: "cl_writes ClClientStream" by (simp add: cl_writes_def)
  have n: "\<not> cl_writeFailed (final (cl_step (\<lparr>ce_serialize = Inr, ce_deserialize = (\<lambda>b. case b of None \<Rightarrow> Inl (plain_error ''no message'') | Some x \<Rightarrow> Inr x), ce_push = \<lambda>_. True\<rparr> :: (bytes, bytes) client_env)) (cl_new ClClientStream) ?es)" by code_simp
  have r: "read_results ?fs = map Some (take 2 (cl_sent (effects (cl_step (\<lparr>ce_serialize = Inr, ce_deserialize = (\<lambda>b. case b of None \<Rightarrow> Inl (plain_error ''no message'') | Some x \<Rightarrow> Inr x), ce_push = \<lambda>_. True\<rparr> :: (bytes, bytes) client_env)) (cl_new ClClientStream) ?es))) @ replicate 1 None"
    by code_simp
  have f: "\<not> sc_finished (final (sv_step (\<lparr>he_serialize = Inr, he_deserialize = (\<lambda>b. case b of None \<Rightarrow> Inl (plain_error ''no message'') | Some x \<Rightarrow> Inr x), he_push = \<lambda>_. True\<rparr> :: (bytes, bytes) handler_env)) (sc_new ClientStream) ?fs)" by code_simp
  have "map fst (cl_written (\<lparr>ce_serialize = Inr, ce_deserialize = (\<lambda>b. case b of None \<Rightarrow> Inl (plain_error ''no message'') | Some x \<Rightarrow> Inr x), ce_push = \<lambda>_. True\<rparr> :: (bytes, bytes) client_env) ?es) = [[7], [8]]" by simp
  with client_stream_round_trip [OF c w n r f] show ?thesis by (simp only: Let_def) simp
qed

text \<open>
  C19: Every legal run of a server call (for unary and client streaming calls, up to its status)
  follows the sending protocol of a call: initial metadata is sent at most once and before or with
  the first message or status, the status is sent at most once, and nothing is sent after it.
\<close>

theorem server_call_follows_protocol:
  assumes "legal_run (sv_step env) sv_legal_open (sc_new kind) es"
  shows "accepts call_protocol (False, False) (effects (sv_step env) (sc_new kind) es) =
    Some (sv_phase (final (sv_step env) (sc_new kind) es))"
  using server_call.run_follows [OF sv_inv_new assms] by (simp add: sv_phase_def) (simp add: sc_new_eq)

theorem server_call_follows_protocol_witness:
  "let es = [Start, Write [1] (EncodingName ''utf8'') (0 :: nat), End None, Write [2] (EncodingFlags 1) 1, Finish]
   in accepts call_protocol (False, False) (effects (sv_step (\<lparr>he_serialize = Inr, he_deserialize = (\<lambda>b. case b of None \<Rightarrow> Inl (plain_error ''no message'') | Some x \<Rightarrow> Inr x), he_push = \<lambda>_. True\<rparr> :: (bytes, bytes) handler_env)) (sc_new Bidi) es) = Some (True, True)"
proof -
  let ?es = "[Start, Write [1] (EncodingName ''utf8'') (0 :: nat), End None, Write [2] (EncodingFlags 1) 1, Finish]"
  have "legal_run (sv_step (\<lparr>he_serialize = Inr, he_deserialize = (\<lambda>b. case b of None \<Rightarrow> Inl (plain_error ''no message'') | Some x \<Rightarrow> Inr x), he_push = \<lambda>_. True\<rparr> :: (bytes, bytes) handler_env)) sv_legal_open (sc_new Bidi) ?es" by code_simp
  from server_call_follows_protocol [OF this]
  have "accepts call_protocol (False, False) (effects (sv_step (\<lparr>he_serialize = Inr, he_deserialize = (\<lambda>b. case b of None \<Rightarrow> Inl (plain_error ''no message'') | Some x \<Rightarrow> Inr x), he_push = \<lambda>_. True\<rparr> :: (bytes, bytes) handler_env)) (sc_new Bidi) ?es) =
      Some (sv_phase (final (sv_step (\<lparr>he_serialize = Inr, he_deserialize = (\<lambda>b. case b of None \<Rightarrow> Inl (plain_error ''no message'') | Some x \<Rightarrow> Inr x), he_push = \<lambda>_. True\<rparr> :: (bytes, bytes) handler_env)) (sc_new Bidi) ?es))" .
  moreover have "sv_phase (final (sv_step (\<lparr>he_serialize = Inr, he_deserialize = (\<lambda>b. case b of None \<Rightarrow> Inl (plain_error ''no message'') | Some x \<Rightarrow> Inr x), he_push = \<lambda>_. True\<rparr> :: (bytes, bytes) handler_env)) (sc_new Bidi) ?es) = (True, True)" by code_simp
  ultimately show ?thesis by (simp only: Let_def)
qed

text \<open>
  C20: At any point of a legal run of a server call, of any kind and whatever was answered or
  failed before, at most one read of a message is outstanding, so the messages of a client stream
  cannot overtake each other.
\<close>

theorem server_one_read_outstanding:
  assumes "legal_run (sv_step env) sv_legal (sc_new kind) es"
  shows "count_list (sc_pending (final (sv_step env) (sc_new kind) es)) TagRead \<le> 1"
  using server_reads.inv_run [OF read_inv_new assms] by (simp add: read_inv_def split: if_splits)

theorem server_one_read_outstanding_witness:
  "count_list (sc_pending (final (sv_step (\<lparr>he_serialize = Inr, he_deserialize = (\<lambda>b. case b of None \<Rightarrow> Inl (plain_error ''no message'') | Some x \<Rightarrow> Inr x), he_push = \<lambda>_. True\<rparr> :: (bytes, bytes) handler_env)) (sc_new ClientStream :: (bytes, nat) server_call)
      [Start, Read, ReadDone (Inr (Some [7])), Respond None [1] None None, Read, EmitError (plain_error ''late''), Read])) TagRead \<le> 1"
  by (rule server_one_read_outstanding) code_simp



text \<open>
  C22: When the request of a unary or server streaming call does not deserialize, the handler is
  not called and the call ends with one status: INTERNAL, with the details of the error if it has
  own details, else its message, else 'Unknown Error', and with the error's own metadata if it has
  any (for the stream, when Node reports that it has finished). An own metadata property that is
  undefined is excluded (see findings).
\<close>

theorem bad_request_ends_internal:
  assumes "he_deserialize env data = Inl e" and "eo_metadata e \<noteq> MdUndefined" and "kind = Unary \<or> kind = ServerStream"
  shows "let eff = effects (sv_step env) (sc_new kind)
        (if kind = Unary then [Start, RequestDone (Inr data)] else [Start, RequestDone (Inr data), Finish])
    in (\<forall>r. CallHandler r \<notin> set eff) \<and>
      (\<exists>b. batches eff = [(no_ops\<lparr>op_recv_close := True\<rparr>, TagCancel), (recv_message, TagRequest), (b, TagNone)] \<and>
        op_send_status b = Some
          \<lparr>os_code = 13,
           os_details = (case eo_details e of Some d \<Rightarrow> d
             | None \<Rightarrow> (case eo_message e of Some m \<Rightarrow> m | None \<Rightarrow> ''Unknown Error'')),
           os_metadata = Some (case eo_metadata e of MdGiven m \<Rightarrow> m | _ \<Rightarrow> [])\<rparr>)"
  using assms
  by (cases "eo_metadata e"; cases "eo_details e"; cases "eo_message e")
    (auto simp: sv_step_def sv_start_eq waitForCancel_def sv_request_done_eq emit_error_def handleError_def
      handleError_status_def terminateCall_def setStatus_def stream_end_def sendStatus_def internal_error_def
      writable_kind_def readable_kind_def sc_new_eq sv_record_def nm_empty_def nm_getCoreRepresentation_def Let_def)

theorem bad_request_ends_internal_witness:
  "let eff = effects (sv_step (\<lparr>he_serialize = Inr, he_deserialize = (\<lambda>b. case b of None \<Rightarrow> Inl (plain_error ''no message'') | Some x \<Rightarrow> Inr x), he_push = \<lambda>_. True\<rparr> :: (bytes, bytes) handler_env)) (sc_new ServerStream :: (bytes, nat) server_call)
        (if ServerStream = Unary then [Start, RequestDone (Inr None)] else [Start, RequestDone (Inr None), Finish])
   in \<forall>r. CallHandler r \<notin> set eff"
proof -
  have d: "he_deserialize (\<lparr>he_serialize = Inr, he_deserialize = (\<lambda>b. case b of None \<Rightarrow> Inl (plain_error ''no message'') | Some x \<Rightarrow> Inr x), he_push = \<lambda>_. True\<rparr> :: (bytes, bytes) handler_env) None = Inl (plain_error ''no message'')" by simp
  have m: "eo_metadata (plain_error ''no message'') \<noteq> MdUndefined" by simp
  from bad_request_ends_internal [OF d m, of ServerStream] show ?thesis unfolding Let_def by blast
qed

text \<open>
  C23: The default handlers installed for methods without an implementation end a call of every
  kind with the status UNIMPLEMENTED and its details, in one batch that also sends the initial
  metadata (for the writable kinds, when Node reports that the stream has finished).
\<close>

theorem default_handlers_answer_unimplemented:
  fixes st :: "('q, 'k) server_call"
  assumes "sc_kind st = kind" and "\<not> sc_metadataSent st"
  shows "\<exists>b. batches (effects (sv_step env) st
        (defaultHandler kind undef # (if writable_kind kind then [Finish] else []))) = [(b, TagNone)] \<and>
    op_send_initial_metadata b = Some [] \<and> op_send_message b = None \<and>
    op_send_status b = Some \<lparr>os_code = 12, os_details = ''The server does not implement this method'', os_metadata = Some []\<rparr>"
  using assms
  by (cases kind)
    (simp_all add: sv_step_def defaultHandler_def sendUnaryData_eq terminate_def emit_error_def handleError_def
      handleError_status_def terminateCall_def setStatus_def stream_end_def sendStatus_def unimplementedStatusResponse_def
      writable_kind_def sv_record_def nm_empty_def nm_getCoreRepresentation_def Let_def)

theorem default_handlers_answer_unimplemented_witness:
  "\<exists>b. batches (effects (sv_step (\<lparr>he_serialize = Inr, he_deserialize = (\<lambda>b. case b of None \<Rightarrow> Inl (plain_error ''no message'') | Some x \<Rightarrow> Inr x), he_push = \<lambda>_. True\<rparr> :: (bytes, bytes) handler_env)) (sc_new ClientStream :: (bytes, nat) server_call)
        (defaultHandler ClientStream [] # (if writable_kind ClientStream then [Finish] else []))) = [(b, TagNone)] \<and>
    op_send_initial_metadata b = Some [] \<and> op_send_message b = None \<and>
    op_send_status b = Some \<lparr>os_code = 12, os_details = ''The server does not implement this method'', os_metadata = Some []\<rparr>"
proof -
  have k: "sc_kind (sc_new ClientStream :: (bytes, nat) server_call) = ClientStream" by (simp add: sc_new_eq)
  have m: "\<not> sc_metadataSent (sc_new ClientStream :: (bytes, nat) server_call)" by (simp add: sc_new_eq)
  show ?thesis using default_handlers_answer_unimplemented [OF k m, of "(\<lparr>he_serialize = Inr, he_deserialize = (\<lambda>b. case b of None \<Rightarrow> Inl (plain_error ''no message'') | Some x \<Rightarrow> Inr x), he_push = \<lambda>_. True\<rparr> :: (bytes, bytes) handler_env)" "[]"] .
qed

text \<open>
  C24: Whatever calls are made on a server, a registered path keeps its handler: neither register
  nor addService, successful or not, replaces an entry.
\<close>

theorem handlers_are_never_replaced:
  assumes "map_of (srv_handlers srv) p = Some x"
  shows "map_of (srv_handlers (final (srv_step v) srv es)) p = Some x"
  using assms by (induction es arbitrary: srv) (auto intro: srv_step_keeps)

theorem handlers_are_never_replaced_witness:
  "let e = \<lparr>hd_func = Bound (1 :: nat), hd_serialize = (), hd_deserialize = (), hd_type = ''unary''\<rparr>;
       srv = \<lparr>srv_handlers = [(''/s/A'', e)], srv_started = False, srv_requests = 0\<rparr>
   in map_of (srv_handlers (final (srv_step 0) srv
        [Register ''/s/A'' (Bound 2) () () ''bidi'', StartServer, NewCall (Inr (7 :: nat, Some ''/s/B'', None))])) ''/s/A'' = Some e"
  unfolding Let_def by (rule handlers_are_never_replaced) simp

text \<open>
  C25: A server that was started has exactly one request for a new call outstanding after any
  sequence of calls and method invocations in which new calls arrive without error and with a
  method, so it never stops accepting and never asks twice.
\<close>

theorem server_keeps_accepting:
  assumes "server_start srv = (srv1, eff :: ('h, 's, 'd, 'call) srv_effect list, None)" and "srv_requests srv = 0"
    and "list_all live_event (es :: ('h, 's, 'd, 'call) srv_event list)"
  shows "srv_requests (final (srv_step v) srv1 es) = 1 \<and> srv_started (final (srv_step v) srv1 es)"
proof -
  have "srv_started srv1 \<and> srv_requests srv1 = 1"
    using assms(1,2) by (auto simp: server_start_def request_call_def Let_def split: if_splits)
  with srv_run_live [of srv1 es v] assms(3) show ?thesis by simp
qed

theorem server_keeps_accepting_witness:
  "let srv1 = \<lparr>srv_handlers = [], srv_started = True, srv_requests = 1\<rparr> :: (nat, nat, nat) server;
       es = [NewCall (Inr (7 :: nat, Some ''/s/A'', None)), StartServer, NewCall (Inr (8, Some ''/s/B'', None))]
   in srv_requests (final (srv_step 0) srv1 es) = 1 \<and> srv_started (final (srv_step 0) srv1 es)"
  unfolding Let_def
  by (rule server_keeps_accepting [where srv = server_new and eff = "[NativeStart, RequestCall]"])
    (simp_all add: server_start_def request_call_def server_new_def)

text \<open>
  C26: A server streaming or bidirectional client call emits its status event exactly once, when
  its reads are done and the status has been received, and never before; the status is the one the
  reads ended with if that is not OK, and the received one otherwise.
\<close>

theorem client_status_event:
  assumes "legal_run (cl_step env) cl_legal (cl_new kind) es" and "cl_reads kind"
  shows "filter is_cl_status (effects (cl_step env) (cl_new kind) es) =
    (case (cl_read_status (final (cl_step env) (cl_new kind) es), cl_received_status (final (cl_step env) (cl_new kind) es)) of
       (Some r, Some s) \<Rightarrow> [ClEmitStatus (if os_code r \<noteq> 0 then r else s)]
     | _ \<Rightarrow> [])"
proof -
  have "\<not> cl_both (cl_new kind)" by (simp add: cl_both_def cl_new_eq)
  from emitted_status [OF cl_reading_new [OF assms(2)] assms(1) this] show ?thesis
    by (auto simp: chosen_status_def split: option.splits)
qed

theorem client_status_event_witness:
  "let es = [ClStart [1] [] None, ClRead, ClStatusDone (Inr \<lparr>os_code = 0, os_details = ''OK'', os_metadata = Some []\<rparr>), ClReadDone (Inr (Some [7])), ClReadDone (Inr None)]
   in filter is_cl_status (effects (cl_step (\<lparr>ce_serialize = Inr, ce_deserialize = (\<lambda>b. case b of None \<Rightarrow> Inl (plain_error ''no message'') | Some x \<Rightarrow> Inr x), ce_push = \<lambda>_. True\<rparr> :: (bytes, bytes) client_env)) (cl_new ClServerStream :: nat client_call) es) = [ClEmitStatus \<lparr>os_code = 0, os_details = ''OK'', os_metadata = Some []\<rparr>]"
proof -
  let ?es = "[ClStart [1] [] None, ClRead, ClStatusDone (Inr \<lparr>os_code = 0, os_details = ''OK'', os_metadata = Some []\<rparr>), ClReadDone (Inr (Some [7])), ClReadDone (Inr None)] :: (bytes, nat) cl_event list"
  let ?st = "final (cl_step (\<lparr>ce_serialize = Inr, ce_deserialize = (\<lambda>b. case b of None \<Rightarrow> Inl (plain_error ''no message'') | Some x \<Rightarrow> Inr x), ce_push = \<lambda>_. True\<rparr> :: (bytes, bytes) client_env)) (cl_new ClServerStream :: nat client_call) ?es"
  have l: "legal_run (cl_step (\<lparr>ce_serialize = Inr, ce_deserialize = (\<lambda>b. case b of None \<Rightarrow> Inl (plain_error ''no message'') | Some x \<Rightarrow> Inr x), ce_push = \<lambda>_. True\<rparr> :: (bytes, bytes) client_env)) cl_legal (cl_new ClServerStream) ?es" by code_simp
  have r: "cl_reads ClServerStream" by (simp add: cl_reads_def)
  have "cl_read_status ?st = Some \<lparr>os_code = 0, os_details = ''OK'', os_metadata = None\<rparr>"
    "cl_received_status ?st = Some \<lparr>os_code = 0, os_details = ''OK'', os_metadata = Some []\<rparr>" by code_simp+
  with client_status_event [OF l r] show ?thesis by (simp add: Let_def)
qed

text \<open>
  C27: In every legal run of a server streaming or bidirectional client call, the messages pushed
  to the user are exactly those of the completed reads that the deserializer accepts, in the order
  of the reads; and once the status event has been emitted no message is pushed whatever follows.
\<close>

theorem client_messages_in_order:
  assumes "legal_run (cl_step env) cl_legal (cl_new kind) (es @ fs)" and "cl_reads kind"
  shows "cl_messages (effects (cl_step env) (cl_new kind) es) = parsed_messages env es \<and>
    (filter is_cl_status (effects (cl_step env) (cl_new kind) es) \<noteq> [] \<longrightarrow>
       cl_messages (effects (cl_step env) (final (cl_step env) (cl_new kind) es) fs) = [])"
proof (intro conjI impI client_messages)
  let ?st = "final (cl_step env) (cl_new kind) es"
  assume s: "filter is_cl_status (effects (cl_step env) (cl_new kind) es) \<noteq> []"
  have l: "legal_run (cl_step env) cl_legal (cl_new kind) es" "legal_run (cl_step env) cl_legal ?st fs"
    using assms(1) by (auto simp: legal_run_append)
  have inv: "cl_reading_inv ?st" using status_latch.inv_run [OF cl_reading_new [OF assms(2)] l(1)] .
  have "\<not> cl_both (cl_new kind)" by (simp add: cl_both_def cl_new_eq)
  from emitted_status [OF cl_reading_new [OF assms(2)] l(1) this] s have "cl_both ?st"
    by (auto simp: cl_both_def chosen_status_def split: option.splits)
  from after_both [OF inv l(2) this] show "cl_messages (effects (cl_step env) ?st fs) = []" by (simp add: no_messages)
qed

theorem client_messages_in_order_witness:
  "let es = [ClStart [1] [] None, ClRead, ClReadDone (Inr (Some [7])), ClReadDone (Inr None), ClStatusDone (Inr \<lparr>os_code = 0, os_details = ''OK'', os_metadata = Some []\<rparr>)]
   in cl_messages (effects (cl_step (\<lparr>ce_serialize = Inr, ce_deserialize = (\<lambda>b. case b of None \<Rightarrow> Inl (plain_error ''no message'') | Some x \<Rightarrow> Inr x), ce_push = \<lambda>_. True\<rparr> :: (bytes, bytes) client_env)) (cl_new ClServerStream :: nat client_call) es) = [[7]]"
proof -
  let ?es = "[ClStart [1] [] None, ClRead, ClReadDone (Inr (Some [7])), ClReadDone (Inr None), ClStatusDone (Inr \<lparr>os_code = 0, os_details = ''OK'', os_metadata = Some []\<rparr>)] :: (bytes, nat) cl_event list"
  have l: "legal_run (cl_step (\<lparr>ce_serialize = Inr, ce_deserialize = (\<lambda>b. case b of None \<Rightarrow> Inl (plain_error ''no message'') | Some x \<Rightarrow> Inr x), ce_push = \<lambda>_. True\<rparr> :: (bytes, bytes) client_env)) cl_legal (cl_new ClServerStream) (?es @ [ClCancelCall])" by code_simp
  have r: "cl_reads ClServerStream" by (simp add: cl_reads_def)
  have "parsed_messages (\<lparr>ce_serialize = Inr, ce_deserialize = (\<lambda>b. case b of None \<Rightarrow> Inl (plain_error ''no message'') | Some x \<Rightarrow> Inr x), ce_push = \<lambda>_. True\<rparr> :: (bytes, bytes) client_env) ?es = [[7]]" by simp
  with client_messages_in_order [OF l r] show ?thesis by (simp only: Let_def)
qed

text \<open>
  C28: In every legal run of a client call the response batch completes at most once, and the
  callback of a unary or client streaming request is called exactly once if it has completed with
  a response and not otherwise (a completion with an error and no response throws instead: see
  findings); it is called with a value if and only if there is no batch error, the status received
  is OK and the message deserializes to that value.
\<close>

theorem client_callback_once:
  assumes "legal_run (cl_step env) cl_legal (cl_new kind) es"
  shows "let called = filter is_callback (effects (cl_step env) (cl_new kind) es)
    in length (responses es) \<le> 1 \<and>
      (case responses es of
         [(err, Some r)] \<Rightarrow>
           \<exists>x. called = [ClCallback x] \<and>
             (\<forall>v. x = Inr v \<longleftrightarrow> err = None \<and> os_code (rs_status r) = 0 \<and> ce_deserialize env (rs_read r) = Inr v)
       | _ \<Rightarrow> called = [])"
proof -
  have "length (responses es) \<le> 1" using responses_bounded [OF cl_inv_new assms] by (simp add: cl_new_eq)
  with callbacks_run [OF cl_inv_new assms] show ?thesis by (simp only: Let_def callbacks_for_def answer_for_def simp_thms)
qed

theorem client_callback_once_witness:
  "let es = [ClStart [1] [] None, ClResponseDone None (Some \<lparr>rs_status = \<lparr>os_code = 0, os_details = ''OK'', os_metadata = Some []\<rparr>, rs_metadata = None, rs_read = Some [9]\<rparr>), ClCancelCall]
   in filter is_callback (effects (cl_step (\<lparr>ce_serialize = Inr, ce_deserialize = (\<lambda>b. case b of None \<Rightarrow> Inl (plain_error ''no message'') | Some x \<Rightarrow> Inr x), ce_push = \<lambda>_. True\<rparr> :: (bytes, bytes) client_env)) (cl_new ClUnary :: nat client_call) es) = [ClCallback (Inr [9])]"
proof -
  let ?r = "\<lparr>rs_status = \<lparr>os_code = 0, os_details = ''OK'', os_metadata = Some []\<rparr>, rs_metadata = None, rs_read = Some [9]\<rparr>"
  let ?es = "[ClStart [1] [] None, ClResponseDone None (Some ?r), ClCancelCall] :: (bytes, nat) cl_event list"
  have l: "legal_run (cl_step (\<lparr>ce_serialize = Inr, ce_deserialize = (\<lambda>b. case b of None \<Rightarrow> Inl (plain_error ''no message'') | Some x \<Rightarrow> Inr x), ce_push = \<lambda>_. True\<rparr> :: (bytes, bytes) client_env)) cl_legal (cl_new ClUnary) ?es" by code_simp
  have r: "responses ?es = [(None, Some ?r)]" by simp
  have "os_code (rs_status ?r) = 0" "ce_deserialize (\<lparr>ce_serialize = Inr, ce_deserialize = (\<lambda>b. case b of None \<Rightarrow> Inl (plain_error ''no message'') | Some x \<Rightarrow> Inr x), ce_push = \<lambda>_. True\<rparr> :: (bytes, bytes) client_env) (rs_read ?r) = Inr [9]" by simp_all
  with client_callback_once [OF l] show ?thesis
    unfolding Let_def r list.case prod.case option.case by (elim conjE exE) metis
qed

text \<open>
  C29: A client and a server made from the same service definition agree: the client method for a
  name calls the path under which the server registered that method, and the server handles a call
  of that path with the streaming kind that corresponds to the request method the client uses.
\<close>

theorem client_and_server_agree:
  assumes "obj_wf svc" and "\<forall>k. has_own svc k \<longrightarrow> take 1 k \<noteq> ''$''" and "(name, attrs) \<in> set svc"
    and "distinct (map (at_path \<circ> snd) svc)" and "\<forall>e \<in> set svc. at_path (snd e) \<noteq> ''__proto__''"
  shows "\<exists>proto srv' eff m. makeClientConstructor svc None = Inr proto \<and> map_of proto name = Some m \<and>
    addService v (Some svc) (Some impl) server_new = (srv', eff :: ('h, 's, 'd, 'call) srv_effect list, None) \<and>
    snd (handleNewCall (Inr (call, Some (cm_path m), md)) srv') =
      [RequestCall, HandleCall (handled_as (cm_kind m)) call (entry_for impl name attrs) (nm_fromCoreRepresentation md)]"
  using both_ends [OF assms, of v impl call md] by (fastforce simp: client_method_for_def)

theorem client_and_server_agree_witness:
  fixes a :: "(nat, nat) method_attrs"
  defines "a \<equiv> \<lparr>at_path = ''/s/A'', at_originalName = None, at_requestStream = False, at_responseStream = True,
      at_requestSerialize = 0, at_responseSerialize = 1, at_requestDeserialize = 2, at_responseDeserialize = 3\<rparr>"
  shows "\<exists>proto srv' eff m. makeClientConstructor [(''a'', a)] None = Inr proto \<and> map_of proto ''a'' = Some m \<and>
    addService 0 (Some [(''a'', a)]) (Some (\<lambda>n. Some n)) server_new = (srv', eff :: (string, nat, nat, nat) srv_effect list, None) \<and>
    snd (handleNewCall (Inr (7, Some (cm_path m), None)) srv') =
      [RequestCall, HandleCall (handled_as (cm_kind m)) 7 (entry_for (\<lambda>n. Some n) ''a'' a) (nm_fromCoreRepresentation None)]"
  by (rule client_and_server_agree) (simp_all add: obj_wf_def has_own_def a_def)

text \<open>
  C30: In every legal run of a js-core unary or client streaming call, with the stream's items
  emitted as Node comes to it, the callback is not called before the call has a status and is
  called exactly once when it has: with the final status as the error if it is not OK, and
  otherwise with the value of the one message that was handled before, or null if none was (which
  the comment at client.ts:79 does not expect).
\<close>

theorem core_unary_callback_once:
  fixes es :: "'c uc_event list" and opts :: "'o call_options" and cenv :: "('p, 'r) core_env"
  assumes "legal_run (uc_step env cenv) uc_legal (uc_new opts factories) es"
  shows "let u = final (uc_step env cenv) (uc_new opts factories) es; out = effects (uc_step env cenv) (uc_new opts factories) es
    in case cs_getStatus (uc_stream u) of
         None \<Rightarrow> answers out = []
       | Some s \<Rightarrow>
           \<exists>pre r post. out = pre @ UcAnswer (if st_code s = OK then Inr r else Inl s) # post \<and>
             answers pre = [] \<and> answers post = [] \<and>
             (st_code s = OK \<longrightarrow>
                data_seen pre = [] \<and> r = None \<or>
                (\<exists>b m. data_seen pre = [b] \<and> cv_deserialize cenv b = Inr m \<and> r = Some m))"
proof (cases "cs_getStatus (uc_stream (final (uc_step env cenv) (uc_new opts factories) es))")
  case None
  with uc_run_inv [OF uc_inv_new assms] show ?thesis by (simp add: uc_inv_def)
next
  case (Some s)
  with uc_run_inv [OF uc_inv_new assms]
  have "answered_with cenv (effects (uc_step env cenv) (uc_new opts factories) es) s" by (simp add: uc_inv_def)
  then show ?thesis unfolding Let_def Some option.case answered_with_def seen_one_def .
qed

theorem core_unary_callback_once_witness:
  "let es = [UcStream Attach, UcStream ReadCall, UcStream (Data [0, 0, 0, 0, 1, 7]), UcDeliver, UcStream EndOfStream, UcDeliver,
       UcStream (Trailers [(''grpc-status'', HStr ''0'')]), UcStream RunTask]
   in \<exists>pre r post. effects (uc_step \<lparr>push_result = \<lambda>_. True, decodeURI = Inr\<rparr> (\<lparr>cv_serialize = Inr, cv_deserialize = Inr, cv_push = \<lambda>_. True\<rparr> :: (bytes, bytes) core_env)) (uc_new (\<lparr>opt_deadline = Infinite, opt_credentials = EmptyCallCredentials, opt_flags = 0\<rparr> :: unit call_options) [] :: (nat, unit, bytes) unary_call) es = pre @ UcAnswer (Inr r) # post"
proof -
  let ?es = "[UcStream Attach, UcStream ReadCall, UcStream (Data [0, 0, 0, 0, 1, 7]), UcDeliver, UcStream EndOfStream, UcDeliver,
    UcStream (Trailers [(''grpc-status'', HStr ''0'')]), UcStream RunTask] :: nat uc_event list"
  have l: "legal_run (uc_step \<lparr>push_result = \<lambda>_. True, decodeURI = Inr\<rparr> (\<lparr>cv_serialize = Inr, cv_deserialize = Inr, cv_push = \<lambda>_. True\<rparr> :: (bytes, bytes) core_env)) uc_legal (uc_new (\<lparr>opt_deadline = Infinite, opt_credentials = EmptyCallCredentials, opt_flags = 0\<rparr> :: unit call_options) [] :: (nat, unit, bytes) unary_call) ?es" by code_simp
  have s: "map_option st_code (cs_getStatus (uc_stream (final (uc_step \<lparr>push_result = \<lambda>_. True, decodeURI = Inr\<rparr> (\<lparr>cv_serialize = Inr, cv_deserialize = Inr, cv_push = \<lambda>_. True\<rparr> :: (bytes, bytes) core_env)) (uc_new (\<lparr>opt_deadline = Infinite, opt_credentials = EmptyCallCredentials, opt_flags = 0\<rparr> :: unit call_options) [] :: (nat, unit, bytes) unary_call) ?es))) = Some OK" by code_simp
  then obtain s where s: "cs_getStatus (uc_stream (final (uc_step \<lparr>push_result = \<lambda>_. True, decodeURI = Inr\<rparr> (\<lparr>cv_serialize = Inr, cv_deserialize = Inr, cv_push = \<lambda>_. True\<rparr> :: (bytes, bytes) core_env)) (uc_new (\<lparr>opt_deadline = Infinite, opt_credentials = EmptyCallCredentials, opt_flags = 0\<rparr> :: unit call_options) [] :: (nat, unit, bytes) unary_call) ?es)) = Some s" "st_code s = OK"
    by (auto simp del: run_Cons_fst)
  from core_unary_callback_once [OF l] show ?thesis
    unfolding Let_def s option.case if_P [OF refl] by blast
qed

text \<open>
  C31: Messages survive the way from the sender's serializer to the reader of a js-core call: if
  the bytes received are the frames of some serialized messages and the deserializer inverts the
  serializer, the readable call object pushes exactly those messages, in order and followed by the
  end, once the call stream holds nothing back.
\<close>

theorem core_messages_end_to_end:
  assumes "legal_run (cs_step env) cs_legal (cs_new opts factories) es"
    and "list_all2 (\<lambda>m b. cv_serialize cenv m = Inr b) ms bs" and "list_all2 (\<lambda>b w. encodeMessage b = Inr w) bs ws"
    and "data_of es = concat ws"
    and "\<forall>m \<in> set ms. \<forall>b. cv_serialize cenv m = Inr b \<longrightarrow> cv_deserialize cenv b = Inr m"
    and "cs_unpushedReadMessages (final (cs_step env) (cs_new opts factories) es) = []"
  shows "rs_messages (effects (setUpReadableStream cenv) 0 (reader_events (effects (cs_step env) (cs_new opts factories) es))) =
    map Some ms @ (if EndOfStream \<in> set es then [None] else [])"
proof -
  have "pushed (effects (cs_step env) (cs_new opts factories) es) =
      map Some bs @ (if EndOfStream \<in> set es then [None] else [])"
    using delivery [OF cs_inv_new assms(1)] decode_encoded_list [OF assms(3)] assms(4,6)
    by (simp add: cs_new_def frame_of_def)
  with parse_serialized [OF assms(2,5)] show ?thesis
    by (simp add: rs_run_messages reader_events_parsed)
qed

theorem core_messages_end_to_end_witness:
  "let es = [Attach, ReadCall, Data [0, 0, 0, 0, 1], Data [7, 0, 0, 0, 0, 0], EndOfStream]
   in rs_messages (effects (setUpReadableStream (\<lparr>cv_serialize = Inr, cv_deserialize = Inr, cv_push = \<lambda>_. True\<rparr> :: (bytes, bytes) core_env)) 0 (reader_events (effects (cs_step \<lparr>push_result = \<lambda>_. True, decodeURI = Inr\<rparr>) (cs_new (\<lparr>opt_deadline = Infinite, opt_credentials = EmptyCallCredentials, opt_flags = 0\<rparr> :: unit call_options) [] :: (nat, unit) call_stream) es))) =
        [Some [7], Some [], None]"
proof -
  let ?es = "[Attach, ReadCall, Data [0, 0, 0, 0, 1], Data [7, 0, 0, 0, 0, 0], EndOfStream] :: nat cs_event list"
  have l: "legal_run (cs_step \<lparr>push_result = \<lambda>_. True, decodeURI = Inr\<rparr>) cs_legal (cs_new (\<lparr>opt_deadline = Infinite, opt_credentials = EmptyCallCredentials, opt_flags = 0\<rparr> :: unit call_options) [] :: (nat, unit) call_stream) ?es" by code_simp
  have s: "list_all2 (\<lambda>m b. cv_serialize (\<lparr>cv_serialize = Inr, cv_deserialize = Inr, cv_push = \<lambda>_. True\<rparr> :: (bytes, bytes) core_env) m = Inr b) [[7], []] [[7], []]" by simp
  have e: "list_all2 (\<lambda>b w. encodeMessage b = Inr w) [[7], []] [[0, 0, 0, 0, 1, 7], [0, 0, 0, 0, 0]]"
    by (simp add: encodeMessage_def writeUInt32BE_def)
  have d: "data_of ?es = concat [[0, 0, 0, 0, 1, 7], [0, 0, 0, 0, 0]]" by simp
  have r: "\<forall>m \<in> set [[7], []]. \<forall>b. cv_serialize (\<lparr>cv_serialize = Inr, cv_deserialize = Inr, cv_push = \<lambda>_. True\<rparr> :: (bytes, bytes) core_env) m = Inr b \<longrightarrow> cv_deserialize (\<lparr>cv_serialize = Inr, cv_deserialize = Inr, cv_push = \<lambda>_. True\<rparr> :: (bytes, bytes) core_env) b = Inr m" by simp
  have u: "cs_unpushedReadMessages (final (cs_step \<lparr>push_result = \<lambda>_. True, decodeURI = Inr\<rparr>) (cs_new (\<lparr>opt_deadline = Infinite, opt_credentials = EmptyCallCredentials, opt_flags = 0\<rparr> :: unit call_options) [] :: (nat, unit) call_stream) ?es) = []" by code_simp
  from core_messages_end_to_end [OF l s e d r u] show ?thesis by simp
qed

text \<open>
  C32: In every run of a js-core channel, an http2 request is only ever made while the channel is
  READY, on its current subchannel, which is the session it opened last; and unless close has been
  called, that session has never been asked to shut down.
\<close>

theorem stream_requests_use_the_current_session:
  fixes es :: "('o, 'cb) ch_event list"
  assumes "StreamRequest n h \<in> set (snd (ch_step env (final (ch_step env) ch_new es) e))"
  shows "let ch = final (ch_step env) ch_new es; eff = effects (ch_step env) ch_new es
    in getConnectivityState ch = READY \<and> ch_sub ch = SubSession n \<and> opened eff \<noteq> [] \<and> last (opened eff) = n \<and>
      (ChClose \<notin> set es \<longrightarrow> n \<notin> set (told_to_shut_down eff))"
  using request_on_sub [OF assms] sub_inv_run [of es env]
  by (simp add: sub_inv_def getConnectivityState_def Let_def)

theorem stream_requests_use_the_current_session_witness:
  "let env = \<lparr>che_context = None, che_hostname = ''h''\<rparr>;
       es = [ChConnect 0, SessionConnected 0, SessionTimeout 0, ChConnect 1, SessionConnected 1] :: (unit, nat) ch_event list
   in last (opened (effects (ch_step env) ch_new es)) = 1 \<and> 1 \<notin> set (told_to_shut_down (effects (ch_step env) ch_new es))"
proof -
  let ?env = "\<lparr>che_context = None, che_hostname = ''h''\<rparr>"
  let ?es = "[ChConnect 0, SessionConnected 0, SessionTimeout 0, ChConnect 1, SessionConnected 1] :: (unit, nat) ch_event list"
  let ?e = "FinalMetadata ''/s/m'' (Inr []) False None :: (unit, nat) ch_event"
  have c: "ChClose \<notin> set ?es" by simp
  have "snd (ch_step ?env (final (ch_step ?env) ch_new ?es) ?e) = [StreamRequest 1 (request_headers ''h'' ''/s/m'' [])]"
    by code_simp
  then have r: "StreamRequest 1 (request_headers ''h'' ''/s/m'' []) \<in> set (snd (ch_step ?env (final (ch_step ?env) ch_new ?es) ?e))"
    by (simp only: list.set insert_iff simp_thms)
  from stream_requests_use_the_current_session [OF r] c show ?thesis by (simp only: Let_def) blast
qed

text \<open>
  C33: Once close was called, and as long as no session reports that it connected or timed out
  (the listeners do not check that the channel was closed, which is the one way out of SHUTDOWN),
  the channel stays SHUTDOWN, changes no state, opens no session, makes no request and calls no
  callback whatever is called on it; and every further close and createStream throws 'Channel has
  been shut down' and changes nothing.
\<close>

theorem close_is_final:
  fixes es fs :: "('o, 'cb) ch_event list"
  assumes "\<not> list_ex session_event fs"
  shows "let closed = final (ch_step env) ch_new (es @ [ChClose]); ch = final (ch_step env) closed fs
    in getConnectivityState ch = SHUTDOWN \<and> filter acts (effects (ch_step env) closed fs) = [] \<and>
      ch_step env ch (ChClose :: ('o, 'cb) ch_event) = (ch, [ChThrow channel_shut_down]) \<and>
      (\<forall>(options :: 'o partial_options) f s. ch_step env ch (CreateStream options f s) = (ch, [ChThrow channel_shut_down]))"
  using ch_run_shutdown [OF ch_close_closes assms]
  by (simp add: run_append_fst getConnectivityState_def ch_close_def createStream_def Let_def)

theorem close_is_final_witness:
  "let env = \<lparr>che_context = None, che_hostname = ''h''\<rparr>;
       closed = final (ch_step env) ch_new ([ChConnect 0, SessionConnected 0] @ [ChClose] :: (unit, nat) ch_event list)
   in getConnectivityState (final (ch_step env) closed
        ([ChConnect 1, FinalMetadata ''/s/m'' (Inr []) False None] :: (unit, nat) ch_event list)) = SHUTDOWN"
proof -
  let ?env = "\<lparr>che_context = None, che_hostname = ''h''\<rparr>"
  have "\<not> list_ex session_event ([ChConnect 1, FinalMetadata ''/s/m'' (Inr []) False None] :: (unit, nat) ch_event list)"
    by simp
  from close_is_final [OF this, of ?env "[ChConnect 0, SessionConnected 0]"] show ?thesis by (simp only: Let_def)
qed

text \<open>
  C34: In a run in which no session times out and the channel is not closed (both drop the
  callbacks that wait), the callbacks called so far followed by those still waiting are, at every
  point, exactly the callbacks passed to connect by users and by the streams started, in order;
  and when the channel is READY none waits, so each of them was called exactly once.
\<close>

theorem connect_callbacks_are_called:
  fixes es :: "('o, 'cb) ch_event list"
  assumes "legal_run (ch_step env) ch_legal ch_new es" and "list_all undisturbed es"
  shows "called (effects (ch_step env) ch_new es) @ ch_listeners (final (ch_step env) ch_new es) = connect_callbacks es \<and>
    (getConnectivityState (final (ch_step env) ch_new es) = READY \<longrightarrow>
       called (effects (ch_step env) ch_new es) = connect_callbacks es)"
proof -
  let ?ch = "final (ch_step env) ch_new es"
  have all: "none_unheard ?ch" "called (effects (ch_step env) ch_new es) @ ch_listeners ?ch = connect_callbacks es"
    using unheard_run [OF none_unheard_new assms] by (simp_all add: ch_new_def)
  moreover have "ch_state ?ch = READY \<Longrightarrow> ch_listeners ?ch = []" using all(1) by (simp add: none_unheard_def)
  ultimately show ?thesis by (auto simp: getConnectivityState_def)
qed

theorem connect_callbacks_are_called_witness:
  "let env = \<lparr>che_context = None, che_hostname = ''h''\<rparr>;
       es = [ChConnect 0, ChConnect 1, SessionConnected 0, ChConnect 2] :: (unit, nat) ch_event list
   in called (effects (ch_step env) ch_new es) = [0, 1, 2]"
proof -
  let ?env = "\<lparr>che_context = None, che_hostname = ''h''\<rparr>"
  let ?es = "[ChConnect 0, ChConnect 1, SessionConnected 0, ChConnect 2] :: (unit, nat) ch_event list"
  have l: "legal_run (ch_step ?env) ch_legal ch_new ?es" by code_simp
  have c: "list_all undisturbed ?es" by simp
  have s: "getConnectivityState (final (ch_step ?env) ch_new ?es) = READY" by code_simp
  from connect_callbacks_are_called [OF l c] s show ?thesis by simp
qed

text \<open>
  C35: A client loaded from a protobuf.js 5 service and a server given the same service meet, if
  the camel case names of its methods are distinct (two that are equal lose a method: see
  findings), none starts with '$' (the client refuses those) and none is '__proto__': for every
  method of the service the client has a method under its camel case name that calls
  '/package.Service/Method', and a new server on which the service was added dispatches a call of
  that path, with the streaming kind the client uses, to an entry with the implementation given
  for that method (under its camel case or else its original name, and else the default handler of
  its kind) and the inverse serializers of the same message classes.
\<close>

theorem proto_service_reaches_handler:
  fixes service :: "('m, 'raw) pb5_class pb_service" and impl :: "string \<Rightarrow> 'h option"
  assumes "distinct (map (camel \<circ> pm_name) (ps_methods service))"
    and "\<forall>m \<in> set (ps_methods service). camel (pm_name m) \<noteq> ''__proto__'' \<and> take 1 (camel (pm_name m)) \<noteq> ''$''"
    and "m \<in> set (ps_methods service)"
  shows "\<exists>proto c srv' eff h. loadObject5 camel options (Pb5Service service) = (Inr (GClient proto) :: js_exn + ('m, 'x) grpc_object) \<and>
    map_of proto (camel (pm_name m)) = Some c \<and>
    addProtoService camel v (Proto5 service grpc_options) (Some impl) server_new =
      (srv', eff :: ('h, 'm \<Rightarrow> js_exn + bytes, bytes \<Rightarrow> js_exn + 'm, 'call) srv_effect list, None) \<and>
    cm_path c = ''/'' @ fullyQualifiedName (ps_ref service) @ ''/'' @ pm_name m \<and>
    snd (handleNewCall (Inr (call, Some (cm_path c), md)) srv') =
      [RequestCall, HandleCall (handled_as (cm_kind c)) call h (nm_fromCoreRepresentation md)] \<and>
    cm_serialize c = serializeCls5 (pm_requestType m) \<and> cm_deserialize c = deserializeCls5 (pm_responseType m) (Some options) \<and>
    hd_func h = (case impl (camel (pm_name m)) of Some f \<Rightarrow> Bound f
      | None \<Rightarrow> (case impl (pm_name m) of Some f \<Rightarrow> Bound f | None \<Rightarrow> DefaultHandler (hd_type h))) \<and>
    streamHandlers (hd_type h) = Some (handled_as (cm_kind c)) \<and>
    hd_serialize h = serializeCls5 (pm_responseType m) \<and>
    hd_deserialize h = deserializeCls5 (pm_requestType m) (Some (with_defaults grpc_options defaultGrpcOptions))"
proof -
  let ?o = "with_defaults grpc_options defaultGrpcOptions"
  let ?client = "getProtobufServiceAttrs5 camel service (Some options)"
  let ?server = "getProtobufServiceAttrs5 camel service (Some ?o)"
  let ?ca = "method_entry (method_prefix service) serializeCls5 (\<lambda>cls. deserializeCls5 cls (Some options)) m"
  let ?sa = "method_entry (method_prefix service) serializeCls5 (\<lambda>cls. deserializeCls5 cls (Some ?o)) m"
  have loadable: "loadable_service camel service" using assms(1,2) by (simp add: loadable_service_def)
  note client = service_attrs_good [OF loadable, where ser = serializeCls5 and des = "\<lambda>cls. deserializeCls5 cls (Some options)",
      folded getProtobufServiceAttrs5_def]
  note server = service_attrs_good [OF loadable, where ser = serializeCls5 and des = "\<lambda>cls. deserializeCls5 cls (Some ?o)",
      folded getProtobufServiceAttrs5_def]
  note both = both_ends [where v = v and impl = impl and call = call and md = md and ?'call = 'call]
  from both [OF client(1,2) client(5) [OF assms(3)] client(3,4)] obtain proto where
    c: "makeClientConstructor ?client None = Inr proto" "map_of proto (camel (pm_name m)) = Some (client_method_for ?ca)" by blast
  from both [OF server(1,2) server(5) [OF assms(3)] server(3,4)] obtain srv'
    and eff :: "('h, 'm \<Rightarrow> js_exn + bytes, bytes \<Rightarrow> js_exn + 'm, 'call) srv_effect list" where
    s: "addService v (Some ?server) (Some impl) server_new = (srv', eff, None)"
      "snd (handleNewCall (Inr (call, Some (at_path ?sa), md)) srv') =
        [RequestCall, HandleCall (handled_as (requester_kind ?sa)) call (entry_for impl (camel (pm_name m)) ?sa)
          (nm_fromCoreRepresentation md)]" by blast
  have "loadObject5 camel options (Pb5Service service) = (Inr (GClient proto) :: js_exn + ('m, 'x) grpc_object)" using c(1) by simp
  moreover have "addProtoService camel v (Proto5 service grpc_options) (Some impl) server_new = (srv', eff, None)"
    using s(1) by (simp add: addProtoService_def)
  moreover have "requester_kind ?sa = requester_kind ?ca" "at_path ?sa = at_path ?ca"
    by (simp_all add: requester_kind_def method_entry_def)
  ultimately show ?thesis using c(2) s(2)
    by (intro exI [of _ proto] exI [of _ "client_method_for ?ca"] exI [of _ srv'] exI [of _ eff]
        exI [of _ "entry_for impl (camel (pm_name m)) ?sa"])
      (simp add: client_method_for_def entry_for_def find_impl_def original_key_def handled_as_type method_entry_def method_prefix_def
        split: option.split)
qed

theorem proto_service_reaches_handler_witness:
  fixes cls :: "(nat, nat) pb5_class" and m :: "(nat, nat) pb5_class pb_method"
  defines "cls \<equiv> \<lparr>p5_encode = \<lambda>n. Inr (replicate n 0), p5_decode = \<lambda>b. Inr (length b), p5_toRaw = \<lambda>n _ _. n\<rparr>"
    and "m \<equiv> \<lparr>pm_name = ''Ping'', pm_requestStream = False, pm_responseStream = True, pm_requestType = cls, pm_responseType = cls\<rparr>"
  shows "\<exists>proto c. loadObject5 (\<lambda>n. ''ping'') defaultGrpcOptions
      (Pb5Service \<lparr>ps_ref = PbNamed ''S'' (PbNamed ''pkg'' (PbNamed [] PbNone)), ps_methods = [m]\<rparr>) =
      (Inr (GClient proto) :: js_exn + (nat, unit) grpc_object) \<and>
    map_of proto ''ping'' = Some c \<and> cm_path c = ''/pkg.S/Ping''"
proof -
  let ?s = "\<lparr>ps_ref = PbNamed ''S'' (PbNamed ''pkg'' (PbNamed [] PbNone)), ps_methods = [m]\<rparr>"
  have l: "distinct (map ((\<lambda>n. ''ping'') \<circ> pm_name) (ps_methods ?s))"
    "\<forall>m \<in> set (ps_methods ?s). ''ping'' \<noteq> ''__proto__'' \<and> take 1 ''ping'' \<noteq> ''$''" by simp_all
  have i: "m \<in> set (ps_methods ?s)" by simp
  have p: "''/'' @ fullyQualifiedName (ps_ref ?s) @ ''/'' @ pm_name m = ''/pkg.S/Ping''" by (simp add: m_def)
  from proto_service_reaches_handler [OF l(1) l(2) i, where ?'x = unit and options = defaultGrpcOptions and grpc_options = None
      and v = 0 and impl = "\<lambda>n. Some n" and call = "0 :: nat" and md = None] p
  show ?thesis by (auto simp only:)
qed

text \<open>
  C36: The filters of a js-core channel finish with a call's metadata exactly when the call has no
  deadline, or the channel connects while less than 10^8 hours remain: otherwise the promise of
  the metadata is never settled and the call is never sent.
\<close>

theorem sending_metadata_settles:
  assumes "obj_wf m"
  shows "stack_sendMetadata connected (stack_createFilter (channel_factories credentials) opts) (Fulfilled m) \<noteq> Pending \<longleftrightarrow>
    (case deadline_ms (opt_deadline opts) of
       None \<Rightarrow> True
     | Some d \<Rightarrow> (\<exists>now. connected = Some now \<and> d - now < 360000000000000))"
proof (cases "deadline_ms (opt_deadline opts)")
  case None
  with sent_metadata_infinite [OF assms None, of connected credentials] show ?thesis by auto
next
  case (Some d)
  show ?thesis
  proof (cases "\<exists>now s. connected = Some now \<and> timeout_string (d - now) = Some s")
    case True
    then obtain now s where now: "connected = Some now" "timeout_string (d - now) = Some s" by blast
    then have "d - now < 360000000000000" using timeout_string_None [of "d - now"] by fastforce
    with sent_metadata_timeout [OF assms Some now(2), of credentials] now(1) Some show ?thesis by auto
  next
    case False
    then have "sent_metadata credentials opts connected m = Pending"
      by (intro sent_metadata_pending [OF assms Some]) (auto split: option.split)
    moreover have "\<not> (\<exists>now. connected = Some now \<and> d - now < 360000000000000)"
      using False timeout_string_None by (metis not_None_eq not_less)
    ultimately show ?thesis using Some by simp
  qed
qed

theorem sending_metadata_settles_witness:
  "stack_sendMetadata (Some 1000) (stack_createFilter (channel_factories (createInsecure :: unit channel_credentials))
      \<lparr>opt_deadline = NumberAt 360000000001000, opt_credentials = EmptyCallCredentials, opt_flags = 0\<rparr>) (Fulfilled []) = Pending"
  using sending_metadata_settles [of "[]" "Some 1000" "createInsecure :: unit channel_credentials"
      "\<lparr>opt_deadline = NumberAt 360000000001000, opt_credentials = EmptyCallCredentials, opt_flags = 0\<rparr>"]
  by (simp add: obj_wf_def)

text \<open>
  C37: The headers of a call's http2 request: with a deadline and a connection in time, every
  metadata key keeps its values (binary ones in base64), the two encoding headers and grpc-timeout
  are set, and the five request headers are the channel's, overriding metadata of the same name:
  te 'trailers', content-type 'application/grpc', :method 'POST', :path the method's path and
  :authority the host name.
\<close>

theorem request_headers_carry_the_call:
  assumes "obj_wf m" and "deadline_ms (opt_deadline opts) = Some d" and "timeout_string (d - now) = Some s"
  shows "\<exists>m'. stack_sendMetadata (Some now) (stack_createFilter (channel_factories credentials) opts) (Fulfilled m) = Fulfilled m' \<and>
    (\<forall>k. k \<notin> set request_keys \<longrightarrow>
       (case map_of (request_headers hostname methodName m') k of Some h \<Rightarrow> h = HList (map http2_value (md_values m' k)) | None \<Rightarrow> md_values m' k = [])) \<and>
    md_values m' = ((md_values m)(''grpc-encoding'' := [MString ''identity''], ''grpc-accept-encoding'' := [MString ''identity'']))
      (''grpc-timeout'' := [MString s]) \<and>
    map_of (request_headers hostname methodName m') ''te'' = Some (HStr ''trailers'') \<and>
    map_of (request_headers hostname methodName m') ''content-type'' = Some (HStr ''application/grpc'') \<and>
    map_of (request_headers hostname methodName m') '':method'' = Some (HStr ''POST'') \<and>
    map_of (request_headers hostname methodName m') '':path'' = Some (HStr methodName) \<and>
    map_of (request_headers hostname methodName m') '':authority'' = Some (HStr hostname)"
proof -
  from sent_metadata_timeout [OF assms] obtain m' where m': "sent_metadata credentials opts (Some now) m = Fulfilled m'"
    "obj_wf m'" "md_values m' = (with_encoding (md_values m))(''grpc-timeout'' := [MString s])" by blast
  have k: "case map_of (request_headers hostname methodName m') k of
      Some h \<Rightarrow> h = HList (map http2_value (md_values m' k)) | None \<Rightarrow> md_values m' k = []" if "k \<notin> set request_keys" for k
    using that by (cases "map_of m' k") (auto simp: request_headers_of [OF m'(2)] md_values_def)
  show ?thesis
    by (intro exI [of _ m'] conjI m'(1) allI impI k) (simp_all add: m'(3) with_encoding_def request_headers_of [OF m'(2)])
qed

theorem request_headers_carry_the_call_witness:
  "\<exists>m'. stack_sendMetadata (Some 1000) (stack_createFilter (channel_factories (createInsecure :: unit channel_credentials))
        \<lparr>opt_deadline = NumberAt 1005, opt_credentials = EmptyCallCredentials, opt_flags = 0\<rparr>) (Fulfilled [(''k'', [MString ''v''])]) = Fulfilled m' \<and>
    md_values m' ''k'' = [MString ''v''] \<and> md_values m' ''grpc-timeout'' = [MString ''5m'']"
proof -
  have w: "obj_wf [(''k'', [MString ''v''])]" by (simp add: obj_wf_def)
  have d: "deadline_ms (opt_deadline (\<lparr>opt_deadline = NumberAt 1005, opt_credentials = EmptyCallCredentials, opt_flags = 0\<rparr> :: unit call_options)) = Some 1005"
    by simp
  have t: "timeout_string (1005 - 1000) = Some ''5m''"
    by (simp add: units_cases ceil_div_def int_digits_def nat_digits.simps char_of_def bit_0)
  from request_headers_carry_the_call [OF w d t, of "createInsecure :: unit channel_credentials" "[]" "[]"]
  obtain m' where m': "stack_sendMetadata (Some 1000) (stack_createFilter (channel_factories (createInsecure :: unit channel_credentials))
        \<lparr>opt_deadline = NumberAt 1005, opt_credentials = EmptyCallCredentials, opt_flags = 0\<rparr>) (Fulfilled [(''k'', [MString ''v''])]) = Fulfilled m'"
    "md_values m' = ((md_values [(''k'', [MString ''v''])])(''grpc-encoding'' := [MString ''identity''],
      ''grpc-accept-encoding'' := [MString ''identity'']))(''grpc-timeout'' := [MString ''5m''])" by blast
  show ?thesis by (intro exI [of _ m'] conjI m'(1)) (simp_all add: m'(2) md_values_def)
qed

text \<open>
  C38: Type soundness of js-core metadata: whatever sequence of set, add, remove, merge, clone and
  fromHttp2Headers calls made an object, the values get returns for a key are buffers when the
  normalized key ends with '-bin' and otherwise non-empty strings of printable ASCII characters.
\<close>

theorem metadata_values_are_typed:
  assumes "built m" and "cm_get key m = Inr vs" and "v \<in> set vs"
  shows "value_typed (cm_normalizeKey key) v"
  by (rule get_typed [OF built_valid [OF assms(1)] assms(2,3)])

theorem metadata_values_are_typed_witness:
  "value_typed (cm_normalizeKey ''K-BIN'') (MBuffer [1])"
proof (rule metadata_values_are_typed)
  have "cm_add ''k-bin'' (MBuffer [1]) [] = Inr [(''k-bin'', [MBuffer [1]])]" by code_simp
  then show "built [(''k-bin'', [MBuffer [1]])]" by (rule built_add [OF built_new])
  show "cm_get ''K-BIN'' [(''k-bin'', [MBuffer [1]])] = Inr [MBuffer [1]]" by code_simp
qed simp

text \<open>
  C39: All kinds of server calls answer an error alike: emitting it on a unary or client streaming
  call, or on a writable stream that then finishes, sends one batch with the same status, made
  from the error's message, code, details and metadata, and with empty initial metadata exactly
  when none was sent before. An error whose own metadata property is undefined is excluded: the
  unary kinds throw then, while the streams answer (see findings).
\<close>

theorem errors_answer_alike:
  fixes st :: "('q, 'k) server_call"
  assumes "eo_metadata e \<noteq> MdUndefined"
  shows "\<exists>b. batches (effects (sv_step env) st (EmitError e # (if writable_kind (sc_kind st) then [Finish] else []))) = [(b, TagNone)] \<and>
    op_send_status b = Some (handleError_status e) \<and>
    op_send_initial_metadata b = (if sc_metadataSent st then None else Some []) \<and> op_send_message b = None"
  using error_batch_alike [OF assms] by blast

theorem errors_answer_alike_witness:
  "\<exists>b. batches (effects (sv_step (\<lparr>he_serialize = Inr, he_deserialize = (\<lambda>b. case b of None \<Rightarrow> Inl (plain_error ''no message'') | Some x \<Rightarrow> Inr x), he_push = \<lambda>_. True\<rparr> :: (bytes, bytes) handler_env)) (sc_new Bidi :: (bytes, nat) server_call)
        (EmitError (plain_error ''boom'') # (if writable_kind (sc_kind (sc_new Bidi :: (bytes, nat) server_call)) then [Finish] else []))) = [(b, TagNone)] \<and>
    op_send_status b = Some (handleError_status (plain_error ''boom''))"
proof -
  have m: "eo_metadata (plain_error ''boom'') \<noteq> MdUndefined" by simp
  from errors_answer_alike [OF m, of "(\<lparr>he_serialize = Inr, he_deserialize = (\<lambda>b. case b of None \<Rightarrow> Inl (plain_error ''no message'') | Some x \<Rightarrow> Inr x), he_push = \<lambda>_. True\<rparr> :: (bytes, bytes) handler_env)" "sc_new Bidi :: (bytes, nat) server_call"] show ?thesis by blast
qed

text \<open>
  C40: addService reports the errors it documents: a missing service or implementation, an empty
  service and a started server are refused with their messages and leave the server unchanged, and
  a method whose path is already registered makes it throw without replacing any handler that was
  there.
\<close>

theorem add_service_rejects:
  fixes srv :: "('h, 's, 'd) server" and v :: int
  defines "add \<equiv> \<lambda>service implementation.
      (addService v service implementation srv :: _ \<times> ('h, 's, 'd, 'call) srv_effect list \<times> js_exn option)"
  shows "(service = None \<or> implementation = None \<longrightarrow>
      add service implementation = (srv, [], Some (JsError ''addService requires two objects as arguments''))) \<and>
    add (Some []) (Some impl) = (srv, [], Some (JsError ''Cannot add an empty service to a server'')) \<and>
    (svc \<noteq> [] \<and> srv_started srv \<longrightarrow>
      add (Some svc) (Some impl) = (srv, [], Some (JsError ''Can't add a service to a started server.''))) \<and>
    (\<not> srv_started srv \<and> (\<exists>e \<in> set svc. has_own (srv_handlers srv) (at_path (snd e))) \<longrightarrow>
      (\<exists>srv' eff p. add (Some svc) (Some impl) = (srv', eff, Some (JsError (''Method handler for '' @ p @ '' already provided.''))) \<and>
         (\<forall>q x. map_of (srv_handlers srv) q = Some x \<longrightarrow> map_of (srv_handlers srv') q = Some x)))"
proof -
  have n: "own_entries svc = [] \<longleftrightarrow> svc = []" by (metis set_empty set_own_entries)
  have "\<exists>srv' eff p. add (Some svc) (Some impl) = (srv', eff, Some (JsError (''Method handler for '' @ p @ '' already provided.''))) \<and>
         (\<forall>q x. map_of (srv_handlers srv) q = Some x \<longrightarrow> map_of (srv_handlers srv') q = Some x)"
    if "\<not> srv_started srv" and taken: "\<exists>e \<in> set svc. has_own (srv_handlers srv) (at_path (snd e))"
  proof -
    have "\<exists>e \<in> set (own_entries svc). has_own (srv_handlers srv) (at_path (snd e))" using taken by simp
    from add_methods_taken [OF this, of v impl, where ?'call = 'call] obtain srv'
      and eff :: "('h, 's, 'd, 'call) srv_effect list" and p
      where a: "add_methods v impl (own_entries svc) srv = (srv', eff, Some (JsError (''Method handler for '' @ p @ '' already provided.'')))" by blast
    moreover have "svc \<noteq> []" using taken by auto
    ultimately have "add (Some svc) (Some impl) = (srv', eff, Some (JsError (''Method handler for '' @ p @ '' already provided.'')))"
      using n that(1) by (simp add: add_def addService_def)
    with add_methods_keeps [OF a] show ?thesis by blast
  qed
  then show ?thesis using n by (auto simp: add_def addService_def split: option.split)
qed

theorem add_service_rejects_witness:
  "(addService 0 (None :: (nat, nat) method_attrs obj option) (Some (\<lambda>n. Some n)) server_new ::
      _ \<times> (string, nat, nat, nat) srv_effect list \<times> _) =
    (server_new, [], Some (JsError ''addService requires two objects as arguments''))"
  using add_service_rejects [of None "Some (\<lambda>n. Some n)" 0 "server_new :: (string, nat, nat) server" "\<lambda>n. Some n" "[]",
      where ?'call = nat] by blast

end
